(* ===== verification/Prelude.thy ===== *)
theory Prelude
  imports Complex_Main
begin

text \<open>
  Shared vocabulary of the development: the Python exceptions the modelled code can raise, list
  indexing and first-match search as Python performs them, the first minimal and first maximal
  element of a list under a key, and the fact collections the component theories extend.

  \<^item> \<open>room_simps\<close> collects the projections of the room operations (what each operation
    leaves unchanged and what it writes);
  \<^item> \<open>py_simps\<close> collects the unfoldings of the Python primitives.
\<close>

named_theorems room_simps \<open>projections of the room operations\<close>
named_theorems py_simps \<open>unfoldings of Python primitives\<close>

subsection \<open>Exceptions\<close>

datatype py_error = IndexError | ZeroDivisionError | KeyError

type_synonym 'a res = "py_error + 'a"

definition res_bind :: "'a res \<Rightarrow> ('a \<Rightarrow> 'b res) \<Rightarrow> 'b res" where
  "res_bind r f = (case r of Inl e \<Rightarrow> Inl e | Inr x \<Rightarrow> f x)"

lemma res_bind_simps [simp]:
  "res_bind (Inl e) f = Inl e"
  "res_bind (Inr x) f = f x"
  by (simp_all add: res_bind_def)

lemma res_bind_Inr_iff:
  "res_bind r f = Inr y \<longleftrightarrow> (\<exists>x. r = Inr x \<and> f x = Inr y)"
  by (cases r) auto

subsection \<open>Lists\<close>

definition py_nth :: "'a list \<Rightarrow> nat \<Rightarrow> 'a res" where
  "py_nth xs i = (if i < length xs then Inr (xs ! i) else Inl IndexError)"

lemma py_nth_Inr_iff: "py_nth xs i = Inr x \<longleftrightarrow> i < length xs \<and> x = xs ! i"
  by (auto simp: py_nth_def)

lemma py_nth_in_set: "py_nth xs i = Inr x \<Longrightarrow> x \<in> set xs"
  by (auto simp: py_nth_Inr_iff)

definition map_where :: "('a \<Rightarrow> bool) \<Rightarrow> ('a \<Rightarrow> 'a) \<Rightarrow> 'a list \<Rightarrow> 'a list" where
  "map_where P f xs = map (\<lambda>x. if P x then f x else x) xs"

lemma length_map_where [simp]: "length (map_where P f xs) = length xs"
  by (simp add: map_where_def)

lemma map_where_Nil [simp]: "map_where P f [] = []"
  by (simp add: map_where_def)

lemma map_where_Cons [simp]:
  "map_where P f (x # xs) = (if P x then f x else x) # map_where P f xs"
  by (simp add: map_where_def)

lemma map_where_eq_Nil_iff [simp]: "map_where P f xs = [] \<longleftrightarrow> xs = []"
  by (simp add: map_where_def)

lemma nth_map_where [simp]:
  "i < length xs \<Longrightarrow> map_where P f xs ! i = (if P (xs ! i) then f (xs ! i) else xs ! i)"
  by (simp add: map_where_def)

lemma map_map_where_id:
  assumes "\<And>x. P x \<Longrightarrow> g (f x) = g x"
  shows "map g (map_where P f xs) = map g xs"
  using assms by (simp add: map_where_def)

lemma filter_map_where_id:
  assumes "\<And>x. P x \<Longrightarrow> Q (f x) = Q x"
  shows "filter Q (map_where P f xs) = map_where P f (filter Q xs)"
  using assms by (induction xs) auto

lemma set_map_where:
  "set (map_where P f xs) = (\<lambda>x. if P x then f x else x) ` set xs"
  by (simp add: map_where_def)

lemma find_map_where:
  assumes "\<And>x. P x \<Longrightarrow> Q (f x) = Q x"
  shows "List.find Q (map_where P f xs) = map_option (\<lambda>x. if P x then f x else x) (List.find Q xs)"
  using assms by (induction xs) auto

lemma find_Some_mem: "List.find P xs = Some x \<Longrightarrow> x \<in> set xs \<and> P x"
  by (induction xs) (auto split: if_splits)

lemma find_None_filter: "List.find P xs = None \<longleftrightarrow> filter P xs = []"
  by (induction xs) auto

lemma find_append:
  "List.find P (xs @ ys) = (case List.find P xs of None \<Rightarrow> List.find P ys | Some x \<Rightarrow> Some x)"
  by (induction xs) auto

lemma find_key_distinct:
  assumes "distinct (map k xs)" and "x \<in> set xs"
  shows "List.find (\<lambda>y. k y = k x) xs = Some x"
  using assms by (induction xs) (auto simp: rev_image_eqI)

subsection \<open>First minimal and first maximal element under a key\<close>

text \<open>Python's \<open>min\<close> and \<open>max\<close> with a key return the first best element, \<open>None\<close> by default.\<close>

fun py_min_by :: "('a \<Rightarrow> 'k::linorder) \<Rightarrow> 'a list \<Rightarrow> 'a option" where
  "py_min_by k [] = None"
| "py_min_by k (x # xs) =
     (case py_min_by k xs of None \<Rightarrow> Some x | Some y \<Rightarrow> if k y < k x then Some y else Some x)"

fun py_max_by :: "('a \<Rightarrow> 'k::linorder) \<Rightarrow> 'a list \<Rightarrow> 'a option" where
  "py_max_by k [] = None"
| "py_max_by k (x # xs) =
     (case py_max_by k xs of None \<Rightarrow> Some x | Some y \<Rightarrow> if k x < k y then Some y else Some x)"

lemma py_min_by_None [simp]: "py_min_by k xs = None \<longleftrightarrow> xs = []"
  by (cases xs) (auto split: option.splits)

lemma py_max_by_None [simp]: "py_max_by k xs = None \<longleftrightarrow> xs = []"
  by (cases xs) (auto split: option.splits)

lemma py_min_by_Some:
  "py_min_by k xs = Some m \<Longrightarrow> m \<in> set xs \<and> (\<forall>x \<in> set xs. k m \<le> k x)"
  by (induction xs arbitrary: m) (fastforce split: option.splits if_splits)+

lemma py_max_by_Some:
  "py_max_by k xs = Some m \<Longrightarrow> m \<in> set xs \<and> (\<forall>x \<in> set xs. k x \<le> k m)"
  by (induction xs arbitrary: m) (fastforce split: option.splits if_splits)+

end
