(* ===== verification/Py_Text.thy ===== *)
theory Py_Text
  imports Prelude "HOL-Library.Sublist"
begin

text \<open>
  The string methods the code calls, on \<open>string\<close> (lists of characters): \<open>lower\<close>, \<open>strip\<close>,
  \<open>split\<close>, \<open>join\<close>, \<open>isalnum\<close>, and \<open>re.sub\<close> of an escaped literal with \<open>re.IGNORECASE\<close>. Case and
  character classes are those of ASCII: the model describes the code on ASCII text. Characters
  above 127 are neither letters, digits nor white space here.
\<close>

definition is_space :: "char \<Rightarrow> bool" where
  "is_space c \<longleftrightarrow> (of_char c :: nat) \<in> {9, 10, 11, 12, 13, 28, 29, 30, 31, 32}"

definition is_upper :: "char \<Rightarrow> bool" where
  "is_upper c \<longleftrightarrow> 65 \<le> (of_char c :: nat) \<and> (of_char c :: nat) \<le> 90"

definition lower_char :: "char \<Rightarrow> char" where
  "lower_char c = (if is_upper c then char_of ((of_char c :: nat) + 32) else c)"

definition is_alnum :: "char \<Rightarrow> bool" where
  "is_alnum c \<longleftrightarrow>
     (let n = (of_char c :: nat) in 48 \<le> n \<and> n \<le> 57 \<or> 65 \<le> n \<and> n \<le> 90 \<or> 97 \<le> n \<and> n \<le> 122)"

definition py_lower :: "string \<Rightarrow> string" where
  "py_lower s = map lower_char s"

definition py_strip :: "string \<Rightarrow> string" where
  "py_strip s = rev (dropWhile is_space (rev (dropWhile is_space s)))"

function py_split :: "string \<Rightarrow> string list" where
  "py_split s =
     (case dropWhile is_space s of
        [] \<Rightarrow> []
      | c # cs \<Rightarrow> (c # takeWhile (\<lambda>c. \<not> is_space c) cs) # py_split (dropWhile (\<lambda>c. \<not> is_space c) cs))"
  by pat_completeness auto
termination
proof (relation "measure length", simp)
  fix s :: string and c cs
  assume "dropWhile is_space s = c # cs"
  then have "length cs < length s" by (metis length_Cons length_dropWhile_le Suc_le_eq)
  moreover have "length (dropWhile (\<lambda>c. \<not> is_space c) cs) \<le> length cs" by (rule length_dropWhile_le)
  ultimately show "(dropWhile (\<lambda>c. \<not> is_space c) cs, s) \<in> measure length" by simp
qed

declare py_split.simps [simp del]

fun py_join :: "string \<Rightarrow> string list \<Rightarrow> string" where
  "py_join sep [] = []"
| "py_join sep [w] = w"
| "py_join sep (w # ws) = w @ sep @ py_join sep ws"

text \<open>
  \<open>re.sub(re.escape(w), "***", text, flags=re.IGNORECASE)\<close>: leftmost, non-overlapping matches of
  the literal; an empty pattern matches before every character and at the end.
\<close>

definition matches_ci :: "string \<Rightarrow> string \<Rightarrow> bool" where
  "matches_ci w t \<longleftrightarrow> prefix (py_lower w) (py_lower t)"

function re_sub_word :: "string \<Rightarrow> string \<Rightarrow> string" where
  "re_sub_word w t =
     (if w = [] then concat (map (\<lambda>c. ''***'' @ [c]) t) @ ''***''
      else if matches_ci w t then ''***'' @ re_sub_word w (drop (length w) t)
      else (case t of [] \<Rightarrow> [] | c # cs \<Rightarrow> c # re_sub_word w cs))"
  by pat_completeness auto
termination
proof (relation "measure (\<lambda>(w, t). length t)", simp)
  fix w t :: string
  assume "w \<noteq> []" and "matches_ci w t"
  then have "length w \<noteq> 0" and "length w \<le> length t"
    by (auto simp: matches_ci_def py_lower_def dest: prefix_length_le)
  then have "length t - length w < length t" by linarith
  then show "((w, drop (length w) t), w, t) \<in> measure (\<lambda>(w, t). length t)" by simp
qed auto

declare re_sub_word.simps [simp del]

subsection \<open>Characters\<close>

lemma lower_char_code: "(of_char (lower_char c) :: nat) =
    (if is_upper c then of_char c + 32 else of_char c)"
  by (auto simp: lower_char_def is_upper_def)

lemma of_char_eq_iff_nat: "c = d \<longleftrightarrow> (of_char c :: nat) = of_char d"
  by (metis char_of_char)

lemma is_space_lower [simp]: "is_space (lower_char c) = is_space c"
  by (auto simp: is_space_def lower_char_code is_upper_def)

lemma lower_char_star [simp]: "lower_char c = CHR ''*'' \<longleftrightarrow> c = CHR ''*''"
  by (auto simp: of_char_eq_iff_nat [of "lower_char c"] of_char_eq_iff_nat [of c "CHR ''*''"]
      lower_char_code is_upper_def split: if_splits)

lemma lower_char_star_sym [simp]: "CHR ''*'' = lower_char c \<longleftrightarrow> c = CHR ''*''"
  by (metis lower_char_star)

lemma lower_star [simp]: "lower_char CHR ''*'' = CHR ''*''"
  by simp

lemma lower_char_idem [simp]: "lower_char (lower_char c) = lower_char c"
  by (auto simp: lower_char_def is_upper_def)

lemma is_space_blank [simp]: "is_space CHR '' ''" and not_space_star [simp]: "\<not> is_space CHR ''*''"
  and not_alnum_star [simp]: "\<not> is_alnum CHR ''*''" and lower_blank [simp]: "lower_char CHR '' '' = CHR '' ''"
  by (simp_all add: is_space_def is_alnum_def lower_char_def is_upper_def)

subsection \<open>Lower case\<close>

lemma py_lower_simps [simp]:
  "py_lower [] = []" "py_lower (c # s) = lower_char c # py_lower s"
  "py_lower (s @ t) = py_lower s @ py_lower t" "length (py_lower s) = length s"
  "py_lower s = [] \<longleftrightarrow> s = []" "py_lower (py_lower s) = py_lower s"
  by (auto simp: py_lower_def)

lemma star_in_lower [simp]: "CHR ''*'' \<in> set (py_lower s) \<longleftrightarrow> CHR ''*'' \<in> set s"
  by (auto simp: py_lower_def image_iff)

lemma spaces_in_lower: "(\<forall>c \<in> set (py_lower s). \<not> is_space c) \<longleftrightarrow> (\<forall>c \<in> set s. \<not> is_space c)"
  by (auto simp: py_lower_def)

lemma py_lower_replicate [simp]: "py_lower (replicate n c) = replicate n (lower_char c)"
  by (simp add: py_lower_def)

lemma sublist_py_lower: "sublist s t \<Longrightarrow> sublist (py_lower s) (py_lower t)"
  by (auto simp: py_lower_def intro: map_mono_sublist)

lemma py_lower_take: "py_lower (take n s) = take n (py_lower s)"
  by (simp add: py_lower_def take_map)

subsection \<open>Splitting and joining\<close>

definition is_token :: "string \<Rightarrow> bool" where
  "is_token w \<longleftrightarrow> w \<noteq> [] \<and> (\<forall>c \<in> set w. \<not> is_space c)"

lemma py_split_Nil [simp]: "py_split [] = []"
  by (simp add: py_split.simps)

lemma py_split_tokens: "w \<in> set (py_split s) \<Longrightarrow> is_token w \<and> sublist w s"
proof (induction s rule: py_split.induct)
  case (1 s)
  show ?case
  proof (cases "dropWhile is_space s")
    case Nil
    with "1.prems" show ?thesis by (subst (asm) py_split.simps) simp
  next
    case (Cons c cs)
    let ?w = "c # takeWhile (\<lambda>c. \<not> is_space c) cs" and ?r = "dropWhile (\<lambda>c. \<not> is_space c) cs"
    have s: "s = takeWhile is_space s @ ?w @ ?r"
      using takeWhile_dropWhile_id [of is_space s] Cons by simp
    have "\<not> is_space c" using Cons hd_dropWhile [of is_space s] by simp
    then have tok: "is_token ?w" by (auto simp: is_token_def dest: set_takeWhileD)
    from "1.prems" Cons have "w = ?w \<or> w \<in> set (py_split ?r)"
      by (subst (asm) py_split.simps) simp
    then show ?thesis
    proof
      assume "w = ?w"
      moreover have "sublist ?w s" unfolding sublist_def using s by blast
      ultimately show ?thesis using tok by simp
    next
      assume "w \<in> set (py_split ?r)"
      with "1.IH" [OF Cons] have "is_token w \<and> sublist w ?r" by simp
      moreover have "sublist ?r s" unfolding sublist_def using s by (metis append_Nil2 append_assoc)
      ultimately show ?thesis by (metis sublist_order.order_trans)
    qed
  qed
qed

lemma py_split_token_blank:
  assumes "is_token w"
  shows "py_split (w @ CHR '' '' # s) = w # py_split s" and "py_split w = [w]"
proof -
  from assms obtain c cs where w: "w = c # cs" "\<not> is_space c" and cs: "\<forall>c \<in> set cs. \<not> is_space c"
    by (auto simp: is_token_def neq_Nil_conv)
  have tw: "takeWhile (\<lambda>c. \<not> is_space c) (cs @ CHR '' '' # s) = cs"
    and dw: "dropWhile (\<lambda>c. \<not> is_space c) (cs @ CHR '' '' # s) = CHR '' '' # s"
    using cs by (simp_all add: takeWhile_append2 dropWhile_append2)
  have "py_split (CHR '' '' # s) = py_split s"
    by (subst (1 2) py_split.simps) simp
  then show "py_split (w @ CHR '' '' # s) = w # py_split s"
    using w tw dw by (subst py_split.simps) simp
  have "takeWhile (\<lambda>c. \<not> is_space c) cs = cs" and d: "dropWhile (\<lambda>c. \<not> is_space c) cs = []"
    using cs by (simp_all add: takeWhile_eq_all_conv dropWhile_eq_Nil_conv)
  then show "py_split w = [w]"
    using w d by (subst py_split.simps) (simp del: dropWhile_eq_Nil_conv)
qed

lemma py_split_join:
  "(\<And>w. w \<in> set ws \<Longrightarrow> is_token w) \<Longrightarrow> py_split (py_join '' '' ws) = ws"
  by (induction "'' ''" ws rule: py_join.induct) (simp_all add: py_split_token_blank)

lemma sublist_split_at:
  assumes "sublist u (a @ x # b)" and "x \<notin> set u"
  shows "sublist u a \<or> sublist u b"
  using assms
proof (induction a)
  case Nil
  then show ?case by (cases u) (auto simp: sublist_Cons_right)
next
  case (Cons y a)
  have "prefix u (y # a)" if "prefix u (y # a @ x # b)"
    using that Cons.prems(2) prefix_append [of u "y # a" "x # b"] by (auto simp: prefix_Cons)
  with Cons show ?case by (auto simp: sublist_Cons_right)
qed

lemma sublist_join:
  assumes "sublist u (py_join '' '' ws)" and "u \<noteq> []" and "CHR '' '' \<notin> set u"
  shows "\<exists>w \<in> set ws. sublist u w"
  using assms
proof (induction "'' ''" ws rule: py_join.induct)
  case (3 w v ws)
  then have "sublist u (w @ CHR '' '' # py_join '' '' (v # ws))" by simp
  with sublist_split_at [OF this] 3 show ?case by auto
qed auto

lemma py_lower_join: "py_lower (py_join '' '' ws) = py_join '' '' (map py_lower ws)"
  by (induction "'' ''" ws rule: py_join.induct) auto

subsection \<open>Substitution removes every occurrence\<close>

lemma re_sub_word_unfold:
  assumes "w \<noteq> []"
  shows "re_sub_word w [] = []"
    and "matches_ci w t \<Longrightarrow> re_sub_word w t = ''***'' @ re_sub_word w (drop (length w) t)"
    and "\<not> matches_ci w (c # cs) \<Longrightarrow> re_sub_word w (c # cs) = c # re_sub_word w cs"
  using assms by (subst re_sub_word.simps, simp add: matches_ci_def)+

lemma re_sub_word_take:
  assumes "w \<noteq> []" and "CHR ''*'' \<notin> set (take n (re_sub_word w t))"
  shows "take n (re_sub_word w t) = take n t"
  using assms
proof (induction t arbitrary: n)
  case (Cons c cs)
  show ?case
  proof (cases "matches_ci w (c # cs)")
    case True
    with Cons.prems have "n = 0" by (cases n) (auto simp: re_sub_word_unfold)
    then show ?thesis by simp
  next
    case False
    with Cons show ?thesis by (cases n) (auto simp: re_sub_word_unfold)
  qed
qed (simp add: re_sub_word_unfold)

lemma matches_ci_take: "matches_ci w t \<longleftrightarrow> py_lower (take (length w) t) = py_lower w"
proof
  assume "matches_ci w t"
  then obtain q where "py_lower t = py_lower w @ q" by (auto simp: matches_ci_def prefix_def)
  then show "py_lower (take (length w) t) = py_lower w" by (simp add: py_lower_take)
next
  assume "py_lower (take (length w) t) = py_lower w"
  then show "matches_ci w t" unfolding matches_ci_def by (metis py_lower_take take_is_prefix)
qed

lemma matches_ci_star: "w \<noteq> [] \<Longrightarrow> CHR ''*'' \<notin> set w \<Longrightarrow> \<not> matches_ci w (CHR ''*'' # t)"
proof
  assume w: "w \<noteq> []" "CHR ''*'' \<notin> set w" and m: "matches_ci w (CHR ''*'' # t)"
  obtain c cs where "w = c # cs" using w(1) by (cases w) auto
  with m have "lower_char c = lower_char CHR ''*''" by (simp add: matches_ci_def)
  moreover have "lower_char CHR ''*'' = CHR ''*''" by simp
  ultimately have "c = CHR ''*''" by simp
  with w(2) \<open>w = c # cs\<close> show False by simp
qed

lemma sublist_ci_iff: "sublist (py_lower w) (py_lower t) \<longleftrightarrow> (\<exists>a b. t = a @ b \<and> matches_ci w b)"
proof
  assume "sublist (py_lower w) (py_lower t)"
  then obtain p q where "py_lower t = p @ py_lower w @ q" by (auto simp: sublist_def)
  then have "py_lower (drop (length p) t) = py_lower w @ q" by (simp add: py_lower_def drop_map [symmetric])
  then have "matches_ci w (drop (length p) t)" by (simp add: matches_ci_def)
  then show "\<exists>a b. t = a @ b \<and> matches_ci w b" by (metis append_take_drop_id)
qed (auto simp: matches_ci_def intro: sublist_order.order_trans prefix_imp_sublist)

lemma re_sub_word_head:
  assumes w: "w \<noteq> []" "CHR ''*'' \<notin> set w" and "matches_ci w (c # re_sub_word w cs)"
  shows "matches_ci w (c # cs)"
proof -
  obtain n where n: "length w = Suc n" using w(1) by (cases w) auto
  with assms(3) have l: "lower_char c # py_lower (take n (re_sub_word w cs)) = py_lower w"
    by (simp add: matches_ci_take)
  have "CHR ''*'' \<notin> set (py_lower (take n (re_sub_word w cs)))"
    using w(2) l by (metis list.set_intros(2) star_in_lower)
  then have "take n (re_sub_word w cs) = take n cs"
    using w(1) by (intro re_sub_word_take) auto
  with l n show ?thesis by (simp add: matches_ci_take)
qed

lemma re_sub_word_no_match:
  assumes w: "w \<noteq> []" "CHR ''*'' \<notin> set w"
  shows "re_sub_word w t = a @ b \<Longrightarrow> \<not> matches_ci w b"
proof (induction "length t" arbitrary: t a b rule: less_induct)
  case less
  consider "t = []" | "matches_ci w t" | c cs where "t = c # cs" "\<not> matches_ci w t"
    by (cases t) auto
  then show ?case
  proof cases
    case 1
    then show ?thesis using less.prems w by (auto simp: re_sub_word_unfold matches_ci_def)
  next
    case 2
    let ?t = "drop (length w) t"
    have "length w \<le> length t" using 2 by (auto simp: matches_ci_def dest: prefix_length_le)
    then have IH: "re_sub_word w ?t = a' @ b \<Longrightarrow> \<not> matches_ci w b" for a'
      using less.hyps [of ?t] w(1) by (simp add: length_greater_0_conv [symmetric] del: length_greater_0_conv)
    have "a @ b = ''***'' @ re_sub_word w ?t" using less.prems 2 w by (simp add: re_sub_word_unfold)
    then show ?thesis using IH [OF sym] matches_ci_star [OF w]
      by (auto simp: Cons_eq_append_conv append_eq_Cons_conv)
  next
    case (3 c cs)
    then have ab: "a @ b = c # re_sub_word w cs" using less.prems w by (simp add: re_sub_word_unfold)
    show ?thesis
    proof (cases a)
      case Nil
      with ab 3 re_sub_word_head [OF w, of c cs] show ?thesis by auto
    next
      case (Cons d ds)
      with ab 3 less.hyps [of cs ds b] show ?thesis by simp
    qed
  qed
qed

lemma re_sub_word_removes:
  assumes "w \<noteq> []" and "CHR ''*'' \<notin> set w"
  shows "\<not> sublist (py_lower w) (py_lower (re_sub_word w t))"
  using re_sub_word_no_match [OF assms] by (auto simp: sublist_ci_iff)

end
