(* ===== verification/Models.thy ===== *)
theory Models
  imports Py_Text
begin

text \<open>
  The data of \<open>backend/models.py\<close> and the request records of \<open>backend/room_manager.py\<close>: enums as
  datatypes, dataclasses as records with the fields in source order. Attributes that the code adds
  to a room or a player at run time (\<open>_pending_word_choices\<close>, \<open>_auto_select_task\<close>, \<open>_guess_time\<close>,
  ...) are fields too; \<open>None\<close> stands for an attribute that is absent or \<open>None\<close>.

  Python objects are values here. A player is changed by its identifier in the room's list
  (\<open>upd_player\<close>); the index \<open>players_by_id\<close> of the same objects is the subject of the theory
  \<open>Player_Index\<close>, which proves that looking a player up through it is \<open>get_player\<close>.

  asyncio tasks: a room carries the pool of its scheduled, unfinished tasks (\<open>loop_tasks\<close>), each
  with a number, the time its \<open>asyncio.sleep\<close> ends and the coroutine it then runs with the
  variables it captured. \<open>task.done()\<close> is absence from the pool, \<open>task.cancel()\<close> removes it.
\<close>

type_synonym task = nat

datatype websocket = WebSocket nat | VirtualTransport nat nat
  \<comment> \<open>object identity; for a virtual transport also the identity of its stream's send queue\<close>

datatype room_state = LOBBY | WORD_SELECTION | PLAYING | GAME_OVER

datatype turn_end_reason = TIMER_EXPIRED | ALL_GUESSED | DRAWER_DISCONNECTED

record player =
  pid :: string
  pname :: string
  score :: int
  has_guessed :: bool
  is_connected :: bool
  is_ready :: bool
  avatar :: "string option"
  websocket :: "websocket option"
  disconnect_time :: "rat option"
  cleanup_task :: "task option"
  session_score :: int
  session_wins :: int
  session_games :: int
  streak :: int
  max_streak :: int
  correct_guesses_count :: int
  fastest_guess_time :: "rat option"
  drawer_points_earned :: int
  is_spectator :: bool
  become_player_requests_count :: int
  host_reassign_task :: "task option"
  guess_time :: "rat option"

definition new_player :: "string \<Rightarrow> string \<Rightarrow> player" where
  "new_player i n =
     \<lparr>pid = i, pname = n, score = 0, has_guessed = False, is_connected = True, is_ready = False,
      avatar = None, websocket = None, disconnect_time = None, cleanup_task = None,
      session_score = 0, session_wins = 0, session_games = 0, streak = 0, max_streak = 0,
      correct_guesses_count = 0, fastest_guess_time = None, drawer_points_earned = 0,
      is_spectator = False, become_player_requests_count = 0, host_reassign_task = None,
      guess_time = None\<rparr>"

record game_config =
  num_rounds :: int
  turn_duration :: int
  max_players :: int
  custom_words :: "string list"
  password :: "string option"

definition default_config :: game_config where
  "default_config =
     \<lparr>num_rounds = 3, turn_duration = 80, max_players = 12, custom_words = [], password = None\<rparr>"

text \<open>A theme or pack header; an emoji is the list of its Unicode code points.\<close>

record theme_info =
  theme_id :: string
  theme_name :: string
  theme_emoji :: "nat list"

record word_pack = theme_info +
  pack_words :: "string list"

record turn_state =
  turn_oid :: nat \<comment> \<open>object identity, for \<open>room.turn is turn_state\<close>\<close>
  drawer_id :: string
  word :: string
  hint :: string
  start_time :: rat
  word_choices :: "string list"
  timer_task :: "task option"
  hint_task_40 :: "task option"
  hint_task_70 :: "task option"
  guess_order :: "string list"
  theme :: "theme_info option"

record pending_join_request =
  jr_request_id :: string
  jr_room_code :: string
  jr_name :: string
  jr_avatar :: "string option"
  jr_websocket :: websocket
  jr_created_at :: rat
  jr_timeout_task :: "task option"

record pending_spectator_role_request =
  sr_request_id :: string
  sr_room_code :: string
  sr_player_id :: string
  sr_name :: string
  sr_avatar :: "string option"
  sr_created_at :: rat
  sr_timeout_task :: "task option"

record vote_kick_state =
  vk_target_id :: string
  vk_target_name :: string
  vk_initiator_id :: string
  vk_initiator_name :: string
  vk_room_code :: string
  vk_votes :: "string set"
  vk_timeout_task :: "task option"
  vk_created_at :: rat

text \<open>The coroutines the code schedules, with the variables they capture.\<close>

datatype coroutine =
    AutoSelect string          \<comment> \<open>\<open>auto_select\<close> of \<open>start_turn\<close>, the drawer\<close>
  | RevealHint40 nat           \<comment> \<open>\<open>reveal_hint_40\<close>, the turn object\<close>
  | RevealHint70 nat
  | TurnTimer nat
  | EndAfterWait               \<comment> \<open>\<open>end_after_wait\<close> of \<open>_end_game_insufficient_players\<close>\<close>
  | CleanupPlayer string       \<comment> \<open>\<open>cleanup_after_timeout\<close> of \<open>handle_disconnect\<close>\<close>
  | ReassignHost string        \<comment> \<open>\<open>reassign_host_after_timeout\<close>\<close>
  | JoinRequestTimeout string
  | ExpireRoleRequest string string
  | VoteTimeout string

record room =
  code :: string
  host_id :: string
  players :: "player list"
  config :: game_config
  state :: room_state
  current_round :: int
  drawer_index :: nat
  turn :: "turn_state option"
  used_words :: "string set"
  word_pool :: "string list"
  is_proxy :: bool
  pending_word_choices :: "string list option"
  pending_packs :: "word_pack list option"
  auto_select_task :: "task option"
  insufficient_players_task :: "task option"
  room_join_requests :: "(string \<times> pending_join_request) list"
  room_role_requests :: "(string \<times> pending_spectator_role_request) list"
  loop_tasks :: "(task \<times> rat \<times> coroutine) list"
  next_oid :: nat

definition new_room :: "string \<Rightarrow> string \<Rightarrow> game_config \<Rightarrow> room" where
  "new_room c h cfg =
     \<lparr>code = c, host_id = h, players = [], config = cfg, state = LOBBY, current_round = 0,
      drawer_index = 0, turn = None, used_words = {}, word_pool = [], is_proxy = False,
      pending_word_choices = None, pending_packs = None, auto_select_task = None,
      insufficient_players_task = None, room_join_requests = [], room_role_requests = [],
      loop_tasks = [], next_oid = 0\<rparr>"

subsection \<open>Players of a room\<close>

definition add_player :: "player \<Rightarrow> room \<Rightarrow> room" where
  "add_player p r = r\<lparr>players := players r @ [p]\<rparr>"

definition remove_player :: "string \<Rightarrow> room \<Rightarrow> room" where
  "remove_player i r = r\<lparr>players := filter (\<lambda>p. pid p \<noteq> i) (players r)\<rparr>"

definition get_player :: "room \<Rightarrow> string \<Rightarrow> player option" where
  "get_player r i = List.find (\<lambda>p. pid p = i) (players r)"

definition upd_player :: "string \<Rightarrow> (player \<Rightarrow> player) \<Rightarrow> room \<Rightarrow> room" where
  "upd_player i f r = r\<lparr>players := map_where (\<lambda>p. pid p = i) f (players r)\<rparr>"

definition upd_players :: "(player \<Rightarrow> player) \<Rightarrow> room \<Rightarrow> room" where
  "upd_players f r = r\<lparr>players := map f (players r)\<rparr>"

text \<open>Counts and filters that many operations repeat.\<close>

definition is_active :: "player \<Rightarrow> bool" where
  "is_active p \<longleftrightarrow> \<not> is_spectator p"

definition connected_active :: "player \<Rightarrow> bool" where
  "connected_active p \<longleftrightarrow> is_connected p \<and> \<not> is_spectator p"

definition active_count :: "room \<Rightarrow> nat" where
  "active_count r = length (filter is_active (players r))"

definition spectator_count :: "room \<Rightarrow> nat" where
  "spectator_count r = length (filter is_spectator (players r))"

definition connected_active_count :: "room \<Rightarrow> nat" where
  "connected_active_count r = length (filter connected_active (players r))"

definition connected_count :: "room \<Rightarrow> nat" where
  "connected_count r = length (filter is_connected (players r))"

abbreviation player_ids :: "room \<Rightarrow> string list" where
  "player_ids r \<equiv> map pid (players r)"

subsection \<open>Tasks of a room\<close>

definition create_task :: "rat \<Rightarrow> coroutine \<Rightarrow> room \<Rightarrow> task \<times> room" where
  "create_task due k r =
     (next_oid r, r\<lparr>loop_tasks := loop_tasks r @ [(next_oid r, due, k)], next_oid := next_oid r + 1\<rparr>)"

definition task_done :: "room \<Rightarrow> task \<Rightarrow> bool" where
  "task_done r t \<longleftrightarrow> t \<notin> fst ` set (loop_tasks r)"

definition cancel_task :: "task \<Rightarrow> room \<Rightarrow> room" where
  "cancel_task t r = r\<lparr>loop_tasks := filter (\<lambda>e. fst e \<noteq> t) (loop_tasks r)\<rparr>"

text \<open>\<open>if task is not None and not task.done(): task.cancel()\<close>\<close>

definition cancel_if_pending :: "task option \<Rightarrow> room \<Rightarrow> room" where
  "cancel_if_pending t r = (case t of None \<Rightarrow> r | Some i \<Rightarrow> if task_done r i then r else cancel_task i r)"

definition pending :: "room \<Rightarrow> task option \<Rightarrow> bool" where
  "pending r t \<longleftrightarrow> (case t of None \<Rightarrow> False | Some i \<Rightarrow> \<not> task_done r i)"

subsection \<open>Facts\<close>

lemmas room_op_defs [room_simps] =
  add_player_def remove_player_def upd_player_def upd_players_def cancel_task_def

lemma cancel_if_pending_eq [room_simps]:
  "cancel_if_pending t r = r\<lparr>loop_tasks := filter (\<lambda>e. Some (fst e) \<noteq> t) (loop_tasks r)\<rparr>"
proof -
  have "filter (\<lambda>e. fst e \<noteq> i) (loop_tasks r) = loop_tasks r" if "task_done r i" for i
    using that by (auto simp: task_done_def intro!: filter_True)
  then show ?thesis
    by (auto simp: cancel_if_pending_def cancel_task_def split: option.splits)
qed

lemma get_player_SomeD: "get_player r i = Some p \<Longrightarrow> p \<in> set (players r) \<and> pid p = i"
  by (auto simp: get_player_def dest: find_Some_mem)

lemma get_player_None_iff: "get_player r i = None \<longleftrightarrow> i \<notin> set (player_ids r)"
  by (auto simp: get_player_def find_None_iff)

lemma get_player_mem:
  "distinct (player_ids r) \<Longrightarrow> p \<in> set (players r) \<Longrightarrow> get_player r (pid p) = Some p"
  by (simp add: get_player_def find_key_distinct)

lemma get_player_cong: "players r = players r' \<Longrightarrow> get_player r i = get_player r' i"
  by (simp add: get_player_def)

lemma player_ids_upd_player:
  "(\<And>p. pid (f p) = pid p) \<Longrightarrow> player_ids (upd_player i f r) = player_ids r"
  by (simp add: upd_player_def map_map_where_id)

lemma get_upd_player:
  "(\<And>p. pid (f p) = pid p) \<Longrightarrow>
   get_player (upd_player i f r) j = map_option (\<lambda>p. if pid p = i then f p else p) (get_player r j)"
  by (simp add: get_player_def upd_player_def find_map_where)

lemma length_upd_player [simp]: "length (players (upd_player i f r)) = length (players r)"
  by (simp add: upd_player_def)

lemma counts_cong:
  "players r = players r' \<Longrightarrow> connected_active_count r = connected_active_count r'"
  "players r = players r' \<Longrightarrow> connected_count r = connected_count r'"
  "players r = players r' \<Longrightarrow> active_count r = active_count r'"
  "players r = players r' \<Longrightarrow> spectator_count r = spectator_count r'"
  by (simp_all add: connected_active_count_def connected_count_def active_count_def spectator_count_def)

lemma active_plus_spectators: "active_count r + spectator_count r = length (players r)"
proof -
  have "is_active = (\<lambda>p. \<not> is_spectator p)" by (auto simp: is_active_def)
  then show ?thesis
    using sum_length_filter_compl [of is_spectator "players r"]
    by (simp add: active_count_def spectator_count_def)
qed

lemma connected_active_le:
  "connected_active_count r \<le> connected_count r" "connected_active_count r \<le> active_count r"
  "connected_count r \<le> length (players r)"
proof -
  have a: "filter connected_active xs = filter connected_active (filter is_connected xs)"
    and b: "filter connected_active xs = filter connected_active (filter is_active xs)" for xs
    by (auto simp: connected_active_def is_active_def intro!: filter_cong)
  show "connected_active_count r \<le> connected_count r" "connected_active_count r \<le> active_count r"
    unfolding connected_active_count_def connected_count_def active_count_def
    by (subst a, rule length_filter_le, subst b, rule length_filter_le)
  show "connected_count r \<le> length (players r)" by (simp add: connected_count_def)
qed

subsection \<open>The task pool\<close>

definition tasks_ok :: "room \<Rightarrow> bool" where
  "tasks_ok r \<longleftrightarrow> distinct (map fst (loop_tasks r)) \<and> (\<forall>e \<in> set (loop_tasks r). fst e < next_oid r)"

lemma create_task_simps [room_simps]:
  "fst (create_task due k r) = next_oid r"
  "snd (create_task due k r) =
     r\<lparr>loop_tasks := loop_tasks r @ [(next_oid r, due, k)], next_oid := next_oid r + 1\<rparr>"
  by (simp_all add: create_task_def)

lemma create_task_ok: "tasks_ok r \<Longrightarrow> tasks_ok (snd (create_task due k r))"
  by (auto simp: tasks_ok_def create_task_def)

lemma cancel_task_ok: "tasks_ok r \<Longrightarrow> tasks_ok (cancel_task t r)"
  by (auto simp: tasks_ok_def cancel_task_def distinct_map_filter)

lemma cancel_if_pending_ok: "tasks_ok r \<Longrightarrow> tasks_ok (cancel_if_pending t r)"
  by (auto simp: tasks_ok_def cancel_if_pending_eq distinct_map_filter)

lemma cancel_if_pending_not_pending: "\<not> pending (cancel_if_pending t r) t"
  by (cases t) (auto simp: pending_def cancel_if_pending_eq task_done_def)

end
