(* ===== verification/Player_Index.thy ===== *)
theory Player_Index
  imports Models
begin

text \<open>
  \<open>Room.add_player\<close>, \<open>Room.remove_player\<close> and \<open>Room.get_player\<close> on objects: the room holds the list
  \<open>players\<close> of references to player objects and the dictionary \<open>players_by_id\<close> from identifiers to
  references to the same objects; \<open>get_player\<close> falls back to a scan of the list and then fills
  the index. The interface \<open>player_table\<close> says what the rest of the code may rely on. It is
  interpreted twice: on the objects (\<open>objs\<close>) and on the value model of the theory \<open>Models\<close>
  (\<open>vals\<close>), which the other theories use.
\<close>

subsection \<open>The interface\<close>

locale player_table =
  fixes add :: "player \<Rightarrow> 's \<Rightarrow> 's"
    and remove :: "string \<Rightarrow> 's \<Rightarrow> 's"
    and get :: "'s \<Rightarrow> string \<Rightarrow> player option"
    and upd :: "string \<Rightarrow> (player \<Rightarrow> player) \<Rightarrow> 's \<Rightarrow> 's"
    and plist :: "'s \<Rightarrow> player list"
    and invar :: "'s \<Rightarrow> bool"
  assumes plist_add: "invar s \<Longrightarrow> pid p \<notin> pid ` set (plist s) \<Longrightarrow> plist (add p s) = plist s @ [p]"
    and plist_remove: "invar s \<Longrightarrow> plist (remove i s) = filter (\<lambda>p. pid p \<noteq> i) (plist s)"
    and plist_upd: "invar s \<Longrightarrow> (\<And>p. pid (f p) = pid p) \<Longrightarrow>
      plist (upd i f s) = map_where (\<lambda>p. pid p = i) f (plist s)"
    and get_plist: "invar s \<Longrightarrow> get s i = List.find (\<lambda>p. pid p = i) (plist s)"
    and invar_distinct: "invar s \<Longrightarrow> distinct (map pid (plist s))"
    and invar_add: "invar s \<Longrightarrow> pid p \<notin> pid ` set (plist s) \<Longrightarrow> invar (add p s)"
    and invar_remove: "invar s \<Longrightarrow> invar (remove i s)"
    and invar_upd: "invar s \<Longrightarrow> (\<And>p. pid (f p) = pid p) \<Longrightarrow> invar (upd i f s)"
begin

lemma get_iff: "invar s \<Longrightarrow> get s i = Some p \<longleftrightarrow> p \<in> set (plist s) \<and> pid p = i"
  using invar_distinct find_key_distinct [of pid "plist s" p]
  by (auto simp: get_plist dest: find_Some_mem)

lemma get_after_add:
  assumes "invar s" and "pid p \<notin> pid ` set (plist s)"
  shows "get (add p s) i = (if i = pid p then Some p else get s i)"
proof -
  have "List.find (\<lambda>q. pid q = pid p) (plist s) = None"
    using assms(2) by (auto simp: find_None_iff image_iff)
  then show ?thesis
    using assms by (auto simp: get_plist invar_add plist_add find_append split: option.splits)
qed

lemma get_after_remove:
  assumes "invar s"
  shows "get (remove i s) j = (if j = i then None else get s j)"
proof -
  have "List.find (\<lambda>p. pid p = j) (filter (\<lambda>p. pid p \<noteq> i) xs)
      = (if j = i then None else List.find (\<lambda>p. pid p = j) xs)" for xs
    by (induction xs) auto
  from this [of "plist s"] assms show ?thesis by (simp only: get_plist invar_remove plist_remove)
qed

lemma get_after_upd:
  "invar s \<Longrightarrow> (\<And>p. pid (f p) = pid p) \<Longrightarrow>
   get (upd i f s) j = (if j = i then map_option f (get s j) else get s j)"
  by (auto simp: get_plist invar_upd plist_upd find_map_where split: option.splits
      dest: find_Some_mem intro!: option.map_cong option.map_ident_strong)

end

interpretation vals: player_table add_player remove_player get_player upd_player players
  "\<lambda>r. distinct (player_ids r)"
  by unfold_locales
    (auto simp: room_simps get_player_def distinct_map_filter map_map_where_id)

subsection \<open>Objects\<close>

record room_object =
  player_refs :: "nat list"
  players_by_id :: "string \<rightharpoonup> nat"
  store :: "nat \<Rightarrow> player"
  next_ref :: nat

definition obj_add_player :: "player \<Rightarrow> room_object \<Rightarrow> room_object" where
  "obj_add_player p s =
     s\<lparr>player_refs := player_refs s @ [next_ref s],
       players_by_id := (players_by_id s)(pid p \<mapsto> next_ref s),
       store := (store s)(next_ref s := p), next_ref := next_ref s + 1\<rparr>"

definition obj_remove_player :: "string \<Rightarrow> room_object \<Rightarrow> room_object" where
  "obj_remove_player i s =
     s\<lparr>player_refs := filter (\<lambda>a. pid (store s a) \<noteq> i) (player_refs s),
       players_by_id := (players_by_id s)(i := None)\<rparr>"

definition obj_get_player :: "string \<Rightarrow> room_object \<Rightarrow> nat option \<times> room_object" where
  "obj_get_player i s =
     (case players_by_id s i of
        Some a \<Rightarrow> (Some a, s)
      | None \<Rightarrow>
          (case List.find (\<lambda>a. pid (store s a) = i) (player_refs s) of
             Some a \<Rightarrow> (Some a, s\<lparr>players_by_id := (players_by_id s)(i \<mapsto> a)\<rparr>)
           | None \<Rightarrow> (None, s)))"

text \<open>Reading and mutating the object a lookup returned.\<close>

definition obj_lookup :: "room_object \<Rightarrow> string \<Rightarrow> player option" where
  "obj_lookup s i = map_option (store s) (fst (obj_get_player i s))"

definition obj_mutate :: "string \<Rightarrow> (player \<Rightarrow> player) \<Rightarrow> room_object \<Rightarrow> room_object" where
  "obj_mutate i f s =
     (case obj_get_player i s of
        (None, s') \<Rightarrow> s'
      | (Some a, s') \<Rightarrow> s'\<lparr>store := (store s')(a := f (store s' a))\<rparr>)"

definition obj_players :: "room_object \<Rightarrow> player list" where
  "obj_players s = map (store s) (player_refs s)"

definition obj_ok :: "room_object \<Rightarrow> bool" where
  "obj_ok s \<longleftrightarrow>
     distinct (player_refs s) \<and> distinct (map pid (obj_players s)) \<and>
     (\<forall>a \<in> set (player_refs s). a < next_ref s) \<and>
     (\<forall>i a. players_by_id s i = Some a \<longrightarrow> a \<in> set (player_refs s) \<and> pid (store s a) = i)"

lemma obj_find_ref:
  assumes "obj_ok s" and "a \<in> set (player_refs s)" and "pid (store s a) = i"
  shows "List.find (\<lambda>a. pid (store s a) = i) (player_refs s) = Some a"
  using assms find_key_distinct [of "pid \<circ> store s" "player_refs s" a]
  by (simp add: obj_ok_def obj_players_def comp_def)

lemma obj_get_player_ref:
  "obj_ok s \<Longrightarrow> fst (obj_get_player i s) = List.find (\<lambda>a. pid (store s a) = i) (player_refs s)"
proof (cases "players_by_id s i")
  case (Some a)
  moreover assume ok: "obj_ok s"
  ultimately have "a \<in> set (player_refs s)" and "pid (store s a) = i" by (auto simp: obj_ok_def)
  then show ?thesis using Some obj_find_ref [OF ok] by (simp add: obj_get_player_def)
qed (simp add: obj_get_player_def split: option.splits)

lemma obj_get_player_frame:
  "player_refs (snd (obj_get_player i s)) = player_refs s"
  "store (snd (obj_get_player i s)) = store s" "next_ref (snd (obj_get_player i s)) = next_ref s"
  by (auto simp: obj_get_player_def split: option.splits)

lemma obj_get_player_ok: "obj_ok s \<Longrightarrow> obj_ok (snd (obj_get_player i s))"
  by (auto simp: obj_get_player_def obj_ok_def obj_players_def split: option.splits
      dest: find_Some_mem)

lemma find_map: "List.find P (map f xs) = map_option f (List.find (P \<circ> f) xs)"
  by (induction xs) auto

lemma obj_lookup_find: "obj_ok s \<Longrightarrow> obj_lookup s i = List.find (\<lambda>p. pid p = i) (obj_players s)"
  by (simp add: obj_lookup_def obj_get_player_ref obj_players_def find_map comp_def)

lemma obj_players_add: "obj_ok s \<Longrightarrow> obj_players (obj_add_player p s) = obj_players s @ [p]"
  by (auto simp: obj_ok_def obj_players_def obj_add_player_def)

lemma obj_players_remove:
  "obj_players (obj_remove_player i s) = filter (\<lambda>p. pid p \<noteq> i) (obj_players s)"
  by (simp add: obj_players_def obj_remove_player_def filter_map comp_def)

lemma obj_players_mutate:
  assumes ok: "obj_ok s" and f: "\<And>p. pid (f p) = pid p"
  shows "obj_players (obj_mutate i f s) = map_where (\<lambda>p. pid p = i) f (obj_players s)"
proof (cases "obj_get_player i s")
  case (Pair ra s')
  then have s': "player_refs s' = player_refs s" "store s' = store s"
    using obj_get_player_frame [of i s] by simp_all
  have ra: "ra = List.find (\<lambda>a. pid (store s a) = i) (player_refs s)"
    using obj_get_player_ref [OF ok, of i] Pair by simp
  show ?thesis
  proof (cases ra)
    case None
    then have "\<forall>a \<in> set (player_refs s). pid (store s a) \<noteq> i"
      using ra by (auto simp: find_None_iff)
    then show ?thesis using None Pair s' by (auto simp: obj_mutate_def obj_players_def map_where_def)
  next
    case (Some a)
    then have a: "a \<in> set (player_refs s)" "pid (store s a) = i" using ra by (auto dest: find_Some_mem)
    have "pid (store s b) = i \<longleftrightarrow> b = a" if "b \<in> set (player_refs s)" for b
      by (metis a obj_find_ref [OF ok] option.inject that)
    then have "map ((store s)(a := f (store s a))) (player_refs s) =
        map (\<lambda>b. if pid (store s b) = i then f (store s b) else store s b) (player_refs s)"
      by (intro map_cong) auto
    with Some Pair s' show ?thesis by (simp add: obj_mutate_def obj_players_def map_where_def)
  qed
qed

lemma obj_mutate_ok:
  assumes ok: "obj_ok s" and f: "\<And>p. pid (f p) = pid p"
  shows "obj_ok (obj_mutate i f s)"
proof -
  obtain ra s' where g: "obj_get_player i s = (ra, s')" by (cases "obj_get_player i s")
  then have s': "obj_ok s'" using obj_get_player_ok [OF ok, of i] by simp
  show ?thesis
  proof (cases ra)
    case None
    with g s' show ?thesis by (simp add: obj_mutate_def)
  next
    case (Some a)
    let ?s = "s'\<lparr>store := (store s')(a := f (store s' a))\<rparr>"
    have p: "pid (store ?s b) = pid (store s' b)" for b using f by simp
    have "map pid (obj_players ?s) = map pid (obj_players s')"
      using p by (simp add: obj_players_def)
    with s' p have "obj_ok ?s" unfolding obj_ok_def by auto
    with Some g show ?thesis by (simp add: obj_mutate_def)
  qed
qed

interpretation objs: player_table obj_add_player obj_remove_player obj_lookup obj_mutate obj_players obj_ok
proof unfold_locales
  fix s and p :: player and i :: string
  assume ok: "obj_ok s"
  show "distinct (map pid (obj_players s))" using ok by (simp add: obj_ok_def)
  show "obj_players (obj_remove_player i s) = filter (\<lambda>p. pid p \<noteq> i) (obj_players s)"
    by (rule obj_players_remove)
  show "obj_lookup s i = List.find (\<lambda>p. pid p = i) (obj_players s)"
    using ok by (rule obj_lookup_find)
  show "obj_ok (obj_remove_player i s)"
    using ok by (fastforce simp: obj_ok_def obj_remove_player_def obj_players_def distinct_map_filter)
  assume "pid p \<notin> pid ` set (obj_players s)"
  then show "obj_players (obj_add_player p s) = obj_players s @ [p]" and "obj_ok (obj_add_player p s)"
    using ok obj_players_add [OF ok, of p] by (fastforce simp: obj_ok_def obj_add_player_def)+
next
  fix s and i :: string and f :: "player \<Rightarrow> player"
  assume "obj_ok s" and "\<And>p. pid (f p) = pid p"
  then show "obj_players (obj_mutate i f s) = map_where (\<lambda>p. pid p = i) f (obj_players s)"
    and "obj_ok (obj_mutate i f s)"
    by (auto simp: obj_players_mutate obj_mutate_ok)
qed

text \<open>
  C26 (refinement). The index \<open>players_by_id\<close> never goes stale. In every room object that satisfies
  the representation invariant, adding a player with a new identifier, removing a player and
  changing the player a lookup returned keep the invariant and act on the ordered list of players
  exactly as the value model does, and \<open>Room.get_player\<close>, index first and list scan as fallback,
  returns the player the value model finds.
\<close>

theorem player_index_refines:
  assumes "obj_ok s" and "obj_players s = players r"
    and "pid p \<notin> set (player_ids r)" and "\<And>p. pid (f p) = pid p"
  shows "obj_lookup s i = get_player r i \<and>
     obj_ok (obj_remove_player i s) \<and> obj_players (obj_remove_player i s) = players (remove_player i r) \<and>
     obj_ok (obj_add_player p s) \<and> obj_players (obj_add_player p s) = players (add_player p r) \<and>
     obj_ok (obj_mutate i f s) \<and> obj_players (obj_mutate i f s) = players (upd_player i f r)"
proof -
  have "pid p \<notin> pid ` set (obj_players s)" using assms(2,3) by simp
  then show ?thesis
    using assms objs.get_plist [of s i] objs.plist_remove [of s i] objs.invar_remove [of s i]
      objs.plist_add [of s p] objs.invar_add [of s p] objs.plist_upd [of s f i] objs.invar_upd [of s f i]
    by (simp add: get_player_def room_simps)
qed

definition empty_object :: room_object where
  "empty_object = \<lparr>player_refs = [], players_by_id = Map.empty, store = (\<lambda>_. new_player [] []), next_ref = 0\<rparr>"

theorem player_index_refines_witness:
  "obj_ok (obj_add_player (new_player ''a'' ''Ann'') empty_object) \<and>
   obj_players (obj_add_player (new_player ''a'' ''Ann'') empty_object) = [new_player ''a'' ''Ann'']"
proof -
  have "obj_ok empty_object" and "obj_players empty_object = players (new_room ''R'' ''a'' default_config)"
    by (simp_all add: empty_object_def obj_ok_def obj_players_def new_room_def)
  from player_index_refines [OF this, of "new_player ''a'' ''Ann''" "\<lambda>p. p"]
  show ?thesis by (simp add: new_room_def add_player_def)
qed

end
