(* ===== verification/Words_Data.thy ===== *)
theory Words_Data
  imports Models "HOL-Library.Char_ord" "HOL-Library.List_Lexorder"
begin

text \<open>
  The themed word packs of \<open>backend/words.py\<close>, the reverse lookup \<open>WORD_TO_PACK\<close> and the unified
  list \<open>WORDS\<close>. An emoji is the list of its Unicode code points.
\<close>

definition pack_animals :: word_pack where
  "pack_animals =
     \<lparr>theme_id = ''animals'', theme_name = ''Animals & Wildlife'', theme_emoji = [128062],
      pack_words =
        [''dog'', ''elephant'', ''whale'', ''zebra'', ''eagle'', ''kangaroo'', ''octopus'',
         ''penguin'', ''giraffe'', ''jellyfish'', ''owl'', ''dinosaur'', ''wolf'',
         ''butterfly'', ''lion'', ''parrot'', ''rabbit'', ''snake'', ''tiger'', ''dolphin'',
         ''frog'', ''horse'', ''koala'', ''spider'', ''turtle'', ''gorilla'', ''insect'',
         ''lobster'', ''ostrich'', ''peacock'', ''caterpillar'', ''flamingo'',
         ''grasshopper'', ''goldfish'', ''iguana'', ''dragonfly'', ''starfish'', ''bear'',
         ''camel'', ''cat'', ''cheetah'', ''chameleon'', ''chimpanzee'', ''crab'',
         ''crocodile'', ''deer'', ''duck'', ''fox'', ''hedgehog'', ''hippo'', ''mouse'',
         ''panda'', ''rhino'', ''seagull'', ''seal'', ''shark'', ''sheep'', ''sloth'',
         ''snail'', ''squirrel'', ''swan'', ''walrus'', ''badger'', ''hamster'',
         ''raccoon'', ''otter'', ''beaver'', ''skunk'']\<rparr>"

definition pack_food :: word_pack where
  "pack_food =
     \<lparr>theme_id = ''food'', theme_name = ''Food & Cuisine'', theme_emoji = [127829],
      pack_words =
        [''apple'', ''banana'', ''lemon'', ''mushroom'', ''orange'', ''grapes'', ''onion'',
         ''bread'', ''cherry'', ''olive'', ''pumpkin'', ''tomato'', ''waffle'', ''pretzel'',
         ''donut'', ''jellybean'', ''lollipop'', ''sandwich'', ''hamburger'', ''icecream'',
         ''avocado'', ''bacon'', ''bagel'', ''cake'', ''cheese'', ''chocolate'', ''cookie'',
         ''corn'', ''croissant'', ''cupcake'', ''egg'', ''hotdog'', ''noodles'',
         ''pancake'', ''peach'', ''peanut'', ''pear'', ''pie'', ''pineapple'', ''pizza'',
         ''popcorn'', ''potato'', ''salad'', ''sausage'', ''soup'', ''spaghetti'',
         ''steak'', ''strawberry'', ''sushi'', ''taco'', ''toast'', ''watermelon'',
         ''muffin'', ''honey'', ''butter'', ''carrot'', ''mango'', ''coconut'', ''cookie'',
         ''dumpling'', ''broccoli'']\<rparr>"

definition pack_objects :: word_pack where
  "pack_objects =
     \<lparr>theme_id = ''objects'', theme_name = ''Everyday Objects'', theme_emoji = [128230],
      pack_words =
        [''jacket'', ''kite'', ''lamp'', ''notebook'', ''piano'', ''umbrella'', ''violin'',
         ''xylophone'', ''diamond'', ''globe'', ''hammer'', ''quilt'', ''window'',
         ''anchor'', ''balloon'', ''candle'', ''envelope'', ''feather'', ''key'',
         ''ladder'', ''magnet'', ''necklace'', ''scissors'', ''telescope'', ''vase'',
         ''camera'', ''helmet'', ''compass'', ''jewel'', ''knot'', ''ring'', ''skull'',
         ''arrow'', ''clock'', ''drum'', ''flag'', ''heart'', ''ink'', ''jar'', ''mirror'',
         ''wheel'', ''needle'', ''suitcase'', ''zipper'', ''harp'', ''jigsaw'', ''kettle'',
         ''napkin'', ''trophy'', ''battery'', ''dominoes'', ''jukebox'', ''lantern'',
         ''microscope'', ''newspaper'', ''origami'', ''ukulele'', ''blanket'', ''crayon'',
         ''keyboard'', ''mailbox'', ''nutcracker'', ''paintbrush'', ''toothbrush'',
         ''wrench'', ''backpack'', ''chandelier'', ''earring'', ''glasses'', ''iron'',
         ''horseshoe'', ''uniform'', ''lanyard'', ''book'', ''bottle'', ''bucket'',
         ''chair'', ''couch'', ''cup'', ''dice'', ''fork'', ''headphones'', ''knife'',
         ''lock'', ''mug'', ''pencil'', ''pillow'', ''plate'', ''radio'', ''rope'',
         ''soap'', ''spoon'', ''table'', ''towel'', ''watch'']\<rparr>"

definition pack_nature :: word_pack where
  "pack_nature =
     \<lparr>theme_id = ''nature'', theme_name = ''Nature & Weather'', theme_emoji = [127794],
      pack_words =
        [''flower'', ''mountain'', ''ocean'', ''rainbow'', ''sun'', ''tree'', ''forest'',
         ''moon'', ''nest'', ''snowflake'', ''tornado'', ''volcano'', ''waterfall'',
         ''iceberg'', ''leaf'', ''rose'', ''cactus'', ''acorn'', ''icicle'', ''quicksand'',
         ''earth'', ''garden'', ''blizzard'', ''cave'', ''cliff'', ''cloud'', ''comet'',
         ''desert'', ''eclipse'', ''fire'', ''galaxy'', ''island'', ''jungle'',
         ''lightning'', ''meteor'', ''puddle'', ''rain'', ''river'', ''rock'', ''smoke'',
         ''star'', ''storm'', ''sunrise'', ''sunset'', ''thunder'', ''valley'', ''wave'',
         ''wind'']\<rparr>"

definition pack_places :: word_pack where
  "pack_places =
     \<lparr>theme_id = ''places'', theme_name = ''Places & Buildings'', theme_emoji = [127984],
      pack_words =
        [''house'', ''bridge'', ''castle'', ''igloo'', ''lighthouse'', ''village'',
         ''throne'', ''beach'', ''fountain'', ''maze'', ''windmill'', ''elevator'',
         ''escalator'', ''fireplace'', ''airport'', ''aquarium'', ''bakery'', ''bank'',
         ''barn'', ''cabin'', ''church'', ''circus'', ''cottage'', ''factory'', ''farm'',
         ''fort'', ''gym'', ''hospital'', ''hotel'', ''library'', ''mall'', ''market'',
         ''museum'', ''palace'', ''park'', ''playground'', ''prison'', ''pyramid'',
         ''school'', ''skyscraper'', ''stadium'', ''station'', ''supermarket'', ''temple'',
         ''theater'', ''tower'', ''zoo'']\<rparr>"

definition pack_vehicles :: word_pack where
  "pack_vehicles =
     \<lparr>theme_id = ''vehicles'', theme_name = ''Vehicles & Travel'', theme_emoji = [128640],
      pack_words =
        [''car'', ''yacht'', ''airplane'', ''rocket'', ''helicopter'', ''parachute'',
         ''surfboard'', ''engine'', ''kayak'', ''hammock'', ''trampoline'', ''football'',
         ''volleyball'', ''ambulance'', ''bicycle'', ''blimp'', ''boat'', ''bulldozer'',
         ''bus'', ''canoe'', ''carriage'', ''ferry'', ''firetruck'', ''forklift'',
         ''hoverboard'', ''jetski'', ''limousine'', ''motorcycle'', ''raft'', ''scooter'',
         ''skateboard'', ''sled'', ''snowboard'', ''spaceship'', ''submarine'', ''tank'',
         ''taxi'', ''tractor'', ''train'', ''truck'', ''van'']\<rparr>"

definition pack_fantasy :: word_pack where
  "pack_fantasy =
     \<lparr>theme_id = ''fantasy'', theme_name = ''Fantasy & Sci-Fi'', theme_emoji = [129497],
      pack_words =
        [''queen'', ''unicorn'', ''dragon'', ''robot'', ''wizard'', ''firework'', ''ghost'',
         ''treasure'', ''vampire'', ''king'', ''angel'', ''mermaid'', ''witch'',
         ''emerald'', ''radar'', ''satellite'', ''alien'', ''cauldron'', ''crystal'',
         ''cyborg'', ''demon'', ''dungeon'', ''elf'', ''fairy'', ''flying carpet'',
         ''genie'', ''giant'', ''goblin'', ''laser'', ''magic wand'', ''monster'',
         ''mummy'', ''pegasus'', ''phoenix'', ''portal'', ''potion'', ''shield'',
         ''spellbook'', ''sword'', ''time machine'', ''zombie'']\<rparr>"

definition pack_characters :: word_pack where
  "pack_characters =
     \<lparr>theme_id = ''characters'', theme_name = ''Characters & Roles'', theme_emoji = [128104, 8205, 127859],
      pack_words =
        [''ninja'', ''pirate'', ''nurse'', ''judge'', ''astronaut'', ''dentist'',
         ''scarecrow'', ''actor'', ''artist'', ''athlete'', ''baby'', ''baker'', ''barber'',
         ''builder'', ''captain'', ''carpenter'', ''chef'', ''clown'', ''detective'',
         ''diver'', ''doctor'', ''farmer'', ''firefighter'', ''guard'', ''hunter'',
         ''knight'', ''lifeguard'', ''magician'', ''mailman'', ''mechanic'', ''musician'',
         ''painter'', ''pilot'', ''police'', ''prince'', ''princess'', ''sailor'',
         ''scientist'', ''singer'', ''soldier'', ''spy'', ''superhero'']\<rparr>"

definition WORD_PACKS :: "word_pack list" where
  "WORD_PACKS =
     [pack_animals, pack_food, pack_objects, pack_nature,
      pack_places, pack_vehicles, pack_fantasy, pack_characters]"

text \<open>Iterating over the packs and their words, a later pack overwrites an earlier entry.\<close>

definition WORD_TO_PACK :: "string \<rightharpoonup> theme_info" where
  "WORD_TO_PACK =
     foldl (\<lambda>m pack. foldl (\<lambda>m w. m(py_lower w \<mapsto> theme_info.truncate pack)) m (pack_words pack))
       Map.empty WORD_PACKS"

definition WORDS :: "string list" where
  "WORDS = sort (remdups (map py_lower (concat (map pack_words WORD_PACKS))))"

end
