(* ===== verification/Py_Random.thy ===== *)
theory Py_Random
  imports Prelude "HOL-Library.Multiset"
begin

text \<open>
  \<open>random.choice\<close>, \<open>random.sample\<close> and \<open>random.shuffle\<close>. The numbers the generator draws are an
  argument (\<open>rng\<close>: one list of draws per call), so that the functions stay executable and a theorem
  that holds for every \<open>rng\<close> holds for every outcome; \<open>random_sample_complete\<close> shows that every
  outcome is reached by some draws.
\<close>

type_synonym rng = "nat \<Rightarrow> nat list"

definition draw :: "nat list \<Rightarrow> nat" where
  "draw rs = (case rs of [] \<Rightarrow> 0 | r # _ \<Rightarrow> r)"

definition random_choice :: "nat list \<Rightarrow> 'a list \<Rightarrow> 'a res" where
  "random_choice rs xs = (if xs = [] then Inl IndexError else Inr (xs ! (draw rs mod length xs)))"

fun random_sample :: "nat list \<Rightarrow> nat \<Rightarrow> 'a list \<Rightarrow> 'a list" where
  "random_sample rs 0 xs = []"
| "random_sample rs (Suc k) xs =
     (if xs = [] then []
      else let i = draw rs mod length xs
           in xs ! i # random_sample (tl rs) k (take i xs @ drop (Suc i) xs))"

definition random_shuffle :: "nat list \<Rightarrow> 'a list \<Rightarrow> 'a list" where
  "random_shuffle rs xs = random_sample rs (length xs) xs"

lemma random_choice_in: "random_choice rs xs = Inr x \<Longrightarrow> x \<in> set xs"
  by (auto simp: random_choice_def split: if_splits)

lemma random_choice_ex: "xs \<noteq> [] \<Longrightarrow> \<exists>x. random_choice rs xs = Inr x"
  by (simp add: random_choice_def)

lemma length_random_sample [simp]: "length (random_sample rs k xs) = min k (length xs)"
proof (induction rs k xs rule: random_sample.induct)
  case (2 rs k xs)
  show ?case
  proof (cases "xs = []")
    case False
    let ?i = "draw rs mod length xs"
    from False have "?i < length xs" by simp
    then have "length (take ?i xs @ drop (Suc ?i) xs) = length xs - 1" by simp
    with False 2 [OF False refl] show ?thesis by (cases xs) (simp_all add: Let_def)
  qed simp
qed simp

lemma random_sample_no_draws: "random_sample [] k xs = take k xs"
proof (induction k arbitrary: xs)
  case (Suc k)
  then show ?case by (cases xs) (auto simp: draw_def)
qed simp

lemma mset_split_nth: "i < length xs \<Longrightarrow> mset xs = add_mset (xs ! i) (mset (take i xs @ drop (Suc i) xs))"
proof -
  assume "i < length xs"
  then have "mset xs = mset (take i xs @ xs ! i # drop (Suc i) xs)" by (simp add: id_take_nth_drop [symmetric])
  then show ?thesis by simp
qed

lemma mset_random_sample: "mset (random_sample rs k xs) \<subseteq># mset xs"
proof (induction rs k xs rule: random_sample.induct)
  case (2 rs k xs)
  show ?case
  proof (cases "xs = []")
    case False
    let ?i = "draw rs mod length xs"
    from False have "?i < length xs" by simp
    with mset_split_nth [OF this] 2 [OF False refl] False show ?thesis by (simp add: Let_def)
  qed simp
qed simp

lemma set_random_sample: "set (random_sample rs k xs) \<subseteq> set xs"
  using mset_random_sample [of rs k xs] by (metis mset_subset_eqD set_mset_mset subsetI)

lemma distinct_mset_sub:
  assumes "mset ys \<subseteq># mset xs" and "distinct xs"
  shows "distinct ys"
  using assms
proof (induction ys arbitrary: xs)
  case (Cons y ys)
  then obtain as bs where xs: "xs = as @ y # bs"
    by (metis in_set_conv_decomp list.set_intros(1) mset_subset_eqD set_mset_mset)
  with Cons.prems have "mset ys \<subseteq># mset (as @ bs)" "distinct (as @ bs)" "y \<notin> set (as @ bs)" by simp_all
  with Cons.IH show ?case
    by (metis distinct.simps(2) mset_subset_eqD set_mset_mset)
qed simp

lemma distinct_random_sample: "distinct xs \<Longrightarrow> distinct (random_sample rs k xs)"
  by (rule distinct_mset_sub [OF mset_random_sample])

lemma mset_random_shuffle [simp]: "mset (random_shuffle rs xs) = mset xs"
  using mset_random_sample [of rs "length xs" xs] length_random_sample [of rs "length xs" xs]
  by (metis min.idem mset_subset_size random_shuffle_def size_mset subset_mset.le_imp_less_or_eq less_irrefl)

lemma length_random_shuffle [simp]: "length (random_shuffle rs xs) = length xs"
  by (simp add: random_shuffle_def)

lemma set_random_shuffle [simp]: "set (random_shuffle rs xs) = set xs"
  by (metis mset_random_shuffle set_mset_mset)

lemma distinct_random_shuffle [simp]: "distinct (random_shuffle rs xs) = distinct xs"
  by (metis mset_random_shuffle mset_eq_imp_distinct_iff)

lemma random_sample_complete:
  assumes "mset ys \<subseteq># mset xs"
  shows "\<exists>rs. random_sample rs (length ys) xs = ys"
  using assms
proof (induction ys arbitrary: xs)
  case (Cons y ys)
  then have "y \<in> set xs" by (auto dest: mset_subset_eqD)
  then obtain i where i: "i < length xs" "xs ! i = y" by (auto simp: in_set_conv_nth)
  let ?xs = "take i xs @ drop (Suc i) xs"
  have "mset xs = add_mset y (mset ?xs)" using mset_split_nth [OF i(1)] i(2) by simp
  with Cons.prems have "mset ys \<subseteq># mset ?xs" by simp
  with Cons.IH obtain rs where "random_sample rs (length ys) ?xs = ys" by blast
  with i have "random_sample (i # rs) (length (y # ys)) xs = y # ys"
    by (auto simp: draw_def Let_def)
  then show ?case by blast
qed simp

end
