(* ===== verification/Word_Choice.thy ===== *)
theory Word_Choice
  imports Words_Data Py_Random
begin

text \<open>
  Drawing the words a drawer may choose from: \<open>draw_word_choices\<close>, \<open>draw_word_pack_choices\<close> and
  \<open>select_word\<close> of \<open>backend/game_engine.py\<close>. The draws of the random generator are the argument
  \<open>rng\<close>, one list of numbers per call of a \<open>random\<close> function in the order of the calls.
\<close>

subsection \<open>Definitions\<close>

text \<open>The loop that appends pool words other than the custom choice until there are three.\<close>

fun fill_choices :: "string \<Rightarrow> string list \<Rightarrow> string list \<Rightarrow> string list" where
  "fill_choices custom choices [] = choices"
| "fill_choices custom choices (w # ws) =
     (if py_lower w \<noteq> py_lower custom
      then (if length (choices @ [w]) = 3 then choices @ [w]
            else fill_choices custom (choices @ [w]) ws)
      else fill_choices custom choices ws)"

text \<open>The first half of \<open>draw_word_choices\<close>: refill the pool when fewer than three words are left.\<close>

definition refill_pool :: "rng \<Rightarrow> room \<Rightarrow> room" where
  "refill_pool rng r =
     (let available = filter (\<lambda>w. w \<notin> used_words r) (word_pool r)
      in if length available < 3
         then let unused_from_full = filter (\<lambda>w. w \<notin> used_words r) WORDS;
                  r1 = (if length unused_from_full < 3 then r\<lparr>used_words := {}\<rparr> else r);
                  new_pool = (if length unused_from_full < 3 then WORDS else unused_from_full)
              in r1\<lparr>word_pool := random_shuffle (rng 0) new_pool\<rparr>
         else r)"

definition draw_word_choices :: "rng \<Rightarrow> room \<Rightarrow> (room \<times> string list) res" where
  "draw_word_choices rng r0 =
     (let r = refill_pool rng r0;
          available = filter (\<lambda>w. w \<notin> used_words r) (word_pool r);
          customs = custom_words (config r);
          finish = (\<lambda>choices. (r\<lparr>word_pool := filter (\<lambda>w. w \<notin> set choices) (word_pool r)\<rparr>, choices))
      in if customs \<noteq> []
         then let unused_custom = filter (\<lambda>w. w \<notin> used_words r) customs
              in res_bind (if unused_custom \<noteq> [] then random_choice (rng 1) unused_custom
                           else random_choice (rng 1) customs)
                   (\<lambda>custom_choice. Inr (finish (fill_choices custom_choice [custom_choice] available)))
         else Inr (finish (take 3 available)))"

definition custom_pack :: "string list \<Rightarrow> word_pack" where
  "custom_pack ws =
     \<lparr>theme_id = ''custom'', theme_name = ''Custom Words'', theme_emoji = [10024], pack_words = ws\<rparr>"

text \<open>The words sampled from one list of words: the unused ones when there are enough of them.\<close>

definition sample_words :: "nat list \<Rightarrow> string set \<Rightarrow> nat \<Rightarrow> string list \<Rightarrow> string list" where
  "sample_words rs used k ws =
     (let unused = filter (\<lambda>w. w \<notin> used) ws;
          available = (if length unused < k then ws else unused)
      in random_sample rs (min k (length available)) available)"

fun sample_packs :: "rng \<Rightarrow> nat \<Rightarrow> string set \<Rightarrow> nat \<Rightarrow> word_pack list \<Rightarrow> word_pack list" where
  "sample_packs rng i used k [] = []"
| "sample_packs rng i used k (pack # ps) =
     pack\<lparr>pack_words := sample_words (rng i) used k (pack_words pack)\<rparr> # sample_packs rng (Suc i) used k ps"

definition draw_word_pack_choices :: "rng \<Rightarrow> room \<Rightarrow> nat \<Rightarrow> nat \<Rightarrow> word_pack list \<times> string list" where
  "draw_word_pack_choices rng r num_packs words_per_pack =
     (let customs = custom_words (config r);
          selected_custom =
            (let unused = filter (\<lambda>w. w \<notin> used_words r) customs;
                 available_custom =
                   (if unused = [] \<or> length unused < words_per_pack then customs else unused)
             in random_sample (rng 0) (min words_per_pack (length available_custom)) available_custom);
          custom_packs = (if customs \<noteq> [] then [custom_pack selected_custom] else []);
          remaining_count = num_packs - length custom_packs;
          sampled_packs = random_sample (rng 1) (min remaining_count (length WORD_PACKS)) WORD_PACKS;
          packs_data = custom_packs @ sample_packs rng 2 (used_words r) words_per_pack sampled_packs;
          flat_choices = concat (map (\<lambda>p. take 1 (pack_words p)) packs_data)
      in (packs_data, flat_choices))"

definition select_word :: "room \<Rightarrow> string \<Rightarrow> room" where
  "select_word r w = r\<lparr>used_words := insert w (used_words r)\<rparr>"

subsection \<open>The word list\<close>

lemma set_WORDS: "set WORDS = (\<Union>p \<in> set WORD_PACKS. py_lower ` set (pack_words p))"
  by (auto simp: WORDS_def)

lemma distinct_WORDS: "distinct WORDS"
  by (simp add: WORDS_def)

lemma card_set_ge3: "a \<in> A \<Longrightarrow> b \<in> A \<Longrightarrow> c \<in> A \<Longrightarrow> distinct [a, b, c] \<Longrightarrow> finite A \<Longrightarrow> 3 \<le> card A"
  using card_mono [of A "{a, b, c}"] by simp

lemma WORDS_lower: "w \<in> set WORDS \<Longrightarrow> py_lower w = w"
  by (auto simp: set_WORDS)

lemma pack_word_in_WORDS: "p \<in> set WORD_PACKS \<Longrightarrow> w \<in> set (pack_words p) \<Longrightarrow> py_lower w \<in> set WORDS"
  by (auto simp: set_WORDS)

lemma length_WORDS: "3 \<le> length WORDS"
proof -
  let ?ws = "take 3 (pack_words pack_characters)"
  have "pack_characters \<in> set WORD_PACKS" by (simp add: WORD_PACKS_def)
  then have "set (map py_lower ?ws) \<subseteq> set WORDS"
    by (auto dest!: in_set_takeD pack_word_in_WORDS)
  then have "card (set (map py_lower ?ws)) \<le> card (set WORDS)" by (rule card_mono [rotated]) simp
  moreover have ws: "?ws = [''ninja'', ''pirate'', ''nurse'']" by (simp add: pack_characters_def)
  have "map py_lower ?ws = [''ninja'', ''pirate'', ''nurse'']" unfolding ws by code_simp
  then have "card (set (map py_lower ?ws)) = 3" by simp
  ultimately show ?thesis using card_length [of WORDS] by linarith
qed

subsection \<open>Drawing three words from the pool\<close>

definition pool_ok :: "room \<Rightarrow> bool" where
  "pool_ok r \<longleftrightarrow> distinct (word_pool r) \<and> set (word_pool r) \<subseteq> set WORDS"

lemma refill_pool_facts:
  assumes "pool_ok r"
  shows "pool_ok (refill_pool rng r)"
    and "3 \<le> length (filter (\<lambda>w. w \<notin> used_words (refill_pool rng r)) (word_pool (refill_pool rng r)))"
    and "config (refill_pool rng r) = config r"
proof -
  let ?u = "filter (\<lambda>w. w \<notin> used_words r) WORDS"
  have len: "length (filter P (random_shuffle rs xs)) = length (filter P xs)" for P rs and xs :: "string list"
    by (metis mset_filter mset_random_shuffle size_mset)
  show "pool_ok (refill_pool rng r)"
    using assms distinct_WORDS by (auto simp: pool_ok_def refill_pool_def Let_def)
  show "3 \<le> length (filter (\<lambda>w. w \<notin> used_words (refill_pool rng r)) (word_pool (refill_pool rng r)))"
    using length_WORDS by (auto simp: refill_pool_def Let_def len not_less)
  show "config (refill_pool rng r) = config r"
    by (simp add: refill_pool_def Let_def)
qed

lemma fill_choices_eq:
  "length cs < 3 \<Longrightarrow>
   fill_choices custom cs ws = cs @ take (3 - length cs) (filter (\<lambda>w. py_lower w \<noteq> py_lower custom) ws)"
proof (induction ws arbitrary: cs)
  case (Cons w ws)
  then show ?case
    by (cases "length cs = 2") (auto simp: Suc_diff_Suc [symmetric])
qed simp

lemma filter_neq_length:
  "distinct xs \<Longrightarrow> length xs \<le> Suc (length (filter (\<lambda>x. x \<noteq> a) xs))"
proof (induction xs)
  case (Cons x xs)
  then have "x = a \<Longrightarrow> filter (\<lambda>x. x \<noteq> a) xs = xs" by (auto simp: filter_id_conv)
  with Cons show ?case by auto
qed simp

lemma draw_word_choices_shape:
  assumes "pool_ok r" and "draw_word_choices rng r = Inr (r', cs)"
  shows "length cs = 3 \<and> distinct cs \<and> pool_ok r' \<and> set cs \<inter> set (word_pool r') = {}
    \<and> set (if custom_words (config r) = [] then cs else tl cs) \<inter> used_words r' = {}
    \<and> (custom_words (config r) = [] \<or> hd cs \<in> set (custom_words (config r)))"
proof (cases "custom_words (config r) = []")
  case True
  let ?r = "refill_pool rng r"
  note f = refill_pool_facts [OF assms(1), of rng]
  from assms(2) True f(3) have "cs = take 3 (filter (\<lambda>w. w \<notin> used_words ?r) (word_pool ?r))"
    "r' = ?r\<lparr>word_pool := filter (\<lambda>w. w \<notin> set cs) (word_pool ?r)\<rparr>"
    by (auto simp: draw_word_choices_def Let_def)
  with f True show ?thesis
    by (auto simp: pool_ok_def dest: in_set_takeD intro!: distinct_take)
next
  case False
  let ?r = "refill_pool rng r"
  let ?av = "filter (\<lambda>w. w \<notin> used_words ?r) (word_pool ?r)"
  note f = refill_pool_facts [OF assms(1), of rng]
  from assms(2) False f(3) obtain c where c: "c \<in> set (custom_words (config r))"
    and cs: "cs = fill_choices c [c] ?av"
    and r': "r' = ?r\<lparr>word_pool := filter (\<lambda>w. w \<notin> set cs) (word_pool ?r)\<rparr>"
    by (auto simp: draw_word_choices_def Let_def res_bind_Inr_iff dest!: random_choice_in split: if_splits)
  let ?rest = "filter (\<lambda>w. py_lower w \<noteq> py_lower c) ?av"
  have cs': "cs = c # take 2 ?rest" using cs by (simp add: fill_choices_eq)
  have "?rest = filter (\<lambda>w. w \<noteq> py_lower c) ?av"
    using f(1) WORDS_lower by (intro filter_cong) (auto simp: pool_ok_def)
  moreover have "distinct ?av" using f(1) by (simp add: pool_ok_def)
  ultimately have "2 \<le> length ?rest" using filter_neq_length [of ?av "py_lower c"] f(2) by simp
  moreover have "distinct (take 2 ?rest)" "c \<notin> set (take 2 ?rest)"
    using f(1) by (auto simp: pool_ok_def dest: in_set_takeD intro!: distinct_take)
  ultimately show ?thesis
    using cs' r' c False f(1) by (auto simp: pool_ok_def dest: in_set_takeD)
qed

lemma draw_word_choices_total: "\<exists>r' cs. draw_word_choices rng r = Inr (r', cs)"
proof -
  have "custom_words (config (refill_pool rng r)) \<noteq> [] \<Longrightarrow>
    \<exists>x. random_choice rs (custom_words (config (refill_pool rng r))) = Inr x" for rs
    by (rule random_choice_ex)
  then show ?thesis
    using random_choice_ex [of "filter (\<lambda>w. w \<notin> used_words (refill_pool rng r)) (custom_words (config (refill_pool rng r)))"]
    unfolding draw_word_choices_def Let_def by (smt (verit) res_bind_simps(2))
qed

text \<open>
  Whatever the random draws, \<open>draw_word_choices\<close> never raises: from a pool of distinct listed
  words it offers three different words, removes them from the pool, keeps the pool well formed,
  and offers no word already used in the session, except that a room with custom words gets one of
  its custom words first.
\<close>

theorem draw_word_choices_correct:
  assumes "pool_ok r"
  shows "\<exists>r' cs. draw_word_choices rng r = Inr (r', cs)
    \<and> length cs = 3 \<and> distinct cs \<and> pool_ok r' \<and> set cs \<inter> set (word_pool r') = {}
    \<and> set (if custom_words (config r) = [] then cs else tl cs) \<inter> used_words r' = {}
    \<and> (custom_words (config r) = [] \<or> hd cs \<in> set (custom_words (config r)))"
  using draw_word_choices_total [of rng r] draw_word_choices_shape [OF assms, of rng] by metis

theorem draw_word_choices_correct_witness:
  "\<exists>r' cs. draw_word_choices (\<lambda>_. []) (new_room ''ABCD'' ''h'' default_config) = Inr (r', cs)
    \<and> length cs = 3 \<and> distinct cs \<and> set cs \<inter> set (word_pool r') = {} \<and> set cs \<inter> used_words r' = {}"
proof -
  have "pool_ok (new_room ''ABCD'' ''h'' default_config)" by (simp add: pool_ok_def new_room_def)
  from draw_word_choices_correct [OF this, of "\<lambda>_. []"] show ?thesis
    by (auto simp: new_room_def default_config_def)
qed

subsection \<open>Drawing word packs\<close>

lemma length_pack_words: "p \<in> set WORD_PACKS \<Longrightarrow> 3 \<le> length (pack_words p)"
  by (auto simp: WORD_PACKS_def pack_animals_def pack_food_def pack_objects_def pack_nature_def
      pack_places_def pack_vehicles_def pack_fantasy_def pack_characters_def)

lemma pack_ids:
  "map theme_id WORD_PACKS =
     [''animals'', ''food'', ''objects'', ''nature'', ''places'', ''vehicles'', ''fantasy'', ''characters'']"
  by (simp add: WORD_PACKS_def pack_animals_def pack_food_def pack_objects_def pack_nature_def
      pack_places_def pack_vehicles_def pack_fantasy_def pack_characters_def)

lemma distinct_pack_ids: "distinct (map theme_id WORD_PACKS)" "''custom'' \<notin> set (map theme_id WORD_PACKS)"
  by (simp_all add: pack_ids)

text \<open>The words a pack on offer is drawn from, and what an offer of up to three of them promises.\<close>

definition pack_source :: "room \<Rightarrow> word_pack \<Rightarrow> string list" where
  "pack_source r p =
     (if theme_id p = ''custom'' then custom_words (config r)
      else case List.find (\<lambda>q. theme_id q = theme_id p) WORD_PACKS of None \<Rightarrow> [] | Some q \<Rightarrow> pack_words q)"

definition fair_offer :: "string set \<Rightarrow> string list \<Rightarrow> string list \<Rightarrow> bool" where
  "fair_offer used src ws \<longleftrightarrow>
     length ws = min 3 (length src) \<and> mset ws \<subseteq># mset src
     \<and> (length (filter (\<lambda>w. w \<notin> used) src) < 3 \<or> set ws \<inter> used = {})"

lemma fair_offer_sample: "fair_offer used src (sample_words rs used 3 src)"
proof -
  let ?u = "filter (\<lambda>w. w \<notin> used) src"
  have "mset ?u \<subseteq># mset src" by simp
  then have "mset (random_sample rs 3 ?u) \<subseteq># mset src"
    using mset_random_sample subset_mset.trans by blast
  moreover have "set (random_sample rs 3 ?u) \<subseteq> set ?u" by (rule set_random_sample)
  moreover have "length ?u \<le> length src" by simp
  ultimately show ?thesis
    by (auto simp: fair_offer_def sample_words_def Let_def mset_random_sample min_def not_less
        intro: order_trans [OF _ length_filter_le])
qed

lemma sample_packs_ids: "map theme_id (sample_packs rng i used k ps) = map theme_id ps"
  by (induction rng i used k ps rule: sample_packs.induct) auto

lemma length_sample_packs: "length (sample_packs rng i used k ps) = length ps"
  by (induction rng i used k ps rule: sample_packs.induct) auto

lemma sample_packs_fair:
  assumes "set ps \<subseteq> set WORD_PACKS" and "p \<in> set (sample_packs rng i (used_words r) 3 ps)"
  shows "fair_offer (used_words r) (pack_source r p) (pack_words p) \<and> length (pack_words p) = 3"
  using assms
proof (induction ps arbitrary: i)
  case (Cons q ps)
  show ?case
  proof (cases "p = q\<lparr>pack_words := sample_words (rng i) (used_words r) 3 (pack_words q)\<rparr>")
    case True
    from Cons.prems have q: "q \<in> set WORD_PACKS" by simp
    with distinct_pack_ids(2) have "theme_id q \<noteq> ''custom''" by (metis image_eqI set_map)
    with True have "theme_id p \<noteq> ''custom''" by simp
    moreover have "List.find (\<lambda>q'. theme_id q' = theme_id q) WORD_PACKS = Some q"
      by (rule find_key_distinct [OF distinct_pack_ids(1) q])
    ultimately have "pack_source r p = pack_words q" using True by (simp add: pack_source_def)
    with True fair_offer_sample [of "used_words r" "pack_words q" "rng i"] length_pack_words [OF q]
    show ?thesis by (simp add: fair_offer_def)
  qed (use Cons in auto)
qed simp

lemma concat_take1: "[] \<notin> set (map f xs) \<Longrightarrow> concat (map (\<lambda>x. take 1 (f x)) xs) = map (\<lambda>x. hd (f x)) xs"
proof (induction xs)
  case (Cons x xs)
  then show ?case by (cases "f x") auto
qed simp

lemma draw_word_pack_choices_facts:
  assumes "draw_word_pack_choices rng r 3 3 = (packs, flat)"
  shows "length packs = 3 \<and> distinct (map theme_id packs)
    \<and> (\<forall>p \<in> set packs. pack_words p \<noteq> [] \<and> fair_offer (used_words r) (pack_source r p) (pack_words p))
    \<and> flat = map (\<lambda>p. hd (pack_words p)) packs
    \<and> (''custom'' \<in> set (map theme_id packs) \<longleftrightarrow> custom_words (config r) \<noteq> [])"
proof -
  let ?cw = "custom_words (config r)"
  define cp where "cp = (if ?cw \<noteq> [] then [custom_pack (sample_words (rng 0) (used_words r) 3 ?cw)] else [])"
  define ps where "ps = random_sample (rng 1) (min (3 - length cp) (length WORD_PACKS)) WORD_PACKS"
  have alt: "(if filter Q ws = [] \<or> length (filter Q ws) < 3 then a else b) = (if length (filter Q ws) < 3 then a else b)"
    for Q and ws :: "string list" and a b :: "string list" by auto
  have packs: "packs = cp @ sample_packs rng 2 (used_words r) 3 ps"
    and flat: "flat = concat (map (\<lambda>p. take 1 (pack_words p)) packs)"
    using assms unfolding draw_word_pack_choices_def Let_def alt cp_def ps_def sample_words_def by auto
  have cp3: "length cp \<le> 3" by (simp add: cp_def)
  have ps_sub: "set ps \<subseteq> set WORD_PACKS" by (simp add: ps_def set_random_sample)
  have "length WORD_PACKS = 8" by (simp add: WORD_PACKS_def)
  then have len: "length packs = 3" using cp3 by (simp add: packs length_sample_packs ps_def)
  have "mset (map theme_id ps) \<subseteq># mset (map theme_id WORD_PACKS)"
    using mset_random_sample [of "rng 1" _ WORD_PACKS] by (simp add: ps_def image_mset_subseteq_mono)
  then have dps: "distinct (map theme_id ps)" by (rule distinct_mset_sub) (rule distinct_pack_ids(1))
  have nc: "''custom'' \<notin> set (map theme_id ps)" using ps_sub distinct_pack_ids(2) by auto
  have ids: "map theme_id packs = (if ?cw \<noteq> [] then [''custom''] else []) @ map theme_id ps"
    by (simp add: packs sample_packs_ids cp_def custom_pack_def)
  have fair: "pack_words p \<noteq> [] \<and> fair_offer (used_words r) (pack_source r p) (pack_words p)"
    if "p \<in> set packs" for p
  proof (cases "p \<in> set cp")
    case True
    then have p: "p = custom_pack (sample_words (rng 0) (used_words r) 3 ?cw)" "?cw \<noteq> []"
      by (auto simp: cp_def split: if_splits)
    then have "fair_offer (used_words r) (pack_source r p) (pack_words p)"
      using fair_offer_sample [of "used_words r" ?cw "rng 0"] by (simp add: pack_source_def custom_pack_def)
    moreover have "pack_source r p = ?cw" using p by (simp add: pack_source_def custom_pack_def)
    ultimately show ?thesis using p(2) by (cases ?cw) (auto simp: fair_offer_def)
  next
    case False
    with that have "p \<in> set (sample_packs rng 2 (used_words r) 3 ps)" by (simp add: packs)
    from sample_packs_fair [OF ps_sub this] show ?thesis by auto
  qed
  have "flat = map (\<lambda>p. hd (pack_words p)) packs"
    unfolding flat by (rule concat_take1) (use fair in force)
  with len fair dps nc ids show ?thesis by auto
qed

text \<open>
  Whatever the random draws, the drawer is offered exactly three differently
  identified packs, the custom pack among them exactly when the room has custom words; each pack
  holds up to three entries of its own word list, at most as often as the list holds them, and none
  already used in the session as long as the list still has three unused words; the flat choices
  are the packs' first words.
\<close>

theorem draw_word_pack_choices_correct:
  assumes "draw_word_pack_choices rng r 3 3 = (packs, flat)"
  shows "length packs = 3 \<and> distinct (map theme_id packs)
    \<and> (\<forall>p \<in> set packs. pack_words p \<noteq> [] \<and> fair_offer (used_words r) (pack_source r p) (pack_words p))
    \<and> flat = map (\<lambda>p. hd (pack_words p)) packs
    \<and> (''custom'' \<in> set (map theme_id packs) \<longleftrightarrow> custom_words (config r) \<noteq> [])"
  using assms by (rule draw_word_pack_choices_facts)

definition themed_room :: room where
  "themed_room = new_room ''ABCD'' ''h'' (default_config\<lparr>custom_words := [''kazoo'']\<rparr>)"

lemma themed_room_packs:
  "draw_word_pack_choices (\<lambda>_. []) themed_room 3 3 =
     ([custom_pack [''kazoo''],
       pack_animals\<lparr>pack_words := take 3 (pack_words pack_animals)\<rparr>,
       pack_food\<lparr>pack_words := take 3 (pack_words pack_food)\<rparr>],
      [''kazoo'', hd (pack_words pack_animals), hd (pack_words pack_food)])"
proof -
  have "pack_animals \<in> set WORD_PACKS" "pack_food \<in> set WORD_PACKS" by (simp_all add: WORD_PACKS_def)
  from this [THEN length_pack_words] show ?thesis
    by (simp add: themed_room_def draw_word_pack_choices_def new_room_def default_config_def Let_def
        random_sample_no_draws sample_words_def custom_pack_def WORD_PACKS_def numeral_2_eq_2 take_Suc min_def)
       (auto simp: take_Suc numeral_3_eq_3 numeral_2_eq_2 Suc_le_length_iff)
qed

theorem draw_word_pack_choices_correct_witness:
  "fst (draw_word_pack_choices (\<lambda>_. []) themed_room 3 3) =
      [custom_pack [''kazoo''],
       pack_animals\<lparr>pack_words := take 3 (pack_words pack_animals)\<rparr>,
       pack_food\<lparr>pack_words := take 3 (pack_words pack_food)\<rparr>]
   \<and> distinct [''custom'', theme_id pack_animals, theme_id pack_food]
   \<and> fair_offer {} (pack_words pack_animals) (take 3 (pack_words pack_animals))"
proof -
  have "theme_id pack_animals = ''animals''" by (simp add: pack_animals_def)
  then have "pack_source themed_room (pack_animals\<lparr>pack_words := take 3 (pack_words pack_animals)\<rparr>) = pack_words pack_animals"
    by (simp add: pack_source_def WORD_PACKS_def)
  then show ?thesis
    using draw_word_pack_choices_correct [OF themed_room_packs]
    by (simp add: themed_room_packs custom_pack_def) (simp add: themed_room_def new_room_def)
qed

text \<open>The food pack lists one word twice, so that one offer can hold the same word twice.\<close>

lemma food_pack_repeats_word: "mset [''cookie'', ''cookie''] \<subseteq># mset (pack_words pack_food)"
  by (simp add: pack_food_def)

end
