(* ===== verification/Hints.thy ===== *)
theory Hints
  imports Prelude Py_Random
begin

text \<open>
  The hint shown to the guessers: \<open>generate_initial_hint\<close> and \<open>reveal_hint_char\<close> of
  \<open>backend/game_engine.py\<close>. A hint is a list of characters of the word's length.
\<close>

definition generate_initial_hint :: "string \<Rightarrow> string" where
  "generate_initial_hint w = map (\<lambda>ch. if ch = CHR '' '' then CHR '' '' else CHR ''_'') w"

definition unrevealed :: "string \<Rightarrow> nat list" where
  "unrevealed h = filter (\<lambda>i. h ! i = CHR ''_'') [0..<length h]"

definition reveal_hint_char :: "nat list \<Rightarrow> string \<Rightarrow> string \<Rightarrow> string res" where
  "reveal_hint_char rs h w =
     (if length (unrevealed h) \<le> 1 then Inr h
      else res_bind (random_choice rs (unrevealed h))
             (\<lambda>idx. res_bind (py_nth w idx) (\<lambda>ch. Inr (h[idx := ch]))))"

subsection \<open>What a hint may show\<close>

text \<open>
  A hint of a word masks it: it has the word's length and each position shows a blank, the word's
  own character or a hidden mark; \<open>hidden_count\<close> is the number of hidden marks.
\<close>

definition masks :: "string \<Rightarrow> string \<Rightarrow> bool" where
  "masks h w \<longleftrightarrow> list_all2 (\<lambda>a b. a = b \<or> a = CHR ''_'' \<and> b \<noteq> CHR '' '') h w"

definition hidden_count :: "string \<Rightarrow> nat" where
  "hidden_count h = length (unrevealed h)"

fun reveals :: "nat list list \<Rightarrow> string \<Rightarrow> string \<Rightarrow> string res" where
  "reveals [] h w = Inr h"
| "reveals (rs # rss) h w = res_bind (reveal_hint_char rs h w) (\<lambda>h'. reveals rss h' w)"

lemma masks_length: "masks h w \<Longrightarrow> length h = length w"
  by (simp add: masks_def list_all2_lengthD)

lemma masks_initial: "masks (generate_initial_hint w) w"
  by (auto simp: masks_def generate_initial_hint_def list_all2_conv_all_nth)

lemma set_unrevealed: "set (unrevealed h) = {i. i < length h \<and> h ! i = CHR ''_''}"
  by (auto simp: unrevealed_def)

lemma distinct_unrevealed: "distinct (unrevealed h)"
  by (simp add: unrevealed_def)

lemma hidden_count_card: "hidden_count h = card {i. i < length h \<and> h ! i = CHR ''_''}"
  using distinct_card [OF distinct_unrevealed, of h] by (simp add: hidden_count_def set_unrevealed)

lemma hidden_count_initial:
  "hidden_count (generate_initial_hint w) = length (filter (\<lambda>c. c \<noteq> CHR '' '') w)"
proof -
  have "{i. i < length (generate_initial_hint w) \<and> generate_initial_hint w ! i = CHR ''_''}
      = {i. i < length w \<and> w ! i \<noteq> CHR '' ''}" by (auto simp: generate_initial_hint_def)
  then show ?thesis by (simp add: hidden_count_card length_filter_conv_card)
qed

lemma reveal_hint_char_cases:
  assumes "masks h w"
  obtains (unchanged) "hidden_count h \<le> 1" "reveal_hint_char rs h w = Inr h"
  | (shown) i where "1 < hidden_count h" "i < length h" "h ! i = CHR ''_''"
      "reveal_hint_char rs h w = Inr (h[i := w ! i])"
proof (cases "length (unrevealed h) \<le> 1")
  case True
  then show thesis using unchanged by (simp add: reveal_hint_char_def hidden_count_def)
next
  case False
  then have "unrevealed h \<noteq> []" by auto
  then obtain i where i: "random_choice rs (unrevealed h) = Inr i"
    using random_choice_ex by blast
  then have "i < length h" "h ! i = CHR ''_''"
    using random_choice_in [OF i] by (auto simp: set_unrevealed)
  moreover have "reveal_hint_char rs h w = Inr (h[i := w ! i])"
    using False i masks_length [OF assms] \<open>i < length h\<close> by (simp add: reveal_hint_char_def py_nth_def)
  ultimately show thesis using shown False by (simp add: hidden_count_def)
qed

lemma hidden_count_update:
  assumes "i < length h" "h ! i = CHR ''_''"
  shows "hidden_count h \<le> hidden_count (h[i := c]) + 1"
    and "c \<noteq> CHR ''_'' \<Longrightarrow> hidden_count (h[i := c]) + 1 = hidden_count h"
proof -
  let ?H = "\<lambda>h. {i. i < length h \<and> h ! i = CHR ''_''}"
  have "?H h = insert i (?H h - {i})" using assms by auto
  then have card: "card (?H h) = Suc (card (?H h - {i}))"
    by (metis (no_types, lifting) card_insert_disjoint Diff_iff finite_Diff finite_nat_set_iff_bounded insertI1 mem_Collect_eq)
  have fin: "finite (?H (h[i := c]))" by simp
  have sub: "?H h - {i} \<subseteq> ?H (h[i := c])" by (auto simp: nth_list_update)
  show "hidden_count h \<le> hidden_count (h[i := c]) + 1"
    using card_mono [OF fin sub] card by (simp add: hidden_count_card)
  assume "c \<noteq> CHR ''_''"
  then have "?H (h[i := c]) = ?H h - {i}" using assms by (auto simp: nth_list_update split: if_splits)
  then show "hidden_count (h[i := c]) + 1 = hidden_count h" using card by (simp add: hidden_count_card)
qed

lemma masks_update:
  "masks h w \<Longrightarrow> i < length h \<Longrightarrow> masks (h[i := w ! i]) w"
  by (auto simp: masks_def list_all2_conv_all_nth nth_list_update)

lemma reveal_hint_char_step:
  assumes "masks h w"
  shows "\<exists>h'. reveal_hint_char rs h w = Inr h' \<and> masks h' w \<and> min 1 (hidden_count h) \<le> hidden_count h'"
proof (cases rule: reveal_hint_char_cases [OF assms, of rs, case_names unchanged shown])
  case (shown i)
  then show ?thesis
    using masks_update [OF assms shown(2)] hidden_count_update(1) [OF shown(2,3), of "w ! i"] by auto
qed (use assms in auto)

lemma reveals_masks:
  assumes "masks h w"
  shows "\<exists>h'. reveals rss h w = Inr h' \<and> masks h' w \<and> min 1 (hidden_count h) \<le> hidden_count h'"
  using assms
proof (induction rss arbitrary: h)
  case (Cons rs rss)
  obtain h1 where "reveal_hint_char rs h w = Inr h1" "masks h1 w" "min 1 (hidden_count h) \<le> hidden_count h1"
    using reveal_hint_char_step [OF Cons.prems] by blast
  with Cons.IH [of h1] show ?case by fastforce
qed auto


text \<open>
  C37 (functional). For a word without underscores a reveal with more than one hidden character
  shows exactly one of them, and with at most one it changes nothing.
\<close>

theorem reveal_hint_char_shows_one:
  assumes "masks h w" and "CHR ''_'' \<notin> set w"
  shows "\<exists>h'. reveal_hint_char rs h w = Inr h'
    \<and> hidden_count h' = (if hidden_count h \<le> 1 then hidden_count h else hidden_count h - 1)
    \<and> (if hidden_count h \<le> 1 then h' = h else \<exists>i < length w. h ! i = CHR ''_'' \<and> h' = h[i := w ! i])"
proof (cases rule: reveal_hint_char_cases [OF assms(1), of rs, case_names unchanged shown])
  case (shown i)
  have "w ! i \<noteq> CHR ''_''" using assms shown(2) by (metis masks_length nth_mem)
  from hidden_count_update(2) [OF shown(2,3) this] shown masks_length [OF assms(1)] show ?thesis by auto
qed auto

theorem reveal_hint_char_shows_one_witness:
  "reveal_hint_char [1] ''___ _'' ''ice c'' = Inr ''_c_ _'' \<and> hidden_count ''_c_ _'' = hidden_count ''___ _'' - 1"
proof -
  have "masks ''___ _'' ''ice c''" "CHR ''_'' \<notin> set ''ice c''" by (simp_all add: masks_def)
  note one = reveal_hint_char_shows_one [OF this, of "[1]"]
  have shown: "reveal_hint_char [1] ''___ _'' ''ice c'' = Inr ''_c_ _''" by code_simp
  have "\<not> hidden_count ''___ _'' \<le> 1" by code_simp
  with one shown show ?thesis by (metis Inr_inject)
qed

end
