(* ===== verification/Py_Float.thy ===== *)
theory Py_Float
  imports Prelude "HOL-Library.Log_Nat"
begin

text \<open>
  Python numbers as the scoring code uses them. A Python \<open>float\<close> is an IEEE-754 double; its value
  is the rational number it denotes, and an arithmetic operation computes the exact rational
  result and rounds it to the nearest double, ties to the even significand (\<open>fl64\<close>). The model
  leaves out overflow to infinity, subnormals and NaN: the times (seconds) and scores of the
  program are far inside the normal range. \<open>py_round\<close> is the built-in \<open>round\<close> with one argument
  (ties to the even integer).

  The locale \<open>float_rounding\<close> states what the scoring lemmas need of a rounding mode; \<open>fl64\<close> is
  its interpretation.
\<close>

definition py_round :: "rat \<Rightarrow> int" where
  "py_round x =
     (let f = \<lfloor>x\<rfloor>; d = x - of_int f
      in if d < 1 / 2 then f
         else if 1 / 2 < d then f + 1
         else if even f then f else f + 1)"

definition binary_exponent :: "rat \<Rightarrow> int" where
  "binary_exponent x =
     (let (p, q) = quotient_of x; k = bitlen p - bitlen q
      in if 2 powi k \<le> x then k else k - 1)"

definition fl64 :: "rat \<Rightarrow> rat" where
  "fl64 x =
     (if x = 0 then 0
      else let u = 2 powi (binary_exponent \<bar>x\<bar> - 52)
           in sgn x * (of_int (py_round (\<bar>x\<bar> / u)) * u))"

subsection \<open>Rounding to the nearest integer\<close>

lemma py_round_of_int [simp]: "py_round (of_int n) = n"
  by (simp add: py_round_def)

lemma py_round_numeral [simp]: "py_round (numeral n) = numeral n"
  using py_round_of_int [of "numeral n"] by simp

lemma py_round_mono: "x \<le> y \<Longrightarrow> py_round x \<le> py_round y"
proof -
  assume le: "x \<le> y"
  then have fl: "\<lfloor>x\<rfloor> \<le> \<lfloor>y\<rfloor>" by (rule floor_mono)
  show ?thesis
  proof (cases "\<lfloor>x\<rfloor> = \<lfloor>y\<rfloor>")
    case True
    with le show ?thesis unfolding py_round_def Let_def by auto
  next
    case False
    with fl have "\<lfloor>x\<rfloor> + 1 \<le> \<lfloor>y\<rfloor>" by simp
    moreover have "py_round x \<le> \<lfloor>x\<rfloor> + 1" and "\<lfloor>y\<rfloor> \<le> py_round y"
      unfolding py_round_def Let_def by auto
    ultimately show ?thesis by linarith
  qed
qed

lemma py_round_ge: "of_int n \<le> x \<Longrightarrow> n \<le> py_round x"
  using py_round_mono [of "of_int n" x] by simp

lemma py_round_le: "x \<le> of_int n \<Longrightarrow> py_round x \<le> n"
  using py_round_mono [of x "of_int n"] by simp

subsection \<open>The binary exponent\<close>

lemma pow2_pos [simp]: "(0::rat) < 2 powi k"
  by (simp add: zero_less_power_int)

lemma pow2_mono: "i \<le> j \<Longrightarrow> (2::rat) powi i \<le> 2 powi j"
  by (rule power_int_increasing) auto

lemma bitlen_powi:
  assumes "0 < n"
  shows "2 powi (bitlen n - 1) \<le> (of_int n :: rat) \<and> (of_int n :: rat) < 2 powi (bitlen n)"
proof -
  from assms have b: "2 ^ nat (bitlen n - 1) \<le> n" "n < 2 ^ nat (bitlen n)"
    using bitlen_bounds [of n] by auto
  from assms have "1 \<le> bitlen n" using bitlen_nonneg [of n] bitlen_eq_zero_iff [of n] by linarith
  then have e: "(2::rat) powi (bitlen n - 1) = of_int (2 ^ nat (bitlen n - 1))"
    "(2::rat) powi (bitlen n) = of_int (2 ^ nat (bitlen n))"
    by (simp_all add: power_int_def)
  show ?thesis unfolding e using b by (simp only: of_int_le_iff of_int_less_iff)
qed

lemma binary_exponent_bounds:
  assumes "0 < x"
  shows "2 powi (binary_exponent x) \<le> x \<and> x < 2 powi (binary_exponent x + 1)"
proof -
  obtain p q where pq: "quotient_of x = (p, q)" by (cases "quotient_of x")
  then have x: "x = of_int p / of_int q" and q: "0 < q"
    using quotient_of_div quotient_of_denom_pos by auto
  with assms have p: "0 < p" by (simp add: zero_less_divide_iff)
  note bp = bitlen_powi [OF p] and bq = bitlen_powi [OF q]
  let ?k = "bitlen p - bitlen q"
  have lo: "2 powi (?k - 1) < x"
  proof -
    have "(2::rat) powi (?k - 1) = 2 powi (bitlen p - 1) / 2 powi (bitlen q)"
      by (simp add: power_int_diff)
    also have "\<dots> < of_int p / of_int q"
      using bp bq q by (intro frac_less2) auto
    finally show ?thesis by (simp add: x)
  qed
  have hi: "x < 2 powi (?k + 1)"
  proof -
    have "of_int p / of_int q < (2 powi (bitlen p) / 2 powi (bitlen q - 1) :: rat)"
      using bp bq p by (intro frac_less) auto
    also have "\<dots> = 2 powi (?k + 1)"
      by (simp add: power_int_diff power_int_add)
    finally show ?thesis by (simp add: x)
  qed
  show ?thesis using lo hi by (auto simp: binary_exponent_def pq Let_def)
qed

lemma binary_exponent_mono:
  assumes "0 < x" and "x \<le> y"
  shows "binary_exponent x \<le> binary_exponent y"
proof (rule ccontr)
  assume "\<not> ?thesis"
  then have "binary_exponent y + 1 \<le> binary_exponent x" by simp
  then have "(2::rat) powi (binary_exponent y + 1) \<le> 2 powi (binary_exponent x)" by (rule pow2_mono)
  moreover have "y < 2 powi (binary_exponent y + 1)" "2 powi (binary_exponent x) \<le> x"
    using assms binary_exponent_bounds [of x] binary_exponent_bounds [of y] by auto
  ultimately show False using assms by linarith
qed

subsection \<open>Rounding to a double\<close>

abbreviation ulp :: "rat \<Rightarrow> rat" where
  "ulp x \<equiv> 2 powi (binary_exponent x - 52)"

lemma fl64_pos: "0 < x \<Longrightarrow> fl64 x = of_int (py_round (x / ulp x)) * ulp x"
  by (simp add: fl64_def Let_def)

lemma fl64_0 [simp]: "fl64 0 = 0"
  by (simp add: fl64_def)

lemma fl64_uminus: "fl64 (- x) = - fl64 x"
  by (simp add: fl64_def Let_def sgn_minus)

lemma rat_of_int_mono: "m \<le> n \<Longrightarrow> (of_int m :: rat) \<le> of_int n"
  by (simp only: of_int_le_iff)

lemma significand_bounds:
  assumes "0 < x"
  shows "2 ^ 52 \<le> py_round (x / ulp x) \<and> py_round (x / ulp x) \<le> 2 ^ 53"
proof -
  let ?e = "binary_exponent x"
  have s: "(2::rat) powi ?e = 2 ^ 52 * ulp x" "(2::rat) powi (?e + 1) = 2 ^ 53 * ulp x"
    by (simp_all add: power_int_diff power_int_add)
  have "2 ^ 52 * ulp x \<le> x" and "x \<le> 2 ^ 53 * ulp x"
    using binary_exponent_bounds [OF assms] unfolding s by auto
  then have "of_int (2 ^ 52) \<le> x / ulp x" and "x / ulp x \<le> of_int (2 ^ 53)"
    by (simp_all add: pos_le_divide_eq pos_divide_le_eq)
  then show ?thesis by (meson py_round_ge py_round_le)
qed

lemma fl64_binade:
  assumes "0 < x"
  shows "2 powi (binary_exponent x) \<le> fl64 x \<and> fl64 x \<le> 2 powi (binary_exponent x + 1)"
proof -
  let ?e = "binary_exponent x"
  have s: "(2::rat) powi ?e = 2 ^ 52 * ulp x" "(2::rat) powi (?e + 1) = 2 ^ 53 * ulp x"
    by (simp_all add: power_int_diff power_int_add)
  have "(2 ^ 52 :: rat) \<le> of_int (py_round (x / ulp x))"
    and "of_int (py_round (x / ulp x)) \<le> (2 ^ 53 :: rat)"
    using significand_bounds [OF assms] rat_of_int_mono [of "2 ^ 52"] rat_of_int_mono [of _ "2 ^ 53"]
    by simp_all
  then show ?thesis unfolding s fl64_pos [OF assms] by simp
qed

lemma fl64_mono_pos:
  assumes "0 < x" and "x \<le> y"
  shows "fl64 x \<le> fl64 y"
proof (cases "binary_exponent x = binary_exponent y")
  case True
  from assms have "0 < y" by simp
  have "x / ulp x \<le> y / ulp x" using assms by (simp add: divide_right_mono)
  then have "py_round (x / ulp x) \<le> py_round (y / ulp y)"
    using True by (simp add: py_round_mono)
  with True show ?thesis using assms \<open>0 < y\<close> by (simp add: fl64_pos)
next
  case False
  from assms have y: "0 < y" by simp
  from False binary_exponent_mono [OF assms] have "binary_exponent x + 1 \<le> binary_exponent y" by simp
  then have "(2::rat) powi (binary_exponent x + 1) \<le> 2 powi (binary_exponent y)" by (rule pow2_mono)
  with fl64_binade [OF assms(1)] fl64_binade [OF y] show ?thesis by linarith
qed

lemma fl64_nonneg: "0 \<le> x \<Longrightarrow> 0 \<le> fl64 x"
proof (cases "x = 0")
  case False
  assume "0 \<le> x"
  with False have x: "0 < x" by simp
  have "(0::rat) < 2 powi (binary_exponent x)" by simp
  with fl64_binade [OF x] show ?thesis by linarith
qed simp

lemma fl64_mono: "x \<le> y \<Longrightarrow> fl64 x \<le> fl64 y"
proof -
  assume le: "x \<le> y"
  consider "0 < x" | "x \<le> 0" "0 \<le> y" | "y < 0" by linarith
  then show ?thesis
  proof cases
    case 1
    then show ?thesis using le by (rule fl64_mono_pos)
  next
    case 2
    then have "0 \<le> fl64 (- x)" and "0 \<le> fl64 y" by (auto intro: fl64_nonneg)
    then show ?thesis by (simp add: fl64_uminus)
  next
    case 3
    with le have "fl64 (- y) \<le> fl64 (- x)" by (intro fl64_mono_pos) auto
    then show ?thesis by (simp add: fl64_uminus)
  qed
qed

text \<open>Integers of at most 53 bits are doubles.\<close>

lemma fl64_of_nat:
  assumes "0 < n" and "n \<le> 2 ^ 53"
  shows "fl64 (of_int n) = of_int n"
proof (cases "binary_exponent (of_int n) \<le> 52")
  case True
  let ?e = "binary_exponent (of_int n)"
  have "of_int n / ulp (of_int n) = of_int (n * 2 ^ nat (52 - ?e))"
    using True by (simp add: power_int_def inverse_eq_divide field_simps)
  moreover have "ulp (of_int n) \<noteq> 0" by simp
  ultimately show ?thesis using assms
    by (metis fl64_pos py_round_of_int nonzero_eq_divide_eq of_int_0_less_iff)
next
  case False
  let ?e = "binary_exponent (of_int n)"
  have n: "(of_int n :: rat) \<le> 2 ^ 53"
    using rat_of_int_mono [OF assms(2)] by simp
  from False have "(2::rat) powi 53 \<le> 2 powi ?e" by (intro pow2_mono) simp
  moreover have "2 powi ?e \<le> (of_int n :: rat)" using binary_exponent_bounds [of "of_int n"] assms by simp
  ultimately have eq: "(of_int n :: rat) = 2 ^ 53" and le: "(2::rat) powi ?e \<le> 2 ^ 53" using n by auto
  have "?e = 53"
  proof (rule ccontr)
    assume "?e \<noteq> 53"
    with False have "(2::rat) powi 54 \<le> 2 powi ?e" by (intro pow2_mono) simp
    with le show False by simp
  qed
  then have "(of_int n :: rat) / ulp (of_int n) = of_int (2 ^ 52)" and "ulp (of_int n) = 2"
    by (simp_all add: eq)
  with assms eq show ?thesis by (simp add: fl64_pos)
qed

lemma fl64_of_int: "\<bar>n\<bar> \<le> 2 ^ 53 \<Longrightarrow> fl64 (of_int n) = of_int n"
proof -
  assume b: "\<bar>n\<bar> \<le> 2 ^ 53"
  consider "0 < n" | "n = 0" | "0 < - n" by linarith
  then show ?thesis
  proof cases
    case 3
    with b have "fl64 (of_int (- n)) = of_int (- n)" by (intro fl64_of_nat) auto
    then show ?thesis by (simp add: fl64_uminus)
  qed (use b in \<open>auto intro: fl64_of_nat\<close>)
qed

subsection \<open>What the scoring code relies on\<close>

locale float_rounding =
  fixes fl :: "rat \<Rightarrow> rat"
  assumes fl_mono: "x \<le> y \<Longrightarrow> fl x \<le> fl y"
    and fl_of_int: "\<bar>n\<bar> \<le> 2 ^ 53 \<Longrightarrow> fl (of_int n) = of_int n"
begin

lemma fl_zero: "fl 0 = 0" and fl_one: "fl 1 = 1"
  using fl_of_int [of 0] fl_of_int [of 1] by simp_all

lemma fl_ge: "\<bar>n\<bar> \<le> 2 ^ 53 \<Longrightarrow> of_int n \<le> x \<Longrightarrow> of_int n \<le> fl x"
  using fl_mono [of "of_int n" x] by (simp add: fl_of_int)

lemma fl_le: "\<bar>n\<bar> \<le> 2 ^ 53 \<Longrightarrow> x \<le> of_int n \<Longrightarrow> fl x \<le> of_int n"
  using fl_mono [of x "of_int n"] by (simp add: fl_of_int)

lemma fl_unit: "0 \<le> x \<Longrightarrow> x \<le> 1 \<Longrightarrow> 0 \<le> fl x \<and> fl x \<le> 1"
  using fl_ge [of 0 x] fl_le [of 1 x] by simp

lemma round_fl_ge: "\<bar>n\<bar> \<le> 2 ^ 53 \<Longrightarrow> of_int n \<le> x \<Longrightarrow> n \<le> py_round (fl x)"
  by (rule py_round_ge) (rule fl_ge)

lemma round_fl_le: "\<bar>n\<bar> \<le> 2 ^ 53 \<Longrightarrow> x \<le> of_int n \<Longrightarrow> py_round (fl x) \<le> n"
  by (rule py_round_le) (rule fl_le)

lemma round_fl_mono: "x \<le> y \<Longrightarrow> py_round (fl x) \<le> py_round (fl y)"
  by (intro py_round_mono fl_mono)

end

interpretation dbl: float_rounding fl64
  by unfold_locales (auto intro: fl64_mono fl64_of_int)

end
