(* ===== verification/Scoring.thy ===== *)
theory Scoring
  imports Py_Float
begin

text \<open>
  Scores of \<open>backend/game_engine.py\<close>: \<open>compute_guesser_score\<close> and \<open>compute_drawer_bonus\<close>, in
  double arithmetic. A division by a zero turn duration raises \<open>ZeroDivisionError\<close>. The bound and
  monotonicity lemmas are proved once in the locale \<open>float_rounding\<close> (the score formula over any
  rounding) and reach the code through the interpretation \<open>dbl\<close>.
\<close>

definition position_multiplier :: "nat \<Rightarrow> rat" where
  "position_multiplier position =
     (if position = 1 then fl64 (3 / 2) else if position = 2 then fl64 (6 / 5)
      else if position = 3 then 1 else fl64 (9 / 10))"

definition compute_guesser_score :: "rat \<Rightarrow> rat \<Rightarrow> nat \<Rightarrow> int res" where
  "compute_guesser_score elapsed duration position =
     (if duration = 0 then Inl ZeroDivisionError
      else
        let ratio = min 1 (max 0 (fl64 (elapsed / duration)));
            base_score = py_round (fl64 (500 * fl64 ((fl64 (1 - ratio))\<^sup>2)));
            base_score = max 50 base_score
        in Inr (py_round (fl64 (of_int base_score * position_multiplier position))))"

definition compute_drawer_bonus :: "int list \<Rightarrow> int" where
  "compute_drawer_bonus guesser_scores =
     (if guesser_scores = [] then 0
      else py_round (fl64 (of_int (sum_list guesser_scores) / of_nat (length guesser_scores))))"

subsection \<open>The score formula over any rounding\<close>

context float_rounding
begin

lemma time_score_antimono:
  assumes "0 \<le> r" and "r \<le> r'" and "r' \<le> 1"
  shows "py_round (fl (500 * fl ((fl (1 - r'))\<^sup>2))) \<le> py_round (fl (500 * fl ((fl (1 - r))\<^sup>2)))"
proof (rule round_fl_mono)
  have "0 \<le> fl (1 - r')" using assms fl_unit [of "1 - r'"] by simp
  moreover have "fl (1 - r') \<le> fl (1 - r)" using assms by (intro fl_mono) simp
  ultimately have "(fl (1 - r'))\<^sup>2 \<le> (fl (1 - r))\<^sup>2" by (simp add: power_mono)
  then show "500 * fl ((fl (1 - r'))\<^sup>2) \<le> 500 * fl ((fl (1 - r))\<^sup>2)"
    by (simp add: fl_mono)
qed

lemma time_score_le:
  assumes "0 \<le> r" and "r \<le> 1"
  shows "py_round (fl (500 * fl ((fl (1 - r))\<^sup>2))) \<le> 500"
proof -
  have u: "0 \<le> fl (1 - r) \<and> fl (1 - r) \<le> 1" using assms by (intro fl_unit) auto
  then have "(fl (1 - r))\<^sup>2 \<le> 1" by (simp add: power_le_one)
  then have "fl ((fl (1 - r))\<^sup>2) \<le> 1" using u fl_unit [of "(fl (1 - r))\<^sup>2"] by simp
  then show ?thesis using round_fl_le [of 500 "500 * fl ((fl (1 - r))\<^sup>2)"] by simp
qed

lemma average_bounds:
  assumes "xs \<noteq> []" and "\<And>x. x \<in> set xs \<Longrightarrow> lo \<le> x \<and> x \<le> hi"
    and "\<bar>lo\<bar> \<le> 2 ^ 53" and "\<bar>hi\<bar> \<le> 2 ^ 53"
  shows "lo \<le> py_round (fl (of_int (sum_list xs) / of_nat (length xs))) \<and>
         py_round (fl (of_int (sum_list xs) / of_nat (length xs))) \<le> hi"
proof -
  have s: "int (length xs) * lo \<le> sum_list xs \<and> sum_list xs \<le> int (length xs) * hi"
    using assms(2) by (induction xs) (fastforce simp: algebra_simps)+
  have r: "(of_int (int (length xs) * z) :: rat) = of_int z * of_nat (length xs)" for z
    by simp
  have "(0::rat) < of_nat (length xs)" using assms(1) by simp
  then have "of_int lo \<le> (of_int (sum_list xs) / of_nat (length xs) :: rat)"
    and "(of_int (sum_list xs) / of_nat (length xs) :: rat) \<le> of_int hi"
    using s unfolding r [symmetric] by (simp_all only: pos_le_divide_eq pos_divide_le_eq r [symmetric] of_int_le_iff)
  then show ?thesis using assms(3,4) by (auto intro: round_fl_ge round_fl_le)
qed

end

subsection \<open>Multipliers\<close>

lemma position_multiplier_cases:
  "position_multiplier (Suc 0) = 3 / 2"
  "position_multiplier 2 = 5404319552844595 / 4503599627370496"
  "position_multiplier 3 = 1"
  "4 \<le> p \<or> p = 0 \<Longrightarrow> position_multiplier p = 8106479329266893 / 9007199254740992"
proof -
  have e: "fl64 (3 / 2) = 3 / 2" "fl64 (6 / 5) = 5404319552844595 / 4503599627370496"
    "fl64 (9 / 10) = 8106479329266893 / 9007199254740992"
    by code_simp+
  show "position_multiplier (Suc 0) = 3 / 2"
    "position_multiplier 2 = 5404319552844595 / 4503599627370496" "position_multiplier 3 = 1"
    "4 \<le> p \<or> p = 0 \<Longrightarrow> position_multiplier p = 8106479329266893 / 9007199254740992"
    by (auto simp: position_multiplier_def e)
qed

lemma position_cases:
  obtains "position = (1::nat)" | "position = 2" | "position = 3" | "4 \<le> position \<or> position = 0"
  by linarith

lemma position_multiplier_pos: "0 < position_multiplier p"
  by (cases p rule: position_cases) (auto simp: position_multiplier_cases)

lemma position_multiplier_antimono:
  assumes "1 \<le> p" and "p \<le> q"
  shows "position_multiplier q \<le> position_multiplier p"
  using assms by (cases p rule: position_cases; cases q rule: position_cases)
    (auto simp: position_multiplier_cases)

subsection \<open>Guesser scores\<close>

definition base_score :: "rat \<Rightarrow> rat \<Rightarrow> int" where
  "base_score elapsed duration =
     (let ratio = min 1 (max 0 (fl64 (elapsed / duration)))
      in max 50 (py_round (fl64 (500 * fl64 ((fl64 (1 - ratio))\<^sup>2)))))"

lemma compute_guesser_score_eq:
  "duration \<noteq> 0 \<Longrightarrow> compute_guesser_score elapsed duration position =
     Inr (py_round (fl64 (of_int (base_score elapsed duration) * position_multiplier position)))"
  by (simp add: compute_guesser_score_def base_score_def Let_def)

lemma base_score_bounds: "50 \<le> base_score elapsed duration \<and> base_score elapsed duration \<le> 500"
  using dbl.time_score_le [of "min 1 (max 0 (fl64 (elapsed / duration)))"]
  by (simp add: base_score_def Let_def)

lemma base_score_antimono:
  assumes "0 < duration" and "e \<le> e'"
  shows "base_score e' duration \<le> base_score e duration"
proof -
  have "fl64 (e / duration) \<le> fl64 (e' / duration)"
    using assms by (intro fl64_mono) (simp add: divide_right_mono)
  then have "min 1 (max 0 (fl64 (e / duration))) \<le> min 1 (max 0 (fl64 (e' / duration)))" by auto
  then show ?thesis
    unfolding base_score_def Let_def
    by (intro max.mono order_refl dbl.time_score_antimono) auto
qed

lemma weighted_score_mono:
  assumes "b \<le> b'" and "0 \<le> b" and "m \<le> m'" and "0 \<le> m"
  shows "py_round (fl64 (of_int b * m)) \<le> py_round (fl64 (of_int b' * m'))"
  using assms by (intro dbl.round_fl_mono mult_mono) auto

lemma weighted_extremes:
  "py_round (fl64 (50 * position_multiplier 1)) = 75" "py_round (fl64 (500 * position_multiplier 1)) = 750"
  "py_round (fl64 (50 * position_multiplier 2)) = 60" "py_round (fl64 (500 * position_multiplier 2)) = 600"
  "py_round (fl64 (50 * position_multiplier 3)) = 50" "py_round (fl64 (500 * position_multiplier 3)) = 500"
  "py_round (fl64 (50 * position_multiplier 4)) = 45" "py_round (fl64 (500 * position_multiplier 4)) = 450"
  by code_simp+

lemma position_multiplier_tail: "4 \<le> p \<or> p = 0 \<Longrightarrow> position_multiplier p = position_multiplier 4"
  by (simp add: position_multiplier_cases)

lemma weighted_between:
  assumes "0 \<le> m" and "py_round (fl64 (50 * m)) = lo" and "py_round (fl64 (500 * m)) = hi"
  shows "lo \<le> py_round (fl64 (of_int (base_score e d) * m)) \<and>
         py_round (fl64 (of_int (base_score e d) * m)) \<le> hi"
  using weighted_score_mono [of 50 "base_score e d" m m] weighted_score_mono [of "base_score e d" 500 m m]
    base_score_bounds [of e d] assms by auto

lemma guesser_score_in_range:
  assumes "0 < duration" and "1 \<le> position"
  shows "\<exists>s. compute_guesser_score elapsed duration position = Inr s \<and>
           (if position = 1 then 75 \<le> s \<and> s \<le> 750
            else if position = 2 then 60 \<le> s \<and> s \<le> 600
            else if position = 3 then 50 \<le> s \<and> s \<le> 500
            else 45 \<le> s \<and> s \<le> 450)"
proof -
  note between = weighted_between [OF position_multiplier_pos [THEN less_imp_le], of _ _ _ elapsed duration]
  have d: "duration \<noteq> 0" using assms(1) by simp
  show ?thesis
  proof (cases position rule: position_cases)
    case 1
    with between [OF weighted_extremes(1,2)] show ?thesis by (simp add: compute_guesser_score_eq [OF d])
  next
    case 2
    with between [OF weighted_extremes(3,4)] show ?thesis by (simp add: compute_guesser_score_eq [OF d])
  next
    case 3
    with between [OF weighted_extremes(5,6)] show ?thesis by (simp add: compute_guesser_score_eq [OF d])
  next
    case 4
    with between [OF weighted_extremes(7,8)] assms(2) show ?thesis
      by (simp add: compute_guesser_score_eq [OF d] position_multiplier_tail [OF 4])
  qed
qed

lemma guesser_score_exists:
  assumes "0 < duration" and "1 \<le> position"
  obtains s where "compute_guesser_score elapsed duration position = Inr s" "45 \<le> s" "s \<le> 750"
  using guesser_score_in_range [OF assms, of elapsed] that by (auto split: if_splits)

text \<open>
  C36 (bounds). For every positive turn duration \<open>compute_guesser_score\<close> returns an integer, and the
  score of the guesser at a given position lies in the range its multiplier allows: 75 to 750 for
  the first, 60 to 600 for the second, 50 to 500 for the third, 45 to 450 for every later guesser,
  whatever the elapsed time.
\<close>

theorem compute_guesser_score_range:
  assumes "0 < duration" and "1 \<le> position"
  shows "\<exists>s. compute_guesser_score elapsed duration position = Inr s \<and>
           (if position = 1 then 75 \<le> s \<and> s \<le> 750
            else if position = 2 then 60 \<le> s \<and> s \<le> 600
            else if position = 3 then 50 \<le> s \<and> s \<le> 500
            else 45 \<le> s \<and> s \<le> 450)"
  using assms by (rule guesser_score_in_range)

theorem compute_guesser_score_range_witness:
  "\<exists>s. compute_guesser_score 20 80 1 = Inr s \<and> 75 \<le> s \<and> s \<le> 750"
  using compute_guesser_score_range [of 80 1 20] by simp

text \<open>
  C33 (functional). Guessing earlier never scores less: with the same turn duration, a guess at an
  earlier or equal elapsed time and an earlier or equal position gets at least the later one's
  score.
\<close>

theorem compute_guesser_score_rewards_speed:
  assumes "0 < duration" and "elapsed \<le> elapsed'" and "1 \<le> position" and "position \<le> position'"
    and "compute_guesser_score elapsed duration position = Inr s"
    and "compute_guesser_score elapsed' duration position' = Inr s'"
  shows "s' \<le> s"
proof -
  have "s' = py_round (fl64 (of_int (base_score elapsed' duration) * position_multiplier position'))"
    and "s = py_round (fl64 (of_int (base_score elapsed duration) * position_multiplier position))"
    using assms by (auto simp: compute_guesser_score_eq)
  moreover have "base_score elapsed' duration \<le> base_score elapsed duration"
    using assms by (intro base_score_antimono)
  moreover have "position_multiplier position' \<le> position_multiplier position"
    using assms by (intro position_multiplier_antimono)
  ultimately show ?thesis
    using base_score_bounds [of elapsed' duration] position_multiplier_pos [of position']
    by (auto intro: weighted_score_mono)
qed

theorem compute_guesser_score_rewards_speed_witness:
  "compute_guesser_score 0 80 1 = Inr 750 \<and> compute_guesser_score 40 80 2 = Inr 150 \<and> (150::int) \<le> 750"
proof -
  have a: "compute_guesser_score 0 80 1 = Inr 750" by code_simp
  have b: "compute_guesser_score 40 80 2 = Inr 150" by code_simp
  show ?thesis using a b compute_guesser_score_rewards_speed [OF _ _ _ _ a b] by simp
qed

text \<open>
  The documented minimum of 50 points does not hold: a fourth guesser who answers
  at the end of the turn gets 45, because the position multiplier is applied after the floor of 50.
\<close>

theorem compute_guesser_score_below_50:
  "compute_guesser_score 80 80 4 = Inr 45"
  by code_simp

subsection \<open>Drawer bonus\<close>

lemma drawer_bonus_Nil [simp]: "compute_drawer_bonus [] = 0"
  by (simp add: compute_drawer_bonus_def)

lemma drawer_bonus_between:
  assumes "\<forall>x \<in> set scores. 45 \<le> x \<and> x \<le> 750"
  shows "0 \<le> compute_drawer_bonus scores" "compute_drawer_bonus scores \<le> 750"
  using dbl.average_bounds [of scores 45 750] assms by (cases "scores = []"; simp add: compute_drawer_bonus_def)+

text \<open>
  C34 (bounds). The drawer's bonus is 0 when nobody guessed and otherwise lies between the smallest
  and the largest score awarded in the turn.
\<close>

theorem compute_drawer_bonus_bounds:
  assumes "\<forall>x \<in> set scores. lo \<le> x \<and> x \<le> hi" and "\<bar>lo\<bar> \<le> 2 ^ 53" and "\<bar>hi\<bar> \<le> 2 ^ 53"
  shows "(scores = [] \<longrightarrow> compute_drawer_bonus scores = 0) \<and>
         (scores \<noteq> [] \<longrightarrow> lo \<le> compute_drawer_bonus scores \<and> compute_drawer_bonus scores \<le> hi)"
  using dbl.average_bounds [of scores lo hi] assms by (auto simp: compute_drawer_bonus_def)

theorem compute_drawer_bonus_bounds_witness:
  "45 \<le> compute_drawer_bonus [750, 600, 45] \<and> compute_drawer_bonus [750, 600, 45] \<le> 750"
  using compute_drawer_bonus_bounds [of "[750, 600, 45]" 45 750] by auto

end
