(* ===== verification/Edit_Distance.thy ===== *)
theory Edit_Distance
  imports Prelude
begin

text \<open>
  \<open>_levenshtein_distance\<close> of \<open>backend/game_engine.py\<close>: the two-row table, with the arguments
  swapped so that the shorter string is the table's width. The specification is the usual one: the
  least number of single-character insertions, deletions and substitutions that turn one list into
  the other (\<open>edits\<close>). The intermediate function \<open>ed\<close> is the textbook recursion.
\<close>

subsection \<open>The code\<close>

text \<open>
  The inner loop. \<open>p0 # p1 # ps\<close> is the part of \<open>prev_row\<close> from index \<open>j\<close> on and \<open>left\<close> is
  \<open>curr_row[j]\<close>; each iteration appends one entry to \<open>curr_row\<close>.
\<close>

fun lev_cells :: "'a \<Rightarrow> 'a list \<Rightarrow> nat list \<Rightarrow> nat \<Rightarrow> nat list" where
  "lev_cells c1 (c2 # cs) (p0 # p1 # ps) left =
     (let insertions = p1 + 1;
          deletions = left + 1;
          substitutions = p0 + (if c1 \<noteq> c2 then 1 else 0);
          cell = min insertions (min deletions substitutions)
      in cell # lev_cells c1 cs (p1 # ps) cell)"
| "lev_cells c1 _ _ left = []"

definition lev_row :: "'a list \<Rightarrow> nat \<Rightarrow> 'a \<Rightarrow> nat list \<Rightarrow> nat list" where
  "lev_row s2 i c1 prev_row = (i + 1) # lev_cells c1 s2 prev_row (i + 1)"

fun lev_rows :: "'a list \<Rightarrow> nat \<Rightarrow> 'a list \<Rightarrow> nat list \<Rightarrow> nat list" where
  "lev_rows s2 i [] prev_row = prev_row"
| "lev_rows s2 i (c1 # s1) prev_row = lev_rows s2 (i + 1) s1 (lev_row s2 i c1 prev_row)"

function levenshtein_distance :: "'a list \<Rightarrow> 'a list \<Rightarrow> nat" where
  "levenshtein_distance s1 s2 =
     (if length s1 < length s2 then levenshtein_distance s2 s1
      else if length s2 = 0 then length s1
      else last (lev_rows s2 0 s1 [0..<length s2 + 1]))"
  by pat_completeness auto
termination
  by (relation "measure (\<lambda>(s1, s2). if length s1 < length s2 then 1 else 0)") auto

declare levenshtein_distance.simps [simp del]

subsection \<open>The specification\<close>

inductive edit1 :: "'a list \<Rightarrow> 'a list \<Rightarrow> bool" where
  ins: "edit1 (us @ vs) (us @ c # vs)"
| del: "edit1 (us @ c # vs) (us @ vs)"
| sub: "edit1 (us @ c # vs) (us @ d # vs)"

definition edits :: "nat \<Rightarrow> 'a list \<Rightarrow> 'a list \<Rightarrow> bool" where
  "edits n = (edit1 ^^ n)"

definition edit_distance :: "'a list \<Rightarrow> 'a list \<Rightarrow> nat" where
  "edit_distance xs ys = (LEAST n. edits n xs ys)"

fun ed :: "'a list \<Rightarrow> 'a list \<Rightarrow> nat" where
  "ed [] ys = length ys"
| "ed (x # xs) [] = Suc (length xs)"
| "ed (x # xs) (y # ys) =
     min (ed (x # xs) ys + 1) (min (ed xs (y # ys) + 1) (ed xs ys + (if x \<noteq> y then 1 else 0)))"

lemma ed_Nil2 [simp]: "ed xs [] = length xs"
  by (cases xs) auto

lemma ed_same [simp]: "ed xs xs = 0"
  by (induction xs) auto

subsection \<open>The recursion computes the least number of edits\<close>

lemma edit1_Cons: "edit1 xs ys \<Longrightarrow> edit1 (z # xs) (z # ys)"
  by (induction rule: edit1.induct)
    (metis append_Cons edit1.ins, metis append_Cons edit1.del, metis append_Cons edit1.sub)

lemma edits_Cons: "edits n xs ys \<Longrightarrow> edits n (z # xs) (z # ys)"
  unfolding edits_def by (induction n arbitrary: ys) (auto intro: edit1_Cons relcomppI)

lemma edits_0 [simp]: "edits 0 xs ys \<longleftrightarrow> xs = ys"
  by (simp add: edits_def)

lemma edits_SucI: "edits n xs ys \<Longrightarrow> edit1 ys zs \<Longrightarrow> edits (Suc n) xs zs"
  unfolding edits_def by auto

lemma edits_SucI2: "edit1 xs ys \<Longrightarrow> edits n ys zs \<Longrightarrow> edits (Suc n) xs zs"
  unfolding edits_def by (rule relpowp_Suc_I2)

lemma edits_ins: "edits n xs ys \<Longrightarrow> edits (Suc n) xs (y # ys)"
  using edit1.ins [of "[]" ys y] by (auto intro: edits_SucI)

lemma edits_del: "edits n xs ys \<Longrightarrow> edits (Suc n) (x # xs) ys"
  using edit1.del [of "[]" x xs] by (auto intro: edits_SucI2)

lemma edits_sub: "edits n xs ys \<Longrightarrow> edits (Suc n) (x # xs) (y # ys)"
  using edit1.sub [of "[]" x xs y] by (auto intro: edits_SucI2 edits_Cons)

lemma edits_ed: "edits (ed xs ys) xs ys"
proof (induction xs ys rule: ed.induct)
  case (1 ys)
  then show ?case by (induction ys) (auto intro: edits_ins)
next
  case (2 x xs)
  have "edits (length zs) zs []" for zs :: "'a list"
    by (induction zs) (auto intro: edits_del)
  from this [of "x # xs"] show ?case by simp
next
  case (3 x xs y ys)
  have "ed (x # xs) (y # ys) \<in>
      {Suc (ed (x # xs) ys), Suc (ed xs (y # ys)), ed xs ys + (if x \<noteq> y then 1 else 0)}"
    by (simp add: min_def)
  then consider "ed (x # xs) (y # ys) = Suc (ed (x # xs) ys)" | "ed (x # xs) (y # ys) = Suc (ed xs (y # ys))"
    | "x \<noteq> y" "ed (x # xs) (y # ys) = Suc (ed xs ys)" | "x = y" "ed (x # xs) (y # ys) = ed xs ys"
    by (cases "x = y") (auto simp del: ed.simps)
  then show ?case
    by cases (use 3 in \<open>auto simp del: ed.simps intro: edits_ins edits_del edits_sub edits_Cons\<close>)
qed

lemma ed_right_le: "ed xs (y # ys) \<le> ed xs ys + 1"
  by (cases xs) auto

lemma ed_left_le: "ed (x # xs) ys \<le> ed xs ys + 1"
  by (cases ys) auto

lemma ed_diag_le: "ed (x # xs) (y # ys) \<le> ed xs ys + 1"
  by (simp add: min_le_iff_disj)

lemma ed_tail_le: "ed xs ys \<le> ed (x # xs) ys + 1"
proof (induction ys)
  case (Cons y ys)
  with ed_right_le [of xs y ys] show ?case by simp
qed simp

lemma ed_head_le: "ed (x # xs) ys \<le> ed (z # xs) ys + 1"
proof (induction ys)
  case (Cons y ys)
  with ed_right_le [of "x # xs" y ys] ed_left_le [of x xs "y # ys"] ed_diag_le [of x xs y ys]
  show ?case by (simp del: ed.simps add: ed.simps(3) [of z])
qed simp

lemma ed_context_le:
  assumes "\<And>ys. ed as ys \<le> ed bs ys + 1"
  shows "ed (us @ as) ys \<le> ed (us @ bs) ys + 1"
proof (induction us arbitrary: ys)
  case (Cons u us)
  note IHu = Cons
  show ?case
  proof (induction ys)
    case Nil
    then show ?case using IHu [of "[]"] by simp
  next
    case (Cons y ys)
    then show ?case using IHu [of ys] IHu [of "y # ys"] by simp
  qed
qed (use assms in simp)

lemma ed_edit1:
  assumes "edit1 xs xs'"
  shows "ed xs ys \<le> ed xs' ys + 1"
  using assms
  by (cases rule: edit1.cases)
    (auto simp del: ed.simps intro!: ed_context_le [simplified]
      intro: ed_tail_le [simplified] ed_left_le [simplified] ed_head_le [simplified])

lemma ed_le_edits: "edits n xs ys \<Longrightarrow> ed xs ys \<le> n"
proof (induction n arbitrary: xs)
  case (Suc n)
  then obtain zs where "edit1 xs zs" and "edits n zs ys"
    unfolding edits_def by (meson relpowp_Suc_E2)
  with Suc.IH [of zs] ed_edit1 [of xs zs ys] show ?case by simp
qed simp

lemma ed_edit_distance: "ed xs ys = edit_distance xs ys"
  unfolding edit_distance_def
  by (rule Least_equality [symmetric]) (auto intro: edits_ed ed_le_edits)

lemma edit1_rev: "edit1 xs ys \<Longrightarrow> edit1 (rev xs) (rev ys)"
  by (induction rule: edit1.induct) (auto intro: edit1.intros)

lemma edit1_sym: "edit1 xs ys \<Longrightarrow> edit1 ys xs"
  by (induction rule: edit1.induct) (auto intro: edit1.intros)

lemma edits_rev: "edits n xs ys \<Longrightarrow> edits n (rev xs) (rev ys)"
proof (induction n arbitrary: ys)
  case (Suc n)
  then obtain zs where "edits n xs zs" and "edit1 zs ys" unfolding edits_def by auto
  with Suc.IH show ?case by (auto intro: edits_SucI edit1_rev)
qed simp

lemma edits_sym: "edits n xs ys \<Longrightarrow> edits n ys xs"
proof (induction n arbitrary: ys)
  case (Suc n)
  then obtain zs where "edits n xs zs" and "edit1 zs ys" unfolding edits_def by auto
  with Suc.IH show ?case by (auto intro: edits_SucI2 edit1_sym)
qed simp

lemma edits_trans: "edits m xs ys \<Longrightarrow> edits n ys zs \<Longrightarrow> edits (m + n) xs zs"
  unfolding edits_def by (auto simp: relpowp_add)

lemma ed_rev: "ed (rev xs) (rev ys) = ed xs ys"
  using ed_le_edits [OF edits_rev [OF edits_ed [of xs ys]]]
    ed_le_edits [OF edits_rev [OF edits_ed [of "rev xs" "rev ys"]]] by simp

lemma ed_sym: "ed xs ys = ed ys xs"
  using ed_le_edits [OF edits_sym [OF edits_ed [of xs ys]]]
    ed_le_edits [OF edits_sym [OF edits_ed [of ys xs]]] by simp

subsection \<open>The table computes the recursion\<close>

text \<open>\<open>row us vs cs\<close>: the distances from \<open>us\<close> to \<open>vs\<close> extended by each prefix of \<open>cs\<close>, all reversed.\<close>

fun row :: "'a list \<Rightarrow> 'a list \<Rightarrow> 'a list \<Rightarrow> nat list" where
  "row us vs [] = [ed us vs]"
| "row us vs (c # cs) = ed us vs # row us (c # vs) cs"

lemma row_nonempty [simp]: "row us vs cs \<noteq> []"
  by (cases cs) auto

lemma row_hd: "row us vs cs = ed us vs # tl (row us vs cs)"
  by (cases cs) auto

lemma last_row: "last (row us vs cs) = ed us (rev cs @ vs)"
  by (induction cs arbitrary: vs) auto

lemma row_Nil: "row [] vs cs = [length vs ..< length vs + length cs + 1]"
proof (induction cs arbitrary: vs)
  case (Cons c cs)
  from Cons [of "c # vs"] show ?case
    using upt_conv_Cons [of "length vs" "length vs + length (c # cs) + 1"] by (simp del: upt_Suc)
qed simp

lemma lev_cells_row: "lev_cells c cs (row us vs cs) (ed (c # us) vs) = tl (row (c # us) vs cs)"
proof (induction cs arbitrary: vs)
  case (Cons d cs)
  obtain ps where ps: "row us (d # vs) cs = ed us (d # vs) # ps"
    using row_hd [of us "d # vs" cs] by blast
  have cell: "min (ed us (d # vs) + 1) (min (ed (c # us) vs + 1) (ed us vs + (if c \<noteq> d then 1 else 0)))
      = ed (c # us) (d # vs)"
    by (simp add: min.left_commute)
  have "lev_cells c (d # cs) (row us vs (d # cs)) (ed (c # us) vs)
      = ed (c # us) (d # vs) # lev_cells c cs (row us (d # vs) cs) (ed (c # us) (d # vs))"
    unfolding row.simps ps lev_cells.simps Let_def cell by simp
  also have "\<dots> = row (c # us) (d # vs) cs"
    using Cons [of "d # vs"] row_hd [of "c # us" "d # vs" cs] by (simp del: ed.simps)
  finally show ?case by simp
qed simp

lemma lev_row_row: "lev_row s2 (length us) c (row us [] s2) = row (c # us) [] s2"
  using lev_cells_row [of c s2 us "[]"] row_hd [of "c # us" "[]" s2] by (simp add: lev_row_def)

lemma lev_rows_row: "lev_rows s2 (length us) s1 (row us [] s2) = row (rev s1 @ us) [] s2"
proof (induction s1 arbitrary: us)
  case (Cons c s1)
  from Cons [of "c # us"] show ?case by (simp add: lev_row_row)
qed simp

lemma levenshtein_distance_ed: "levenshtein_distance s1 s2 = ed s1 s2"
proof (induction s1 s2 rule: levenshtein_distance.induct)
  case (1 s1 s2)
  have "last (lev_rows s2 0 s1 [0..<length s2 + 1]) = ed (rev s1) (rev s2)"
    using lev_rows_row [of s2 "[]" s1] row_Nil [of "[]" s2] last_row [of "rev s1" "[]" s2] by simp
  with 1 show ?case
    by (subst levenshtein_distance.simps) (auto simp: ed_rev ed_sym [of s2 s1])
qed

text \<open>
  C27 (equivalence). The two-row dynamic program \<open>_levenshtein_distance\<close>, with its swap of the
  arguments and its early exit on an empty string, returns the least number of single-character
  insertions, deletions and substitutions that turn the first string into the second.
\<close>

theorem levenshtein_distance_is_edit_distance:
  "levenshtein_distance s1 s2 = edit_distance s1 s2"
  by (simp add: levenshtein_distance_ed ed_edit_distance)

text \<open>
  C36 (functional). The computed distance is a metric: zero exactly on equal strings, symmetric,
  and it satisfies the triangle inequality.
\<close>

theorem levenshtein_distance_metric:
  "(levenshtein_distance s1 s2 = 0 \<longleftrightarrow> s1 = s2) \<and>
   levenshtein_distance s1 s2 = levenshtein_distance s2 s1 \<and>
   levenshtein_distance s1 s3 \<le> levenshtein_distance s1 s2 + levenshtein_distance s2 s3"
proof -
  have "ed s1 s2 = 0 \<longleftrightarrow> s1 = s2" using edits_ed [of s1 s2] by auto
  moreover have "ed s1 s3 \<le> ed s1 s2 + ed s2 s3"
    by (rule ed_le_edits [OF edits_trans [OF edits_ed edits_ed]])
  ultimately show ?thesis by (simp add: levenshtein_distance_ed ed_sym [of s2 s1])
qed

end
