(* ===== verification/Chat_Filter.thy ===== *)
theory Chat_Filter
  imports Py_Text
begin

text \<open>
  Chat text of \<open>backend/game_engine.py\<close>: \<open>filter_profanity\<close> and the sanitising pipeline
  \<open>re.sub(re.escape(word), "***", text)\<close> followed by \<open>filter_profanity\<close>, which \<open>handle_chat\<close> and
  the spectator branch of \<open>handle_guess\<close> apply before a message is broadcast.
\<close>

definition PROFANITY_WORDS :: "string list" where
  "PROFANITY_WORDS =
     [''fuck'', ''shit'', ''bitch'', ''asshole'', ''cunt'', ''dick'', ''pussy'', ''bastard'',
      ''nigger'', ''faggot'', ''slut'', ''whore'']"

definition clean_word :: "string \<Rightarrow> string" where
  "clean_word word = filter is_alnum (py_lower word)"

definition censor_word :: "string \<Rightarrow> string" where
  "censor_word word =
     (if clean_word word \<in> set PROFANITY_WORDS then replicate (length word) CHR ''*'' else word)"

definition filter_profanity :: "string \<Rightarrow> string" where
  "filter_profanity text =
     (if text = [] then text else py_join '' '' (map censor_word (py_split text)))"

definition sanitize_chat :: "string \<Rightarrow> string \<Rightarrow> string" where
  "sanitize_chat word text = filter_profanity (re_sub_word word text)"

subsection \<open>Profanity\<close>

lemma clean_stars [simp]: "clean_word (replicate n CHR ''*'') = []"
  by (simp add: clean_word_def)

lemma Nil_not_profane [simp]: "[] \<notin> set PROFANITY_WORDS"
  by (simp add: PROFANITY_WORDS_def)

lemma censor_word_token: "is_token w \<Longrightarrow> is_token (censor_word w)"
  by (auto simp: is_token_def censor_word_def)

lemma length_censor_word [simp]: "length (censor_word w) = length w"
  by (simp add: censor_word_def)

lemma censor_word_clean: "clean_word (censor_word w) \<notin> set PROFANITY_WORDS"
  by (simp add: censor_word_def)

lemma censor_word_idem [simp]: "censor_word (censor_word w) = censor_word w"
  by (simp add: censor_word_def)

lemma filter_profanity_Nil [simp]: "filter_profanity [] = []"
  by (simp add: filter_profanity_def)

lemma split_filter_profanity: "py_split (filter_profanity text) = map censor_word (py_split text)"
  by (cases "text = []")
    (auto simp: filter_profanity_def intro!: py_split_join censor_word_token dest: py_split_tokens)

text \<open>
  C37 (safety). No word of a filtered message is a listed profanity, in any letter case and with
  any punctuation inside it; filtering keeps the number of words and the length of each, and
  filtering a filtered message changes nothing.
\<close>

theorem filter_profanity_correct:
  "(\<forall>w \<in> set (py_split (filter_profanity text)). clean_word w \<notin> set PROFANITY_WORDS) \<and>
   map length (py_split (filter_profanity text)) = map length (py_split text) \<and>
   filter_profanity (filter_profanity text) = filter_profanity text"
proof -
  have "filter_profanity (filter_profanity text) = filter_profanity text"
  proof (cases "text = []")
    case False
    have unf: "filter_profanity u = py_join '' '' (map censor_word (py_split u))" for u
      by (simp add: filter_profanity_def)
    show ?thesis
      unfolding unf [of "filter_profanity text"] split_filter_profanity by (simp add: unf comp_def)
  qed simp
  then show ?thesis by (auto simp: split_filter_profanity censor_word_clean comp_def)
qed

theorem filter_profanity_correct_witness:
  "filter_profanity ''oh S.h.i.t  man'' = ''oh ******* man'' \<and>
   filter_profanity (filter_profanity ''oh S.h.i.t  man'') = filter_profanity ''oh S.h.i.t  man''"
proof
  show "filter_profanity ''oh S.h.i.t  man'' = ''oh ******* man''" by code_simp
qed (use filter_profanity_correct [of "''oh S.h.i.t  man''"] in blast)

subsection \<open>The secret word in chat\<close>

lemma censored_occurrence:
  assumes "sublist u (py_lower (filter_profanity text))"
    and "u \<noteq> []" and "CHR '' '' \<notin> set u" and "CHR ''*'' \<notin> set u"
  shows "sublist u (py_lower text)"
proof (cases "text = []")
  case False
  then have "sublist u (py_join '' '' (map py_lower (map censor_word (py_split text))))"
    using assms(1) by (simp add: filter_profanity_def py_lower_join)
  then obtain w where w: "w \<in> set (py_split text)" and u: "sublist u (py_lower (censor_word w))"
    using sublist_join assms(2,3) by fastforce
  have "set u \<subseteq> set (py_lower (censor_word w))" using u by (rule set_mono_sublist)
  then have "censor_word w = w"
    using assms(2,4) by (auto simp: censor_word_def neq_Nil_conv split: if_splits)
  with w u show ?thesis
    using py_split_tokens [OF w] by (metis sublist_py_lower sublist_order.order_trans)
qed (use assms in simp)

text \<open>
  Sanitised chat never contains a secret word of one token: for a non-empty word without white
  space and without an asterisk, in no letter case does the word occur in the text that is
  broadcast, whatever the drawer or spectator typed.
\<close>

lemma sanitize_chat_hides_word:
  assumes "word \<noteq> []" and "\<forall>c \<in> set word. \<not> is_space c \<and> c \<noteq> CHR ''*''"
  shows "\<not> sublist (py_lower word) (py_lower (sanitize_chat word text))"
proof
  assume occ: "sublist (py_lower word) (py_lower (sanitize_chat word text))"
  have star: "CHR ''*'' \<notin> set word" using assms(2) by auto
  have "\<forall>c \<in> set (py_lower word). \<not> is_space c" using assms(2) by (simp add: spaces_in_lower)
  then have blank: "CHR '' '' \<notin> set (py_lower word)" using is_space_blank by blast
  have "sublist (py_lower word) (py_lower (re_sub_word word text))"
    using censored_occurrence [OF occ [unfolded sanitize_chat_def] _ blank] assms(1) star by simp
  with re_sub_word_removes [OF assms(1) star] show False by blast
qed

text \<open>
  A secret word of two words can be leaked: the pattern does not match when the
  drawer types two blanks between its parts, and the profanity filter then joins the parts with a
  single blank, so that the broadcast text is the secret word itself.
\<close>

theorem sanitize_chat_leaks_two_words:
  "re_sub_word ''magic wand'' ''magic  wand'' = ''magic  wand'' \<and>
   sanitize_chat ''magic wand'' ''magic  wand'' = ''magic wand''"
  by code_simp

end
