(* ===== verification/Messages.thy ===== *)
theory Messages
  imports Models Py_Random
begin

text \<open>
  The messages the server sends, a handler's outputs and what it reads from its environment.

  A message is the \<open>type\<close> of the JSON object with its payload fields. The English wording of error
  payloads and of system announcements is not modelled: an error is its \<open>code\<close>, an announcement
  the constructor that names its template with the names and numbers put into it.

  A handler's outputs are the calls it makes, in order: \<open>send_text\<close> on a socket or transport,
  \<open>send_room\<close> on a transport, and the calls into \<open>redis_pubsub\<close>. The environment of a handler holds
  the value of \<open>time.time()\<close>, the draws of \<open>random\<close>, the results of \<open>uuid4\<close> in call order, and the
  two flags read from \<open>redis_pubsub\<close>. Handlers run without interleaving: the sends of a virtual
  transport never suspend.
\<close>

subsection \<open>Payloads\<close>

text \<open>JSON values, where the code passes on or inspects what a client sent.\<close>

datatype json = JNull | JBool bool | JInt int | JFloat rat | JStr string | JList "json list"
  | JObject "(string \<times> json) list"

record player_view =
  v_id :: string
  v_name :: string
  v_score :: int
  v_has_guessed :: bool
  v_is_connected :: bool
  v_is_ready :: bool
  v_is_spectator :: bool
  v_is_host :: bool
  v_avatar :: "string option"
  v_session_wins :: "int option"
  v_session_score :: "int option"

record config_view =
  c_num_rounds :: int
  c_turn_duration :: int
  c_max_players :: int
  c_custom_words :: "string list"
  c_is_private :: bool

record joined_payload =
  j_room_code :: string
  j_player_id :: string
  j_players :: "player_view list"
  j_config :: config_view
  j_state :: room_state
  j_is_spectator :: bool
  j_current_round :: int
  j_total_rounds :: int
  j_host_id :: string
  j_drawer_id :: "string option"
  j_hint :: string
  j_duration :: "int option"
  j_theme :: "theme_info option"

record reconnected_payload =
  r_room_code :: string
  r_player_id :: string
  r_score :: int
  r_is_host :: bool
  r_players :: "player_view list"
  r_config :: config_view
  r_state :: room_state
  r_current_round :: int
  r_host_id :: string
  r_drawer_id :: "string option"
  r_hint :: string

datatype award = SpeedDemon string string rat | MasterArtist string string int
  | StreakKing string string int | Sharpshooter string string int
  \<comment> \<open>player id, player name and the number shown in \<open>detail\<close>\<close>

record final_score =
  fs_id :: string
  fs_name :: string
  fs_score :: int

record session_stat =
  ss_id :: string
  ss_name :: string
  ss_score :: int
  ss_wins :: int
  ss_games :: int

record game_over_payload =
  final_scores :: "final_score list"
  mvp_awards :: "award list"
  session_stats :: "session_stat list"

datatype error_code =
    WORKER_DRAINING | INVALID_NAME | ROOM_NOT_FOUND | PASSWORD_REQUIRED | INVALID_PASSWORD
  | ROOM_FULL | HOST_UNAVAILABLE | REQUEST_NOT_FOUND | PERMISSION_DENIED | PLAYER_NOT_FOUND
  | ALREADY_PLAYER | MAX_REQUESTS_EXCEEDED | REQUEST_ALREADY_PENDING | RECONNECT_FAILED
  | ROOM_IN_PROGRESS | GAME_NOT_ACTIVE | INVALID_SETTINGS | INVALID_ACTION | PLAYER_DISCONNECTED
  | INVALID_TARGET | VOTE_ALREADY_ACTIVE | NOT_ENOUGH_PLAYERS | COOLDOWN_ACTIVE | NO_ACTIVE_VOTE
  | INVALID_VOTER | DUPLICATE_NAME | INSUFFICIENT_PLAYERS | UNKNOWN_MESSAGE | INTERNAL_ERROR
  | MESSAGE_TOO_LARGE | INVALID_MESSAGE | INVALID_PAYLOAD

datatype announcement =
    JoinedAsSpectator string | JoinedTheGame string | JoinedAsActivePlayer string | NowRoomHost string
  | VoteStarted string string nat nat | KickedByVote string | VoteFailed string

datatype request_status = Timeout | Cancelled | Declined | AcceptedSpectator | AcceptedPlayer | Accepted | Expired

datatype vote_result = VotePassed | VoteTimedOut | TargetDisconnected | NotEnoughVoters

datatype kick_cause = KickedByHost | KickedByMajority

subsection \<open>Messages\<close>

datatype (plugins only: code) message =
    Error error_code
  | RoomCreated string string "player_view list" config_view
  | RoomJoined joined_payload
  | Reconnected reconnected_payload
  | PlayerList "player_view list"
  | PlayerReconnected string string
  | ReconnectResumed
  | WaitingForReconnect nat
  | GameEndedInsufficientPlayers
  | HostChanged string string "(string \<times> string) option"
  | HostTransferred string string
  | JoinRequestReceived string string "string option" string
  | JoinRequestPending string string
  | JoinRequestDeclined string request_status
  | JoinRequestResolved string request_status "string option" "string option"
      \<comment> \<open>request, status, \<open>player_name\<close> and \<open>player_id\<close> where the payload has them\<close>
  | SpectatorRoleRequestReceived string string string "string option" string
  | SpectatorRoleRequestDeclined string request_status int
  | SpectatorRoleRequestResolved "string option" request_status "string option"
  | BecomePlayerRequestPending string int
  | SettingsUpdated config_view
  | RematchStarted "player_view list" config_view
  | Kicked kick_cause
  | PlayerKicked string
  | LeftRoom
  | ReadyToggled bool
  | ProfileUpdated string string "string option"
  | GameStarted string int int
  | VoteKickStarted string string string string nat nat nat
  | VoteKickStartedReply string "(nat \<times> nat) option"
  | VoteKickUpdated string nat nat
  | VoteKickUpdatedReply "(nat \<times> nat) option"
  | VoteKickEnded string string vote_result
  | Announce announcement
  | ChatMessage string string bool
  | WordChoices "string list" "word_pack list"
  | DrawerSelecting string string
  | TurnStarted string string int int "theme_info option"
  | WordAssigned string
  | ClearCanvas
  | HintUpdate string
  | GuessCorrect string
  | TurnEnded string "(string \<times> int) list" turn_end_reason
  | GameOver game_over_payload
  | WorkerDraining string
  | Stroke json
  | Fill json
  | Highlighter json
  | Shape json
  | Undo json
  | Reaction string string
  | Typing string string bool

text \<open>\<open>LOSSY_BROADCAST_TYPES\<close>; the type \<open>cursor\<close> is never broadcast by the server.\<close>

definition is_lossy :: "message \<Rightarrow> bool" where
  "is_lossy msg = (case msg of Stroke _ \<Rightarrow> True | Fill _ \<Rightarrow> True | ClearCanvas \<Rightarrow> True | _ \<Rightarrow> False)"

subsection \<open>Messages of a client\<close>

text \<open>
  The messages of an identified player, with the payload fields the handlers read; a field that is
  absent has the default the handler supplies.
\<close>

datatype (plugins only: code) client_msg =
    CmUpdateSettings "(string \<times> json) list"
  | CmStartGame
  | CmSelectWord string
  | CmGuess string
  | CmChat string
  | CmStroke json
  | CmHighlighter json
  | CmShape json
  | CmFill json
  | CmClearCanvas
  | CmUndo json
  | CmKickPlayer string
  | CmVoteKick string
  | CmVoteKickCast bool
  | CmTransferHost string
  | CmRespondJoinRequest string string
  | CmRequestBecomePlayer
  | CmRespondSpectatorRole string string
  | CmCancelSpectatorRole "string option"
  | CmLeaveRoom bool \<comment> \<open>whether the payload's \<open>reason\<close> is \<open>disconnect\<close>\<close>
  | CmClientDisconnected
  | CmReaction string
  | CmTyping bool
  | CmToggleReady
  | CmUpdateProfile "string option" "string option"
  | CmRematch
  | CmEndGameNow
  | CmUnknown string

subsection \<open>Snapshots and remote calls\<close>

record player_snapshot =
  ps_id :: string
  ps_name :: string
  ps_score :: int
  ps_has_guessed :: bool
  ps_is_connected :: bool
  ps_is_ready :: bool
  ps_avatar :: "string option"
  ps_disconnect_time :: "rat option"

record turn_snapshot =
  ts_drawer_id :: string
  ts_word :: string
  ts_hint :: string
  ts_start_time :: rat
  ts_word_choices :: "string list"
  ts_guess_order :: "string list"

record room_snapshot =
  sn_code :: string
  sn_host_id :: string
  sn_state :: room_state
  sn_current_round :: int
  sn_drawer_index :: nat
  sn_config :: config_view
  sn_password :: "string option"
  sn_used_words :: "string set"
  sn_word_pool :: "string list"
  sn_players :: "player_snapshot list"
  sn_turn :: "turn_snapshot option"
  sn_time :: rat

record join_rpc =
  jrpc_request_id :: string
  jrpc_room_code :: string
  jrpc_player_id :: string
  jrpc_player_name :: string
  jrpc_avatar :: "string option"
  jrpc_as_spectator :: bool
  jrpc_password :: "string option"

datatype rpc = RpcJoinRoom join_rpc | RpcForwardMessage string string client_msg | RpcPlayerDisconnected string string

subsection \<open>Outputs and environment\<close>

datatype out =
    SendText websocket bool message \<comment> \<open>socket, \<open>lossy\<close>, message\<close>
  | SendRoom websocket string bool message \<comment> \<open>transport, room code, \<open>lossy\<close>, message\<close>
  | PublishToRoom string message
  | SetRoomInfo string room_state nat config_view string
  | RegisterRoomWithTtl string
  | RegisterRoomWorker string
  | SubscribeRoom string
  | UnsubscribeRoom string
  | UnregisterRoomWithTtl string
  | RemoveRoomWorker string
  | RemoveRoomInfo string
  | ReportWorkerLoad nat nat
  | SaveRoomSnapshot string room_snapshot
  | DeleteRoomSnapshot string
  | PublishRpc string rpc \<comment> \<open>to a worker\<close>
  | SetRpcResponse string message
  | CloseSocket websocket
  | PutError nat string string error_code \<comment> \<open>an error frame put on a stream's queue: room code, player id\<close>

record env =
  now :: rat
  draws :: rng
  redis_enabled :: bool
  worker_draining :: bool
  uuid :: "nat \<Rightarrow> string"

text \<open>The environment of a second sequence of draws within one handler.\<close>

definition later_draws :: "env \<Rightarrow> env" where
  "later_draws e = e\<lparr>draws := \<lambda>i. draws e (i + 16)\<rparr>"

end
