(* ===== verification/Broadcast.thy ===== *)
theory Broadcast
  imports Messages
begin

text \<open>
  \<open>RoomManager.broadcast\<close> of \<open>backend/room_manager.py\<close> once the room is found (\<open>broadcast_room\<close>), direct
  sends to one player (\<open>send_to\<close>), and who receives a broadcast.
\<close>

subsection \<open>Definitions\<close>

text \<open>
  The first loop of \<open>broadcast\<close>: the send queues seen, the transport of the last new one, whether a
  real socket and whether a remote player (a player without socket) was met.
\<close>

record recipients =
  seen_queues :: "nat list"
  single_queue_transport :: "websocket option"
  has_real_websocket :: bool
  has_remote_players :: bool

fun scan_recipients :: "player list \<Rightarrow> recipients \<Rightarrow> recipients" where
  "scan_recipients [] s = s"
| "scan_recipients (p # ps) s =
     (case websocket p of
        None \<Rightarrow> scan_recipients ps (s\<lparr>has_remote_players := True\<rparr>)
      | Some ws \<Rightarrow>
          if \<not> is_connected p then scan_recipients ps s
          else case ws of
            VirtualTransport _ q \<Rightarrow>
              if q \<notin> set (seen_queues s)
              then scan_recipients ps (s\<lparr>seen_queues := q # seen_queues s, single_queue_transport := Some ws\<rparr>)
              else scan_recipients ps s
          | WebSocket _ \<Rightarrow> scan_recipients ps (s\<lparr>has_real_websocket := True\<rparr>))"

definition no_recipients :: recipients where
  "no_recipients =
     \<lparr>seen_queues = [], single_queue_transport = None, has_real_websocket = False, has_remote_players = False\<rparr>"

fun is_virtual :: "websocket \<Rightarrow> bool" where
  "is_virtual (VirtualTransport _ _) = True"
| "is_virtual (WebSocket _) = False"

definition broadcast_room :: "env \<Rightarrow> room \<Rightarrow> message \<Rightarrow> out list" where
  "broadcast_room e r msg =
     (let s = scan_recipients (players r) no_recipients;
          lossy = is_lossy msg;
          local =
            (if length (seen_queues s) = 1 \<and> \<not> has_real_websocket s
             then (case single_queue_transport s of
                     None \<Rightarrow> []
                   | Some t \<Rightarrow> [SendRoom t (code r) lossy msg])
             else concat (map (\<lambda>p. case websocket p of
                                 None \<Rightarrow> []
                               | Some ws \<Rightarrow> if is_connected p then [SendText ws (is_virtual ws \<and> lossy) msg] else [])
                         (players r)))
      in local @ (if has_remote_players s \<and> redis_enabled e then [PublishToRoom (code r) msg] else []))"

text \<open>
  \<open>if player.is_connected and player.websocket is not None: await player.websocket.send_text(...)\<close>;
  a direct send carries no \<open>lossy\<close> flag.
\<close>

definition send_to :: "player \<Rightarrow> message \<Rightarrow> out list" where
  "send_to p msg =
     (case websocket p of None \<Rightarrow> [] | Some ws \<Rightarrow> if is_connected p then [SendText ws False msg] else [])"

subsection \<open>Delivery\<close>

definition queue_of :: "websocket \<Rightarrow> nat option" where
  "queue_of ws = (case ws of VirtualTransport _ q \<Rightarrow> Some q | WebSocket _ \<Rightarrow> None)"

definition one_stream :: "websocket list \<Rightarrow> bool" where
  "one_stream ws \<longleftrightarrow> ws \<noteq> [] \<and> queue_of (hd ws) \<noteq> None \<and> list_all (\<lambda>w. queue_of w = queue_of (hd ws)) ws"

text \<open>The sockets of the connected players, in player order.\<close>

definition sockets_of :: "player list \<Rightarrow> websocket list" where
  "sockets_of ps = map the (filter (\<lambda>w. w \<noteq> None) (map websocket (filter is_connected ps)))"

lemma sockets_of_simps [simp]:
  "sockets_of [] = []"
  "sockets_of (p # ps) =
     (case websocket p of None \<Rightarrow> [] | Some ws \<Rightarrow> if is_connected p then [ws] else []) @ sockets_of ps"
  by (auto simp: sockets_of_def split: option.splits)

lemma scan_recipients_facts:
  "has_real_websocket (scan_recipients ps s) \<longleftrightarrow> has_real_websocket s \<or> (\<exists>w \<in> set (sockets_of ps). queue_of w = None)"
  "has_remote_players (scan_recipients ps s) \<longleftrightarrow> has_remote_players s \<or> (\<exists>p \<in> set ps. websocket p = None)"
  "set (seen_queues (scan_recipients ps s)) = set (seen_queues s) \<union> {q. \<exists>w \<in> set (sockets_of ps). queue_of w = Some q}"
  "distinct (seen_queues s) \<Longrightarrow> distinct (seen_queues (scan_recipients ps s))"
  "single_queue_transport (scan_recipients ps s) = None \<longleftrightarrow>
     single_queue_transport s = None \<and> set (seen_queues (scan_recipients ps s)) = set (seen_queues s)"
  "single_queue_transport (scan_recipients ps s) = Some t \<Longrightarrow>
     single_queue_transport s = Some t \<or> t \<in> set (sockets_of ps)"
  by (induction ps s rule: scan_recipients.induct)
     (auto simp: queue_of_def split: option.splits websocket.splits if_splits)

lemma per_player_sends:
  "concat (map (\<lambda>p. case websocket p of
                  None \<Rightarrow> []
                | Some ws \<Rightarrow> if is_connected p then [SendText ws (is_virtual ws \<and> l) msg] else []) ps)
   = map (\<lambda>ws. SendText ws (is_virtual ws \<and> l) msg) (sockets_of ps)"
  by (induction ps) (auto split: option.splits)

lemma one_stream_iff:
  "one_stream (sockets_of ps) \<longleftrightarrow>
     length (seen_queues (scan_recipients ps no_recipients)) = 1
     \<and> \<not> has_real_websocket (scan_recipients ps no_recipients)"
proof -
  let ?s = "scan_recipients ps no_recipients" and ?W = "sockets_of ps"
  have q: "set (seen_queues ?s) = {q. \<exists>w \<in> set ?W. queue_of w = Some q}"
    and real: "has_real_websocket ?s \<longleftrightarrow> (\<exists>w \<in> set ?W. queue_of w = None)"
    by (simp_all add: scan_recipients_facts no_recipients_def)
  have "distinct (seen_queues ?s)" by (simp add: scan_recipients_facts(4) no_recipients_def)
  then have len: "length (seen_queues ?s) = 1 \<longleftrightarrow> (\<exists>q. set (seen_queues ?s) = {q})"
    by (metis One_nat_def card_1_singleton_iff distinct_card)
  show ?thesis
  proof (cases ?W)
    case Nil
    with q have "seen_queues ?s = []" by simp
    with Nil show ?thesis by (simp add: one_stream_def)
  next
    case (Cons w W)
    then show ?thesis
      unfolding len q real by (auto simp: one_stream_def list_all_iff) (metis (mono_tags, lifting) mem_Collect_eq singletonD)
  qed
qed

lemma broadcast_room_sends:
  "let W = sockets_of (players r);
       relay = (if redis_enabled e \<and> list_ex (\<lambda>p. websocket p = None) (players r)
                then [PublishToRoom (code r) msg] else [])
   in if one_stream W then \<exists>t. t \<in> set W \<and> broadcast_room e r msg = [SendRoom t (code r) (is_lossy msg) msg] @ relay
      else broadcast_room e r msg = map (\<lambda>ws. SendText ws (is_virtual ws \<and> is_lossy msg) msg) W @ relay"
proof -
  let ?s = "scan_recipients (players r) no_recipients"
  have remote: "has_remote_players ?s \<longleftrightarrow> list_ex (\<lambda>p. websocket p = None) (players r)"
    by (auto simp: scan_recipients_facts no_recipients_def list_ex_iff)
  show ?thesis
  proof (cases "one_stream (sockets_of (players r))")
    case True
    then have "seen_queues ?s \<noteq> []" using one_stream_iff [of "players r"] by auto
    then obtain t where t: "single_queue_transport ?s = Some t"
      using scan_recipients_facts(5) [of "players r" no_recipients] by (auto simp: no_recipients_def)
    then have "t \<in> set (sockets_of (players r))"
      using scan_recipients_facts(6) [OF t] by (simp add: no_recipients_def)
    moreover have "broadcast_room e r msg = [SendRoom t (code r) (is_lossy msg) msg]
        @ (if redis_enabled e \<and> list_ex (\<lambda>p. websocket p = None) (players r) then [PublishToRoom (code r) msg] else [])"
      using True t remote by (auto simp: broadcast_room_def Let_def one_stream_iff)
    ultimately show ?thesis using True by (auto simp: Let_def)
  next
    case False
    then have "broadcast_room e r msg = map (\<lambda>ws. SendText ws (is_virtual ws \<and> is_lossy msg) msg) (sockets_of (players r))
        @ (if redis_enabled e \<and> list_ex (\<lambda>p. websocket p = None) (players r) then [PublishToRoom (code r) msg] else [])"
      using remote unfolding broadcast_room_def Let_def one_stream_iff per_player_sends by auto
    with False show ?thesis by (simp add: Let_def)
  qed
qed

text \<open>
  C30 (functional). A broadcast reaches every connected player with a socket exactly once: when all
  their transports feed one gateway stream, by a single room-wide message on one of these
  transports; otherwise by one send per socket in player order. It is tagged droppable only for
  drawing messages on virtual transports, and it is relayed through Redis exactly when Redis is
  enabled and some player of the room has no socket on this worker.
\<close>

theorem broadcast_room_delivery:
  "let W = sockets_of (players r);
       relay = (if redis_enabled e \<and> list_ex (\<lambda>p. websocket p = None) (players r)
                then [PublishToRoom (code r) msg] else [])
   in if one_stream W then \<exists>t. t \<in> set W \<and> broadcast_room e r msg = [SendRoom t (code r) (is_lossy msg) msg] @ relay
      else broadcast_room e r msg = map (\<lambda>ws. SendText ws (is_virtual ws \<and> is_lossy msg) msg) W @ relay"
  by (rule broadcast_room_sends)

subsection \<open>The messages of an output\<close>

definition out_message :: "out \<Rightarrow> message option" where
  "out_message o' = (case o' of SendText _ _ m \<Rightarrow> Some m | SendRoom _ _ _ m \<Rightarrow> Some m | PublishToRoom _ m \<Rightarrow> Some m | _ \<Rightarrow> None)"

lemma out_message_broadcast: "o' \<in> set (broadcast_room e r msg) \<Longrightarrow> out_message o' = Some msg"
  by (auto simp: broadcast_room_def Let_def out_message_def split: if_splits option.splits)

lemma out_message_send_to: "o' \<in> set (send_to p msg) \<Longrightarrow> \<exists>ws. websocket p = Some ws \<and> o' = SendText ws False msg"
  by (auto simp: send_to_def split: if_splits option.splits)

end
