(* ===== verification/Game_Over.thy ===== *)
theory Game_Over
  imports Messages "HOL-Library.Product_Lexorder"
begin

text \<open>
  \<open>build_game_over_payload\<close> of \<open>backend/game_engine.py\<close>: the final ranking, the session statistics
  it updates on the players, and the awards. \<open>sorted\<close> with \<open>reverse=True\<close> is stable, so it is the
  stable ascending sort by the negated key.
\<close>

subsection \<open>Definitions\<close>

definition session_update :: "int \<Rightarrow> player \<Rightarrow> player" where
  "session_update top_score p =
     (let p1 = (if 0 < top_score \<and> score p = top_score then p\<lparr>session_wins := session_wins p + 1\<rparr> else p)
      in p1\<lparr>session_score := session_score p1 + score p1, session_games := session_games p1 + 1\<rparr>)"

definition awards_for :: "player list \<Rightarrow> award list" where
  "awards_for ps =
     (case py_min_by (\<lambda>p. the (fastest_guess_time p)) (filter (\<lambda>p. fastest_guess_time p \<noteq> None) ps) of
        None \<Rightarrow> [] | Some p \<Rightarrow> [SpeedDemon (pid p) (pname p) (the (fastest_guess_time p))])
     @ (case py_max_by drawer_points_earned (filter (\<lambda>p. drawer_points_earned p > 0) ps) of
          None \<Rightarrow> [] | Some p \<Rightarrow> [MasterArtist (pid p) (pname p) (drawer_points_earned p)])
     @ (case py_max_by max_streak (filter (\<lambda>p. max_streak p \<ge> 2) ps) of
          None \<Rightarrow> [] | Some p \<Rightarrow> [StreakKing (pid p) (pname p) (max_streak p)])
     @ (case py_max_by correct_guesses_count (filter (\<lambda>p. correct_guesses_count p > 0) ps) of
          None \<Rightarrow> [] | Some p \<Rightarrow> [Sharpshooter (pid p) (pname p) (correct_guesses_count p)])"

definition build_game_over_payload :: "room \<Rightarrow> room \<times> game_over_payload" where
  "build_game_over_payload r =
     (let active_players = filter is_active (players r);
          ranked_players = sort_key (\<lambda>p. - score p) active_players;
          scores = map (\<lambda>p. \<lparr>fs_id = pid p, fs_name = pname p, fs_score = score p\<rparr>) ranked_players;
          top_score = (case ranked_players of [] \<Rightarrow> 0 | p # _ \<Rightarrow> score p);
          r' = upd_players (\<lambda>p. if is_active p then session_update top_score p else p) r;
          active' = filter is_active (players r');
          stats = map (\<lambda>p. \<lparr>ss_id = pid p, ss_name = pname p, ss_score = session_score p,
                             ss_wins = session_wins p, ss_games = session_games p\<rparr>)
                    (sort_key (\<lambda>p. (- session_wins p, - session_score p)) active')
      in (r', \<lparr>final_scores = scores, mvp_awards = awards_for active', session_stats = stats\<rparr>))"

subsection \<open>The room after the game\<close>

definition top_score :: "room \<Rightarrow> int" where
  "top_score r = (case sort_key (\<lambda>p. - score p) (filter is_active (players r)) of [] \<Rightarrow> 0 | p # _ \<Rightarrow> score p)"

lemma build_game_over_room:
  "fst (build_game_over_payload r) =
     r\<lparr>players := map (\<lambda>p. if is_active p then session_update (top_score r) p else p) (players r)\<rparr>"
  by (simp add: build_game_over_payload_def Let_def top_score_def upd_players_def)

lemma session_update_keeps [simp]:
  "pid (session_update t p) = pid p" "pname (session_update t p) = pname p" "score (session_update t p) = score p"
  "is_spectator (session_update t p) = is_spectator p" "is_connected (session_update t p) = is_connected p"
  "websocket (session_update t p) = websocket p" "has_guessed (session_update t p) = has_guessed p"
  "fastest_guess_time (session_update t p) = fastest_guess_time p" "max_streak (session_update t p) = max_streak p"
  "drawer_points_earned (session_update t p) = drawer_points_earned p"
  "correct_guesses_count (session_update t p) = correct_guesses_count p"
  "session_games (session_update t p) = session_games p + 1"
  "session_score (session_update t p) = session_score p + score p"
  "session_wins (session_update t p) = session_wins p + (if 0 < t \<and> score p = t then 1 else 0)"
  by (simp_all add: session_update_def Let_def)

lemma is_active_session_update [simp]: "is_active (session_update t p) = is_active p"
  by (simp add: is_active_def)

lemma sort_key_Cons_min:
  fixes k :: "'a \<Rightarrow> int"
  assumes "sort_key k xs = y # ys" and "x \<in> set xs"
  shows "k y \<le> k x"
proof -
  have "sorted (map k (y # ys))" using sorted_sort_key [of k xs] assms(1) by simp
  moreover have "x \<in> set (y # ys)" using assms by (metis set_sort)
  ultimately show ?thesis by auto
qed

lemma top_score_max:
  assumes "p \<in> set (players r)" and "is_active p"
  shows "score p \<le> top_score r" and "top_score r \<in> score ` {q \<in> set (players r). is_active q}"
proof -
  let ?as = "filter is_active (players r)"
  have p: "p \<in> set ?as" using assms by simp
  then have "sort_key (\<lambda>p. - score p) ?as \<noteq> []" by (metis empty_iff empty_set set_sort)
  then obtain y ys where y: "sort_key (\<lambda>p. - score p) ?as = y # ys" by (cases "sort_key (\<lambda>p. - score p) ?as") auto
  then have "y \<in> set ?as" by (metis list.set_intros(1) set_sort)
  with y sort_key_Cons_min [OF y p] show "score p \<le> top_score r"
    "top_score r \<in> score ` {q \<in> set (players r). is_active q}" by (auto simp: top_score_def)
qed

text \<open>
  C28 (functional). The final ranking lists every active player once with the final score, in
  descending order, players with equal scores staying in room order; spectators are not ranked. The
  players with the highest score, if it is positive, and only they gain a session win; every active
  player gains the score and one game; scores themselves do not change and spectators not at all.
\<close>

theorem game_over_ranking:
  "let (r', pl) = build_game_over_payload r; A = filter is_active (players r)
   in sorted_wrt (\<lambda>a b. fs_score b \<le> fs_score a) (final_scores pl)
      \<and> mset (final_scores pl) = mset (map (\<lambda>p. \<lparr>fs_id = pid p, fs_name = pname p, fs_score = score p\<rparr>) A)
      \<and> (\<forall>s. filter (\<lambda>f. fs_score f = s) (final_scores pl) =
             map (\<lambda>p. \<lparr>fs_id = pid p, fs_name = pname p, fs_score = score p\<rparr>) (filter (\<lambda>p. score p = s) A))
      \<and> list_all2 (\<lambda>p p'. if is_active p
            then session_games p' = session_games p + 1 \<and> session_score p' = session_score p + score p
                 \<and> score p' = score p \<and> pid p' = pid p
                 \<and> session_wins p' = session_wins p + (if 0 < score p \<and> score p = Max (score ` set A) then 1 else 0)
            else p' = p) (players r) (players r')"
proof -
  let ?A = "filter is_active (players r)"
  let ?f = "\<lambda>p. \<lparr>fs_id = pid p, fs_name = pname p, fs_score = score p\<rparr>"
  let ?R = "sort_key (\<lambda>p. - score p) ?A"
  have fin: "final_scores (snd (build_game_over_payload r)) = map ?f ?R"
    by (simp add: build_game_over_payload_def Let_def)
  have pl: "players (fst (build_game_over_payload r)) =
      map (\<lambda>p. if is_active p then session_update (top_score r) p else p) (players r)"
    by (simp add: build_game_over_room)
  have "sorted (map (\<lambda>p. - score p) ?R)" by simp
  then have srt: "sorted_wrt (\<lambda>a b. fs_score b \<le> fs_score a) (map ?f ?R)"
    by (simp add: sorted_wrt_map)
  have "filter (\<lambda>f. fs_score f = s) (map ?f ?R) = map ?f (filter (\<lambda>p. score p = s) ?A)" for s
  proof -
    have "filter (\<lambda>p. - score p = - s) ?R = filter (\<lambda>p. - score p = - s) ?A"
      by (rule sort_key_stable [of "\<lambda>p. - score p" "- s" ?A, unfolded])
    then show ?thesis by (simp add: filter_map o_def)
  qed
  moreover have "top_score r = Max (score ` set ?A)" if "p \<in> set (players r)" "is_active p" for p
    using top_score_max [of _ r] that by (intro Max_eqI [symmetric]) auto
  then have "list_all2 (\<lambda>p p'. if is_active p
            then session_games p' = session_games p + 1 \<and> session_score p' = session_score p + score p
                 \<and> score p' = score p \<and> pid p' = pid p
                 \<and> session_wins p' = session_wins p + (if 0 < score p \<and> score p = Max (score ` set ?A) then 1 else 0)
            else p' = p) (players r) (players (fst (build_game_over_payload r)))"
    unfolding pl by (auto simp: list_all2_map2 list_all2_same)
  ultimately show ?thesis
    using srt fin by (simp add: case_prod_beta Let_def)
qed

subsection \<open>Awards\<close>

text \<open>
  The winners of an award with value \<open>k\<close> and threshold \<open>c\<close>: nobody when no player reaches the
  threshold, otherwise one player whose value is the best of all; for the fastest guess the
  smallest time among the players who have one.
\<close>

definition best_of :: "(player \<Rightarrow> int) \<Rightarrow> int \<Rightarrow> player list \<Rightarrow> (string \<times> string \<times> int) list \<Rightarrow> bool" where
  "best_of k c ps ws \<longleftrightarrow>
     (if list_ex (\<lambda>p. c \<le> k p) ps
      then \<exists>p \<in> set ps. ws = [(pid p, pname p, k p)] \<and> (\<forall>q \<in> set ps. k q \<le> k p)
      else ws = [])"

definition fastest_of :: "player list \<Rightarrow> (string \<times> string \<times> rat) list \<Rightarrow> bool" where
  "fastest_of ps ws \<longleftrightarrow>
     (if list_ex (\<lambda>p. fastest_guess_time p \<noteq> None) ps
      then \<exists>p \<in> set ps. \<exists>t. fastest_guess_time p = Some t \<and> ws = [(pid p, pname p, t)]
             \<and> (\<forall>q \<in> set ps. \<forall>u. fastest_guess_time q = Some u \<longrightarrow> t \<le> u)
      else ws = [])"

lemma py_max_by_best:
  "best_of k c ps
     (case py_max_by k (filter (\<lambda>p. c \<le> k p) ps) of None \<Rightarrow> [] | Some p \<Rightarrow> [(pid p, pname p, k p)])"
proof (cases "py_max_by k (filter (\<lambda>p. c \<le> k p) ps)")
  case None
  then have "\<not> list_ex (\<lambda>p. c \<le> k p) ps" by (auto simp: list_ex_iff filter_empty_conv)
  with None show ?thesis by (simp add: best_of_def)
next
  case (Some p)
  note py_max_by_Some [OF Some]
  then have "p \<in> set ps" "c \<le> k p" "\<forall>q \<in> set ps. k q \<le> k p" by (auto simp: not_le)+
  with Some show ?thesis by (auto simp: best_of_def list_ex_iff)
qed

lemma py_min_by_fastest:
  "fastest_of ps
     (case py_min_by (\<lambda>p. the (fastest_guess_time p)) (filter (\<lambda>p. fastest_guess_time p \<noteq> None) ps) of
        None \<Rightarrow> [] | Some p \<Rightarrow> [(pid p, pname p, the (fastest_guess_time p))])"
proof (cases "py_min_by (\<lambda>p. the (fastest_guess_time p)) (filter (\<lambda>p. fastest_guess_time p \<noteq> None) ps)")
  case None
  then have "\<not> list_ex (\<lambda>p. fastest_guess_time p \<noteq> None) ps" by (auto simp: list_ex_iff filter_empty_conv)
  with None show ?thesis by (simp add: fastest_of_def)
next
  case (Some p)
  from py_min_by_Some [OF Some] obtain t where t: "p \<in> set ps" "fastest_guess_time p = Some t"
    "\<forall>q \<in> set ps. \<forall>u. fastest_guess_time q = Some u \<longrightarrow> t \<le> u" by fastforce
  then have "list_ex (\<lambda>p. fastest_guess_time p \<noteq> None) ps" by (auto simp: list_ex_iff)
  with Some t show ?thesis by (auto simp: fastest_of_def)
qed

lemma best_of_map:
  assumes "\<And>p. k (f p) = k p" "\<And>p. pid (f p) = pid p" "\<And>p. pname (f p) = pname p"
  shows "best_of k c (map f ps) ws = best_of k c ps ws"
  using assms by (simp add: best_of_def list_ex_iff)

lemma fastest_of_map:
  assumes "\<And>p. fastest_guess_time (f p) = fastest_guess_time p" "\<And>p. pid (f p) = pid p" "\<And>p. pname (f p) = pname p"
  shows "fastest_of (map f ps) ws = fastest_of ps ws"
  using assms by (simp add: fastest_of_def list_ex_iff)

lemma active_after: "filter is_active (map (\<lambda>p. if is_active p then session_update t p else p) ps) =
    map (session_update t) (filter is_active ps)"
  by (induction ps) auto

text \<open>
  C29 (functional). The awards go to deserving players only: each of the four awards is given
  exactly when some active player qualifies (a recorded guess time, positive drawing points, a
  streak of at least two, a correct guess), to one active player whose value is the best of all
  active players, and shows that player's own value; spectators never win one.
\<close>

theorem game_over_awards:
  "\<exists>speed artist streak sharp.
     mvp_awards (snd (build_game_over_payload r)) =
       map (\<lambda>(i, n, v). SpeedDemon i n v) speed @ map (\<lambda>(i, n, v). MasterArtist i n v) artist
       @ map (\<lambda>(i, n, v). StreakKing i n v) streak @ map (\<lambda>(i, n, v). Sharpshooter i n v) sharp
   \<and> fastest_of (filter is_active (players r)) speed
   \<and> best_of drawer_points_earned 1 (filter is_active (players r)) artist
   \<and> best_of max_streak 2 (filter is_active (players r)) streak
   \<and> best_of correct_guesses_count 1 (filter is_active (players r)) sharp"
proof -
  let ?A = "filter is_active (players r)" and ?f = "session_update (top_score r)"
  let ?B = "map ?f ?A"
  let ?best = "\<lambda>k c. case py_max_by k (filter (\<lambda>p. c \<le> k p) ?B) of None \<Rightarrow> [] | Some p \<Rightarrow> [(pid p, pname p, k p)]"
  let ?fast = "case py_min_by (\<lambda>p. the (fastest_guess_time p)) (filter (\<lambda>p. fastest_guess_time p \<noteq> None) ?B) of
        None \<Rightarrow> [] | Some p \<Rightarrow> [(pid p, pname p, the (fastest_guess_time p))]"
  have pos: "(0 < v) = (1 \<le> v)" for v :: int by linarith
  have "mvp_awards (snd (build_game_over_payload r)) = awards_for ?B"
    by (simp add: build_game_over_payload_def Let_def upd_players_def active_after top_score_def)
  also have "\<dots> = map (\<lambda>(i, n, v). SpeedDemon i n v) ?fast
       @ map (\<lambda>(i, n, v). MasterArtist i n v) (?best drawer_points_earned 1)
       @ map (\<lambda>(i, n, v). StreakKing i n v) (?best max_streak 2)
       @ map (\<lambda>(i, n, v). Sharpshooter i n v) (?best correct_guesses_count 1)"
    unfolding awards_for_def pos by (simp split: option.split)
  finally show ?thesis
    using py_max_by_best [of drawer_points_earned 1 ?B] py_max_by_best [of max_streak 2 ?B]
      py_max_by_best [of correct_guesses_count 1 ?B] py_min_by_fastest [of ?B]
    by (simp only: best_of_map fastest_of_map session_update_keeps) blast
qed

end
