(* ===== verification/Turn_Engine.thy ===== *)
theory Turn_Engine
  imports Word_Choice Hints Scoring Edit_Distance Chat_Filter Broadcast Game_Over "HOL-Library.AList"
begin

text \<open>
  The turn engine of \<open>backend/game_engine.py\<close> with the end-of-game countdown of
  \<open>backend/room_manager.py\<close> that it calls: starting a turn, selecting the word, the four coroutines
  of a turn, guesses and chat, ending a turn, and moving on to the next drawer, the next round or
  the end of the game.

  An operation takes the environment and the room and returns the room and its outputs in order,
  or the exception it raises. A broadcast is \<open>broadcast_room\<close> on the room at the time of the call: the
  manager finds the very room by its code. A running coroutine is taken out of the task pool by the
  step that runs it, so a coroutine that cancels its own task changes nothing more.
\<close>

subsection \<open>Starting a turn\<close>

definition start_turn :: "env \<Rightarrow> room \<Rightarrow> (room \<times> out list) res" where
  "start_turn e r =
     res_bind (py_nth (players r) (drawer_index r)) (\<lambda>drawer.
       let (packs, choices) = draw_word_pack_choices (draws e) r 3 3;
           all_offered_words = concat (map pack_words packs);
           r1 = r\<lparr>pending_word_choices := Some all_offered_words, pending_packs := Some packs\<rparr>;
           private = send_to drawer (WordChoices choices packs);
           r2 = r1\<lparr>state := WORD_SELECTION\<rparr>;
           selecting = broadcast_room e r2 (DrawerSelecting (pid drawer) (pname drawer));
           (t, r3) = create_task (now e + 15) (AutoSelect (pid drawer)) r2
       in Inr (r3\<lparr>auto_select_task := Some t\<rparr>, private @ selecting))"

text \<open>The theme of a word: its pack, or the custom theme when only the room's own list has it.\<close>

definition custom_theme :: theme_info where
  "custom_theme = \<lparr>theme_id = ''custom'', theme_name = ''Custom Words'', theme_emoji = [10024]\<rparr>"

definition theme_of :: "room \<Rightarrow> string \<Rightarrow> theme_info option" where
  "theme_of r w =
     (case WORD_TO_PACK (py_lower w) of
        Some t \<Rightarrow> Some t
      | None \<Rightarrow> if list_ex (\<lambda>c. py_lower c = py_lower w) (custom_words (config r))
                then Some custom_theme else None)"

text \<open>The part of \<open>handle_word_selection\<close> behind its two guards.\<close>

definition begin_playing :: "env \<Rightarrow> room \<Rightarrow> player \<Rightarrow> string \<Rightarrow> string list \<Rightarrow> room \<times> out list" where
  "begin_playing e r drawer w pending_choices =
     (let r1 = (if pending r (auto_select_task r)
                then (cancel_if_pending (auto_select_task r) r)\<lparr>auto_select_task := None\<rparr> else r);
          r2 = select_word r1 w;
          th = theme_of r2 w;
          h = generate_initial_hint w;
          oid = next_oid r2;
          ts = \<lparr>turn_oid = oid, drawer_id = pid drawer, word = w, hint = h, start_time = now e,
                word_choices = pending_choices, timer_task = None, hint_task_40 = None,
                hint_task_70 = None, guess_order = [], theme = th\<rparr>;
          r3 = upd_players (\<lambda>p. p\<lparr>has_guessed := False\<rparr>)
                 (r2\<lparr>next_oid := oid + 1, turn := Some ts, state := PLAYING\<rparr>);
          r4 = r3\<lparr>pending_word_choices := None, pending_packs := None\<rparr>;
          duration = turn_duration (config r4);
          started = broadcast_room e r4 (TurnStarted (pid drawer) h duration (current_round r4) th);
          assigned = send_to drawer (WordAssigned w);
          cleared = broadcast_room e r4 ClearCanvas;
          (t40, r5) = create_task (now e + fl64 (of_int duration * fl64 (4/10))) (RevealHint40 oid) r4;
          (t70, r6) = create_task (now e + fl64 (of_int duration * fl64 (7/10))) (RevealHint70 oid) r5;
          (tt, r7) = create_task (now e + of_int duration) (TurnTimer oid) r6
      in (r7\<lparr>turn := Some (ts\<lparr>hint_task_40 := Some t40, hint_task_70 := Some t70, timer_task := Some tt\<rparr>)\<rparr>,
          started @ assigned @ cleared))"

definition handle_word_selection :: "env \<Rightarrow> room \<Rightarrow> string \<Rightarrow> string \<Rightarrow> (room \<times> out list) res" where
  "handle_word_selection e r player_id w =
     res_bind (py_nth (players r) (drawer_index r)) (\<lambda>drawer.
       if player_id \<noteq> pid drawer then Inr (r, [])
       else let pending_choices = (case pending_word_choices r of None \<Rightarrow> [] | Some ws \<Rightarrow> ws)
            in if w \<notin> set pending_choices then Inr (r, [])
               else Inr (begin_playing e r drawer w pending_choices))"

definition auto_select :: "env \<Rightarrow> room \<Rightarrow> string \<Rightarrow> (room \<times> out list) res" where
  "auto_select e r drawer =
     (case pending_word_choices r of
        None \<Rightarrow> Inr (r, [])
      | Some ws \<Rightarrow>
          if state r = WORD_SELECTION
          then res_bind (random_choice (draws e 0) ws) (\<lambda>w. handle_word_selection e r drawer w)
          else Inr (r, []))"

subsection \<open>The end of a game\<close>

definition end_game_insufficient_players :: "env \<Rightarrow> room \<Rightarrow> room \<times> out list" where
  "end_game_insufficient_players e r =
     (if insufficient_players_task r \<noteq> None then (r, [])
      else let outs = broadcast_room e r (WaitingForReconnect 20);
               (t, r1) = create_task (now e + 20) EndAfterWait r
           in (r1\<lparr>insufficient_players_task := Some t\<rparr>, outs))"

definition cancel_turn_tasks :: "turn_state \<Rightarrow> room \<Rightarrow> room" where
  "cancel_turn_tasks ts r =
     cancel_if_pending (hint_task_70 ts) (cancel_if_pending (hint_task_40 ts) (cancel_if_pending (timer_task ts) r))"

definition end_game_insufficient_players_immediate :: "env \<Rightarrow> room \<Rightarrow> room \<times> out list" where
  "end_game_insufficient_players_immediate e r =
     (let r1 = (case turn r of None \<Rightarrow> r | Some ts \<Rightarrow> (cancel_turn_tasks ts r)\<lparr>turn := None\<rparr>);
          r2 = (if pending r1 (auto_select_task r1)
                then (cancel_if_pending (auto_select_task r1) r1)\<lparr>auto_select_task := None\<rparr> else r1);
          r3 = r2\<lparr>state := GAME_OVER\<rparr>
      in (r3, broadcast_room e r3 GameEndedInsufficientPlayers))"

definition end_after_wait :: "env \<Rightarrow> room \<Rightarrow> room \<times> out list" where
  "end_after_wait e r =
     (let (r1, outs) = (if connected_count r < 2 then end_game_insufficient_players_immediate e r else (r, []))
      in (r1\<lparr>insufficient_players_task := None\<rparr>, outs))"

definition finish_game :: "env \<Rightarrow> room \<Rightarrow> room \<times> out list" where
  "finish_game e r =
     (let (r1, payload) = build_game_over_payload (r\<lparr>state := GAME_OVER\<rparr>)
      in (r1, broadcast_room e r1 (GameOver payload)))"

subsection \<open>The next drawer\<close>

datatype skip_outcome = Drawer_Found | Rounds_Complete | Nobody_Found

text \<open>The loop that skips disconnected players and spectators; its first argument counts the attempts left.\<close>

fun skip_to_drawer :: "nat \<Rightarrow> room \<Rightarrow> (room \<times> skip_outcome) res" where
  "skip_to_drawer 0 r = Inr (r, Nobody_Found)"
| "skip_to_drawer (Suc n) r =
     res_bind (py_nth (players r) (drawer_index r)) (\<lambda>current_drawer.
       if is_connected current_drawer \<and> \<not> is_spectator current_drawer then Inr (r, Drawer_Found)
       else let r1 = r\<lparr>drawer_index := drawer_index r + 1\<rparr>
            in if drawer_index r1 \<ge> length (players r1)
               then let r2 = r1\<lparr>drawer_index := 0, current_round := current_round r1 + 1\<rparr>
                    in if current_round r2 > num_rounds (config r2) then Inr (r2, Rounds_Complete)
                       else skip_to_drawer n r2
               else skip_to_drawer n r1)"

definition next_index :: "room \<Rightarrow> room" where
  "next_index r =
     (let r1 = r\<lparr>drawer_index := drawer_index r + 1\<rparr>
      in if drawer_index r1 \<ge> length (players r1)
         then r1\<lparr>drawer_index := 0, current_round := current_round r1 + 1\<rparr> else r1)"

definition advance_turn_or_round :: "env \<Rightarrow> room \<Rightarrow> (room \<times> out list) res" where
  "advance_turn_or_round e r =
     (if connected_active_count r < 2 then Inr (end_game_insufficient_players e r)
      else let r1 = next_index r
           in if current_round r1 > num_rounds (config r1) then Inr (finish_game e r1)
              else res_bind (skip_to_drawer (length (players r1)) r1) (\<lambda>(r2, outcome).
                     case outcome of
                       Drawer_Found \<Rightarrow> start_turn e r2
                     | Rounds_Complete \<Rightarrow> Inr (finish_game e r2)
                     | Nobody_Found \<Rightarrow> Inr (finish_game e r2)))"

subsection \<open>Ending a turn\<close>

definition clamp_elapsed :: "env \<Rightarrow> rat \<Rightarrow> rat \<Rightarrow> player \<Rightarrow> rat" where
  "clamp_elapsed e duration started p =
     (let elapsed = fl64 ((case guess_time p of None \<Rightarrow> now e | Some t \<Rightarrow> t) - started)
      in max 0 (min elapsed duration))"

definition award_guess :: "rat \<Rightarrow> int \<Rightarrow> player \<Rightarrow> player" where
  "award_guess elapsed s p =
     p\<lparr>score := score p + s,
       correct_guesses_count := correct_guesses_count p + 1,
       fastest_guess_time :=
         (case fastest_guess_time p of
            None \<Rightarrow> Some elapsed | Some f \<Rightarrow> if elapsed < f then Some elapsed else Some f),
       streak := streak p + 1,
       max_streak := max (max_streak p) (streak p + 1)\<rparr>"

text \<open>The loop over \<open>guess_order\<close> with its position, the room, \<open>guesser_scores\<close> and \<open>scores_payload\<close>.\<close>

fun score_guessers ::
  "env \<Rightarrow> turn_state \<Rightarrow> nat \<Rightarrow> string list \<Rightarrow> room \<times> int list \<times> (string \<times> int) list
   \<Rightarrow> (room \<times> int list \<times> (string \<times> int) list) res" where
  "score_guessers e ts position [] acc = Inr acc"
| "score_guessers e ts position (i # is) (r, guesser_scores, payload) =
     (case get_player r i of
        None \<Rightarrow> score_guessers e ts (position + 1) is (r, guesser_scores, payload)
      | Some p \<Rightarrow>
          let duration = of_int (turn_duration (config r));
              elapsed = clamp_elapsed e duration (start_time ts) p
          in res_bind (compute_guesser_score elapsed duration position) (\<lambda>s.
               score_guessers e ts (position + 1) is
                 (upd_player i (award_guess elapsed s) r, guesser_scores @ [s], AList.update i s payload)))"

definition score_turn :: "env \<Rightarrow> turn_state \<Rightarrow> room \<Rightarrow> (room \<times> (string \<times> int) list) res" where
  "score_turn e ts r =
     res_bind (score_guessers e ts 1 (guess_order ts) (r, [], [])) (\<lambda>(r1, guesser_scores, payload).
       let r2 = upd_players (\<lambda>p. if pid p \<noteq> drawer_id ts \<and> pid p \<notin> set (guess_order ts)
                                 then p\<lparr>streak := 0\<rparr> else p) r1;
           drawer_bonus = compute_drawer_bonus guesser_scores
       in Inr (case get_player r2 (drawer_id ts) of
                 None \<Rightarrow> (r2, payload)
               | Some d \<Rightarrow>
                   (upd_player (drawer_id ts)
                      (\<lambda>p. p\<lparr>score := score p + drawer_bonus,
                             drawer_points_earned := drawer_points_earned p + drawer_bonus\<rparr>) r2,
                    AList.update (drawer_id ts) drawer_bonus payload)))"

definition end_turn :: "env \<Rightarrow> room \<Rightarrow> turn_end_reason \<Rightarrow> (room \<times> out list) res" where
  "end_turn e r reason =
     (case turn r of
        None \<Rightarrow> Inr (r, [])
      | Some ts \<Rightarrow>
          let r1 = cancel_turn_tasks ts r
          in res_bind (if reason \<noteq> DRAWER_DISCONNECTED then score_turn e ts r1 else Inr (r1, [])) (\<lambda>(r2, payload).
               let ended = broadcast_room e r2 (TurnEnded (word ts) payload reason);
                   r3 = r2\<lparr>turn := None\<rparr>
               in res_bind (advance_turn_or_round e r3) (\<lambda>(r4, outs). Inr (r4, ended @ outs))))"

definition turn_running :: "room \<Rightarrow> nat \<Rightarrow> bool" where
  "turn_running r oid \<longleftrightarrow>
     (case turn r of None \<Rightarrow> False | Some ts \<Rightarrow> turn_oid ts = oid \<and> state r = PLAYING)"

definition turn_timer :: "env \<Rightarrow> room \<Rightarrow> nat \<Rightarrow> (room \<times> out list) res" where
  "turn_timer e r oid = (if turn_running r oid then end_turn e r TIMER_EXPIRED else Inr (r, []))"

text \<open>\<open>reveal_hint_40\<close> and \<open>reveal_hint_70\<close> differ only in when they run.\<close>

definition reveal_hint :: "env \<Rightarrow> room \<Rightarrow> nat \<Rightarrow> (room \<times> out list) res" where
  "reveal_hint e r oid =
     (case turn r of
        None \<Rightarrow> Inr (r, [])
      | Some ts \<Rightarrow>
          if turn_running r oid
          then res_bind (reveal_hint_char (draws e 0) (hint ts) (word ts)) (\<lambda>h.
                 let r1 = r\<lparr>turn := Some (ts\<lparr>hint := h\<rparr>)\<rparr>
                 in Inr (r1, broadcast_room e r1 (HintUpdate h)))
          else Inr (r, []))"

subsection \<open>Guesses and chat\<close>

definition all_guessed :: "room \<Rightarrow> string \<Rightarrow> bool" where
  "all_guessed r drawer =
     list_all has_guessed (filter (\<lambda>p. pid p \<noteq> drawer \<and> is_connected p \<and> \<not> is_spectator p) (players r))"

definition spectator_name :: "player \<Rightarrow> string" where
  "spectator_name p = pname p @ '' (Spectator)''"

definition handle_guess :: "env \<Rightarrow> room \<Rightarrow> string \<Rightarrow> string \<Rightarrow> (room \<times> out list) res" where
  "handle_guess e r player_id text =
     (case turn r of
        None \<Rightarrow> Inr (r, [])
      | Some ts \<Rightarrow>
     if state r \<noteq> PLAYING then Inr (r, [])
     else if length text > 100 then Inr (r, [])
     else case get_player r player_id of
        None \<Rightarrow> Inr (r, [])
      | Some p \<Rightarrow>
     if pid p = drawer_id ts then Inr (r, [])
     else if is_spectator p
     then Inr (r, broadcast_room e r (ChatMessage (spectator_name p) (sanitize_chat (word ts) text) False))
     else if has_guessed p then Inr (r, [])
     else if \<not> is_connected p then Inr (r, [])
     else if py_lower (py_strip text) = py_lower (word ts)
     then let r1 = upd_player player_id (\<lambda>q. q\<lparr>has_guessed := True, guess_time := Some (now e)\<rparr>) r;
              r2 = r1\<lparr>turn := Some (ts\<lparr>guess_order := guess_order ts @ [pid p]\<rparr>)\<rparr>;
              correct = broadcast_room e r2 (GuessCorrect (pname p))
          in if all_guessed r2 (drawer_id ts)
             then res_bind (end_turn e r2 ALL_GUESSED) (\<lambda>(r3, outs). Inr (r3, correct @ outs))
             else Inr (r2, correct)
     else let guess_normalized = py_lower (py_strip text);
              word_normalized = py_lower (word ts);
              is_close = (length guess_normalized \<ge> 3 \<and> levenshtein_distance guess_normalized word_normalized \<le> 2)
          in Inr (r, broadcast_room e r
                (if is_close then ChatMessage ''System'' (pname p @ '' is very close!'') True
                 else ChatMessage (pname p) (filter_profanity text) False)))"

definition handle_chat :: "env \<Rightarrow> room \<Rightarrow> string \<Rightarrow> string \<Rightarrow> room \<times> out list" where
  "handle_chat e r player_id text =
     (case turn r of
        None \<Rightarrow> (r, [])
      | Some ts \<Rightarrow>
     if state r \<noteq> PLAYING then (r, [])
     else case get_player r player_id of
        None \<Rightarrow> (r, [])
      | Some p \<Rightarrow>
     if pid p \<noteq> drawer_id ts \<and> \<not> is_spectator p then (r, [])
     else let display_name = (if is_spectator p then spectator_name p else pname p)
          in (r, broadcast_room e r (ChatMessage display_name (sanitize_chat (word ts) text) False)))"

subsection \<open>Case analysis\<close>

lemma start_turn_InrE:
  assumes "start_turn e r = Inr (r', outs)"
  obtains drawer packs choices where
    "py_nth (players r) (drawer_index r) = Inr drawer"
    "draw_word_pack_choices (draws e) r 3 3 = (packs, choices)"
    "r' = r\<lparr>pending_word_choices := Some (concat (map pack_words packs)), pending_packs := Some packs,
            state := WORD_SELECTION,
            loop_tasks := loop_tasks r @ [(next_oid r, now e + 15, AutoSelect (pid drawer))],
            next_oid := next_oid r + 1, auto_select_task := Some (next_oid r)\<rparr>"
    "outs = send_to drawer (WordChoices choices packs)
       @ broadcast_room e (r\<lparr>pending_word_choices := Some (concat (map pack_words packs)),
           pending_packs := Some packs, state := WORD_SELECTION\<rparr>) (DrawerSelecting (pid drawer) (pname drawer))"
proof (cases "draw_word_pack_choices (draws e) r 3 3")
  case (Pair packs choices)
  from assms obtain drawer where "py_nth (players r) (drawer_index r) = Inr drawer"
    by (auto simp: start_turn_def res_bind_Inr_iff)
  with assms Pair show thesis
    by (intro that [of drawer packs choices]) (simp_all add: start_turn_def create_task_def Let_def)
qed

lemma start_turn_total:
  assumes "drawer_index r < length (players r)"
  shows "\<exists>r' outs. start_turn e r = Inr (r', outs)"
  using assms by (simp add: start_turn_def py_nth_def create_task_def case_prod_beta Let_def)

lemma finish_game_eq:
  "fst (finish_game e r) = fst (build_game_over_payload (r\<lparr>state := GAME_OVER\<rparr>))"
  "snd (finish_game e r) = broadcast_room e (fst (finish_game e r))
     (GameOver (snd (build_game_over_payload (r\<lparr>state := GAME_OVER\<rparr>))))"
  by (simp_all add: finish_game_def case_prod_beta)

lemma skip_to_drawer_frame:
  "skip_to_drawer n r = Inr (r', oc) \<Longrightarrow>
     r' = r\<lparr>drawer_index := drawer_index r', current_round := current_round r'\<rparr> \<and> current_round r \<le> current_round r'"
proof (induction n r rule: skip_to_drawer.induct)
  case (2 n r)
  then obtain p where p: "py_nth (players r) (drawer_index r) = Inr p" by (auto simp: res_bind_Inr_iff)
  show ?case
  proof (cases "is_connected p \<and> \<not> is_spectator p")
    case False
    note IH = 2(1,2) [OF False refl]
    show ?thesis using False p 2(3) IH by (force simp: Let_def split: if_splits)
  qed (use p 2 in auto)
qed simp

definition turn_of_word :: "env \<Rightarrow> room \<Rightarrow> player \<Rightarrow> string \<Rightarrow> string list \<Rightarrow> turn_state" where
  "turn_of_word e r drawer w pending_choices =
     \<lparr>turn_oid = next_oid r, drawer_id = pid drawer, word = w, hint = generate_initial_hint w, start_time = now e,
      word_choices = pending_choices, timer_task = Some (next_oid r + 3), hint_task_40 = Some (next_oid r + 1),
      hint_task_70 = Some (next_oid r + 2), guess_order = [], theme = theme_of r w\<rparr>"

lemma begin_playing_room:
  "fst (begin_playing e r drawer w pc) =
     r\<lparr>players := map (\<lambda>p. p\<lparr>has_guessed := False\<rparr>) (players r), state := PLAYING,
       turn := Some (turn_of_word e r drawer w pc), used_words := insert w (used_words r),
       pending_word_choices := None, pending_packs := None,
       auto_select_task := (if pending r (auto_select_task r) then None else auto_select_task r),
       loop_tasks := filter (\<lambda>t. Some (fst t) \<noteq> auto_select_task r) (loop_tasks r) @
         [(next_oid r + 1, now e + fl64 (of_int (turn_duration (config r)) * fl64 (4/10)), RevealHint40 (next_oid r)),
          (next_oid r + 2, now e + fl64 (of_int (turn_duration (config r)) * fl64 (7/10)), RevealHint70 (next_oid r)),
          (next_oid r + 3, now e + of_int (turn_duration (config r)), TurnTimer (next_oid r))],
       next_oid := next_oid r + 4\<rparr>"
proof -
  have np: "filter (\<lambda>t. Some (fst t) \<noteq> auto_select_task r) (loop_tasks r) = loop_tasks r" if "\<not> pending r (auto_select_task r)"
    using that by (auto simp: pending_def task_done_def filter_id_conv split: option.splits)
  show ?thesis
    by (simp add: begin_playing_def Let_def create_task_def upd_players_def select_word_def cancel_if_pending_eq
        turn_of_word_def theme_of_def np)
qed

lemma begin_playing_outs:
  "\<exists>rb. snd (begin_playing e r drawer w pc) =
     broadcast_room e rb (TurnStarted (pid drawer) (generate_initial_hint w) (turn_duration (config r))
        (current_round r) (theme_of r w))
     @ send_to drawer (WordAssigned w) @ broadcast_room e rb ClearCanvas
   \<and> sockets_of (players rb) = sockets_of (players r) \<and> code rb = code r"
proof -
  have s: "sockets_of (map (\<lambda>p. p\<lparr>has_guessed := False\<rparr>) ps) = sockets_of ps" for ps
    by (induction ps) (auto split: option.split)
  show ?thesis
    by (rule exI [of _ "(upd_players (\<lambda>p. p\<lparr>has_guessed := False\<rparr>)
          ((select_word (if pending r (auto_select_task r)
                then (cancel_if_pending (auto_select_task r) r)\<lparr>auto_select_task := None\<rparr> else r) w)
           \<lparr>next_oid := next_oid r + 1, turn := Some (turn_of_word e r drawer w pc\<lparr>timer_task := None, hint_task_40 := None, hint_task_70 := None\<rparr>),
            state := PLAYING\<rparr>))\<lparr>pending_word_choices := None, pending_packs := None\<rparr>"])
       (simp add: begin_playing_def Let_def create_task_def upd_players_def select_word_def cancel_if_pending_eq
        turn_of_word_def theme_of_def s)
qed

lemma handle_word_selection_cases:
  assumes "drawer_index r < length (players r)"
  obtains (ignored) "handle_word_selection e r i w = Inr (r, [])"
      "i \<noteq> pid (players r ! drawer_index r) \<or> pending_word_choices r = None \<or> w \<notin> set (the (pending_word_choices r))"
  | (chosen) ws where "i = pid (players r ! drawer_index r)" "pending_word_choices r = Some ws" "w \<in> set ws"
      "handle_word_selection e r i w = Inr (begin_playing e r (players r ! drawer_index r) w ws)"
proof (cases "i = pid (players r ! drawer_index r) \<and> pending_word_choices r \<noteq> None \<and> w \<in> set (the (pending_word_choices r))")
  case True
  then obtain ws where "pending_word_choices r = Some ws" "w \<in> set ws" by auto
  with True assms show thesis by (intro chosen) (auto simp: handle_word_selection_def py_nth_def)
next
  case False
  with assms show thesis
    by (intro ignored) (auto simp: handle_word_selection_def py_nth_def split: option.splits)
qed

end
