(* ===== verification/Room_Registry.thy ===== *)
theory Room_Registry
  imports Turn_Engine
begin

text \<open>
  The registry of \<open>backend/room_manager.py\<close>: the dictionaries of a \<open>RoomManager\<close>, room lookup by code
  and by player, room codes, deletion, serialisation and \<open>create_room\<close>.

  A dictionary the code iterates over is an association list in insertion order, the others are
  maps. A room object is stored under its code; changing it in place is \<open>put_room\<close>. Its scheduled
  tasks live in the room, so deleting the room drops them: the coroutines that survive in the
  event loop find neither room nor player any more.
\<close>

subsection \<open>State\<close>

record manager =
  rooms :: "(string \<times> room) list"
  player_to_room :: "string \<rightharpoonup> string"
  pending_join_requests :: "(string \<times> pending_join_request) list"
  pending_role_requests :: "(string \<times> pending_spectator_role_request) list"
  ws_to_pending_request :: "websocket \<rightharpoonup> string"
  ws_to_player :: "websocket \<rightharpoonup> (string \<times> string)"
  active_vote_kicks :: "string \<rightharpoonup> vote_kick_state"
  vote_kick_cooldowns :: "string \<rightharpoonup> (string \<rightharpoonup> rat)"
  ws_player_id :: "websocket \<rightharpoonup> string" \<comment> \<open>the attribute \<open>player_id\<close> of a virtual transport\<close>

definition new_manager :: manager where
  "new_manager =
     \<lparr>rooms = [], player_to_room = Map.empty, pending_join_requests = [], pending_role_requests = [],
      ws_to_pending_request = Map.empty, ws_to_player = Map.empty, active_vote_kicks = Map.empty,
      vote_kick_cooldowns = Map.empty, ws_player_id = Map.empty\<rparr>"

definition MAX_PLAYERS_HARD_CAP :: int where "MAX_PLAYERS_HARD_CAP = 12"

definition get_room :: "manager \<Rightarrow> string \<Rightarrow> room option" where
  "get_room m c = map_of (rooms m) c"

definition put_room :: "room \<Rightarrow> manager \<Rightarrow> manager" where
  "put_room r m = m\<lparr>rooms := AList.update (code r) r (rooms m)\<rparr>"

definition pop_player :: "string \<Rightarrow> manager \<Rightarrow> manager" where
  "pop_player i m = m\<lparr>player_to_room := (player_to_room m)(i := None)\<rparr>"

definition register_player :: "string \<Rightarrow> string \<Rightarrow> manager \<Rightarrow> manager" where
  "register_player i c m = m\<lparr>player_to_room := (player_to_room m)(i \<mapsto> c)\<rparr>"

subsection \<open>Lookup by player\<close>

definition find_room_by_player :: "manager \<Rightarrow> string \<Rightarrow> manager \<times> room option" where
  "find_room_by_player m i =
     (case player_to_room m i of
        Some c \<Rightarrow> (m, get_room m c)
      | None \<Rightarrow>
          (case List.find (\<lambda>(c, r). get_player r i \<noteq> None) (rooms m) of
             None \<Rightarrow> (m, None)
           | Some (c, r) \<Rightarrow> (register_player i (code r) m, Some r)))"

definition mgr_get_player :: "manager \<Rightarrow> string \<Rightarrow> manager \<times> player option" where
  "mgr_get_player m i =
     (case find_room_by_player m i of
        (m', None) \<Rightarrow> (m', None)
      | (m', Some r) \<Rightarrow> (m', get_player r i))"

subsection \<open>Serialisation\<close>

definition truthy :: "string option \<Rightarrow> bool" where
  "truthy s \<longleftrightarrow> (case s of None \<Rightarrow> False | Some t \<Rightarrow> t \<noteq> [])"

text \<open>\<open>_serialize_player\<close> with the room, and without it, when the host is found through the indices.\<close>

definition player_view_of :: "bool \<Rightarrow> player \<Rightarrow> player_view" where
  "player_view_of host p =
     \<lparr>v_id = pid p, v_name = pname p, v_score = score p, v_has_guessed = has_guessed p,
      v_is_connected = is_connected p, v_is_ready = is_ready p, v_is_spectator = is_spectator p,
      v_is_host = host,
      v_avatar = (if truthy (avatar p) then avatar p else None),
      v_session_wins = (if session_wins p > 0 then Some (session_wins p) else None),
      v_session_score = (if session_score p > 0 then Some (session_score p) else None)\<rparr>"

definition serialize_player_in :: "room \<Rightarrow> player \<Rightarrow> player_view" where
  "serialize_player_in r p = player_view_of (pid p = host_id r) p"

definition serialize_player :: "manager \<Rightarrow> player \<Rightarrow> player_view" where
  "serialize_player m p =
     player_view_of
       (case player_to_room m (pid p) of
          None \<Rightarrow> False
        | Some c \<Rightarrow> if c = [] then False
                    else case get_room m c of None \<Rightarrow> False | Some r \<Rightarrow> pid p = host_id r) p"

definition player_list_in :: "room \<Rightarrow> message" where
  "player_list_in r = PlayerList (map (serialize_player_in r) (players r))"

definition player_list :: "manager \<Rightarrow> room \<Rightarrow> message" where
  "player_list m r = PlayerList (map (serialize_player m) (players r))"

definition serialize_config :: "game_config \<Rightarrow> config_view" where
  "serialize_config c =
     \<lparr>c_num_rounds = num_rounds c, c_turn_duration = turn_duration c, c_max_players = max_players c,
      c_custom_words = custom_words c, c_is_private = truthy (password c)\<rparr>"

definition set_room_info :: "room \<Rightarrow> out" where
  "set_room_info r = SetRoomInfo (code r) (state r) (length (players r)) (serialize_config (config r)) (host_id r)"

definition report_worker_load :: "manager \<Rightarrow> out" where
  "report_worker_load m =
     ReportWorkerLoad (length (filter (\<lambda>(c, r). \<not> is_proxy r) (rooms m)))
       (sum_list (map (\<lambda>(c, r). length (players r)) (rooms m)))"

subsection \<open>Deleting a room\<close>

definition delete_room :: "env \<Rightarrow> manager \<Rightarrow> string \<Rightarrow> manager \<times> out list" where
  "delete_room e m c =
     (let gone = (case get_room m c of None \<Rightarrow> [] | Some r \<Rightarrow> map pid (players r));
          sockets = map (\<lambda>(i, q). jr_websocket q) (filter (\<lambda>(i, q). jr_room_code q = c) (pending_join_requests m));
          m' = m\<lparr>rooms := AList.delete c (rooms m),
                 player_to_room := (\<lambda>i. if i \<in> set gone then None else player_to_room m i),
                 pending_join_requests := filter (\<lambda>(i, q). jr_room_code q \<noteq> c) (pending_join_requests m),
                 ws_to_pending_request := (\<lambda>w. if w \<in> set sockets then None else ws_to_pending_request m w),
                 pending_role_requests := filter (\<lambda>(i, q). sr_room_code q \<noteq> c) (pending_role_requests m),
                 active_vote_kicks := (active_vote_kicks m)(c := None),
                 vote_kick_cooldowns := (vote_kick_cooldowns m)(c := None)\<rparr>
      in (m', if redis_enabled e
              then [UnsubscribeRoom c, UnregisterRoomWithTtl c, RemoveRoomWorker c, RemoveRoomInfo c, report_worker_load m']
              else []))"

subsection \<open>Creating a room\<close>

definition code_alphabet :: string where
  "code_alphabet = ''ABCDEFGHIJKLMNOPQRSTUVWXYZ0123456789''"

definition random_choices :: "nat list \<Rightarrow> 'a list \<Rightarrow> nat \<Rightarrow> 'a list" where
  "random_choices rs xs k = map (\<lambda>j. xs ! (draw (drop j rs) mod length xs)) [0..<k]"

text \<open>The loop may run forever; the argument counts its attempts, whose draws are the environment's.\<close>

partial_function (option) generate_room_code :: "env \<Rightarrow> manager \<Rightarrow> nat \<Rightarrow> string option" where
  "generate_room_code e m k =
     (let c = random_choices (draws e k) code_alphabet 6
      in if get_room m c = None then Some c else generate_room_code e m (Suc k))"

definition valid_name :: "string \<Rightarrow> bool" where
  "valid_name n \<longleftrightarrow> 1 \<le> length n \<and> length n \<le> 20"

definition clean_password :: "string option \<Rightarrow> string option" where
  "clean_password pw =
     (case pw of None \<Rightarrow> None
      | Some s \<Rightarrow> if py_strip s = [] then None else Some (take 64 (py_strip s)))"

definition create_room ::
  "env \<Rightarrow> manager \<Rightarrow> string \<Rightarrow> websocket \<Rightarrow> string option \<Rightarrow> string option \<Rightarrow> int option
   \<Rightarrow> (manager \<times> out list \<times> message) option" where
  "create_room e m name ws av pw mp =
     (if worker_draining e then Some (m, [], Error WORKER_DRAINING)
      else if \<not> valid_name name then Some (m, [], Error INVALID_NAME)
      else case generate_room_code e m 0 of
        None \<Rightarrow> None
      | Some room_code \<Rightarrow>
          let player_id = uuid e 0;
              host = (new_player player_id name)\<lparr>websocket := Some ws, avatar := av\<rparr>;
              cfg0 = default_config\<lparr>password := clean_password pw\<rparr>;
              cfg = (case mp of None \<Rightarrow> cfg0
                     | Some k \<Rightarrow> if 2 \<le> k \<and> k \<le> 12 then cfg0\<lparr>max_players := k\<rparr> else cfg0);
              r = add_player host (new_room room_code player_id cfg);
              m' = register_player player_id room_code (put_room r m)
          in Some (m',
                   (if redis_enabled e
                    then [RegisterRoomWithTtl room_code, RegisterRoomWorker room_code, SubscribeRoom room_code,
                          set_room_info r, report_worker_load m'] else []),
                   RoomCreated room_code player_id (map (serialize_player m') (players r)) (serialize_config (config r))))"

end
