(* ===== verification/Vote_Kick.thy ===== *)
theory Vote_Kick
  imports Room_Registry
begin

text \<open>
  Voting a player out of a room: \<open>start_vote_kick\<close>, \<open>cast_vote_kick\<close>, \<open>_execute_vote_kick_passed\<close> and
  \<open>_handle_vote_kick_timeout\<close> of \<open>backend/room_manager.py\<close>. The flag \<open>ge\<close> says whether the caller
  passed the game engine.
\<close>

subsection \<open>Definitions\<close>

text \<open>The candidates for a new host: connected active players, otherwise connected players.\<close>

definition connected_candidates :: "room \<Rightarrow> player list" where
  "connected_candidates r =
     (let eligible = filter connected_active (players r)
      in if eligible = [] then filter is_connected (players r) else eligible)"

definition change_host :: "env \<Rightarrow> player list \<Rightarrow> room \<Rightarrow> room \<times> out list" where
  "change_host e eligible r =
     (case eligible of
        [] \<Rightarrow> (r, [])
      | new_host # _ \<Rightarrow>
          let r1 = r\<lparr>host_id := pid new_host\<rparr>
          in (r1, broadcast_room e r1 (HostChanged (pid new_host) (pname new_host) None)))"

definition in_game :: "room \<Rightarrow> bool" where
  "in_game r \<longleftrightarrow> state r = PLAYING \<or> state r = WORD_SELECTION"

definition everybody_guessed :: "room \<Rightarrow> bool" where
  "everybody_guessed r =
     (case turn r of None \<Rightarrow> False | Some ts \<Rightarrow> state r = PLAYING \<and> all_guessed r (drawer_id ts))"

definition kick_from_room :: "env \<Rightarrow> bool \<Rightarrow> room \<Rightarrow> player \<Rightarrow> (room \<times> out list) res" where
  "kick_from_room e ge r target =
     (let was_host = (host_id r = pid target);
          was_drawer = (case turn r of None \<Rightarrow> False | Some ts \<Rightarrow> drawer_id ts = pid target);
          kicked = send_to target (Kicked KickedByMajority);
          r1 = remove_player (pid target) r;
          (r2, host_outs) = (if was_host then change_host e (connected_candidates r1) r1 else (r1, []));
          told = broadcast_room e r2 (VoteKickEnded (pid target) (pname target) VotePassed)
               @ broadcast_room e r2 (Announce (KickedByVote (pname target)))
               @ broadcast_room e r2 (player_list_in r2)
      in res_bind (if was_drawer \<and> ge then end_turn e r2 DRAWER_DISCONNECTED else Inr (r2, [])) (\<lambda>(r3, turn_outs).
           res_bind
             (if in_game r3
              then if connected_active_count r3 < 2 then Inr (end_game_insufficient_players e r3)
                   else if \<not> was_drawer \<and> everybody_guessed r3 \<and> ge then end_turn e r3 ALL_GUESSED
                   else Inr (r3, [])
              else Inr (r3, []))
             (\<lambda>(r4, end_outs). Inr (r4, kicked @ host_outs @ told @ turn_outs @ end_outs))))"

definition execute_vote_kick_passed ::
  "env \<Rightarrow> bool \<Rightarrow> manager \<Rightarrow> room \<Rightarrow> player \<Rightarrow> (manager \<times> out list) res" where
  "execute_vote_kick_passed e ge m r target =
     res_bind (kick_from_room e ge r target) (\<lambda>(r', outs). Inr (put_room r' (pop_player (pid target) m), outs))"

definition cooldown_until :: "manager \<Rightarrow> string \<Rightarrow> string \<Rightarrow> rat" where
  "cooldown_until m c t =
     (case vote_kick_cooldowns m c of
        None \<Rightarrow> 0
      | Some f \<Rightarrow> (case f t of None \<Rightarrow> 0 | Some x \<Rightarrow> x))"

definition majority :: "nat \<Rightarrow> nat" where
  "majority voters = voters div 2 + 1"

definition start_vote_kick ::
  "env \<Rightarrow> bool \<Rightarrow> manager \<Rightarrow> string \<Rightarrow> string \<Rightarrow> (manager \<times> out list \<times> message) res" where
  "start_vote_kick e ge m0 initiator target_id =
     (case find_room_by_player m0 initiator of
        (m, None) \<Rightarrow> Inr (m, [], Error GAME_NOT_ACTIVE)
      | (m, Some r) \<Rightarrow>
     if active_vote_kicks m (code r) \<noteq> None then Inr (m, [], Error VOTE_ALREADY_ACTIVE)
     else if initiator = target_id then Inr (m, [], Error INVALID_TARGET)
     else case get_player r target_id of
        None \<Rightarrow> Inr (m, [], Error PLAYER_NOT_FOUND)
      | Some target \<Rightarrow>
     if \<not> is_connected target then Inr (m, [], Error PLAYER_DISCONNECTED)
     else let connected_players = filter is_connected (players r)
     in if length connected_players < 3 then Inr (m, [], Error NOT_ENOUGH_PLAYERS)
     else if cooldown_until m (code r) target_id > now e then Inr (m, [], Error COOLDOWN_ACTIVE)
     else let eligible_voters = filter (\<lambda>p. pid p \<noteq> target_id) connected_players;
              required_votes = majority (length eligible_voters);
              votes = {initiator};
              initiator_name = (case get_player r initiator of None \<Rightarrow> ''Player'' | Some p \<Rightarrow> pname p)
     in if card votes \<ge> required_votes
        then res_bind (execute_vote_kick_passed e ge m r target)
               (\<lambda>(m', outs). Inr (m', outs, VoteKickStartedReply target_id None))
        else let (t, r1) = create_task (now e + 30) (VoteTimeout target_id) r;
                 vote_kick = \<lparr>vk_target_id = target_id, vk_target_name = pname target, vk_initiator_id = initiator,
                              vk_initiator_name = initiator_name, vk_room_code = code r, vk_votes = votes,
                              vk_timeout_task = Some t, vk_created_at = now e\<rparr>;
                 m' = (put_room r1 m)\<lparr>active_vote_kicks := (active_vote_kicks m)(code r \<mapsto> vote_kick)\<rparr>
             in Inr (m',
                  broadcast_room e r1 (VoteKickStarted target_id (pname target) initiator initiator_name
                    (card votes) required_votes 30)
                  @ broadcast_room e r1 (Announce (VoteStarted initiator_name (pname target) (card votes) required_votes)),
                  VoteKickStartedReply target_id (Some (card votes, required_votes))))"

definition drop_vote :: "string \<Rightarrow> manager \<Rightarrow> manager" where
  "drop_vote c m = m\<lparr>active_vote_kicks := (active_vote_kicks m)(c := None)\<rparr>"

definition cast_vote_kick ::
  "env \<Rightarrow> bool \<Rightarrow> manager \<Rightarrow> string \<Rightarrow> bool \<Rightarrow> (manager \<times> out list \<times> message) res" where
  "cast_vote_kick e ge m0 voter_id vote =
     (case find_room_by_player m0 voter_id of
        (m, None) \<Rightarrow> Inr (m, [], Error GAME_NOT_ACTIVE)
      | (m, Some r) \<Rightarrow>
     (case active_vote_kicks m (code r) of
        None \<Rightarrow> Inr (m, [], Error NO_ACTIVE_VOTE)
      | Some vk \<Rightarrow>
     if voter_id = vk_target_id vk then Inr (m, [], Error INVALID_VOTER)
     else case get_player r voter_id of
        None \<Rightarrow> Inr (m, [], Error PLAYER_NOT_FOUND)
      | Some voter \<Rightarrow>
     if \<not> is_connected voter then Inr (m, [], Error PLAYER_NOT_FOUND)
     else let connected_voters = filter (\<lambda>p. is_connected p \<and> pid p \<noteq> vk_target_id vk) (players r);
              required_votes = majority (length connected_voters);
              votes = (if vote then insert voter_id (vk_votes vk) else vk_votes vk - {voter_id})
     in if card votes \<ge> required_votes
        then let r1 = cancel_if_pending (vk_timeout_task vk) r;
                 m1 = drop_vote (code r) (put_room r1 m)
             in (case get_player r1 (vk_target_id vk) of
                   None \<Rightarrow> Inr (m1, [], VoteKickUpdatedReply None)
                 | Some target \<Rightarrow>
                     res_bind (execute_vote_kick_passed e ge m1 r1 target)
                       (\<lambda>(m2, outs). Inr (m2, outs, VoteKickUpdatedReply None)))
        else Inr (m\<lparr>active_vote_kicks := (active_vote_kicks m)(code r \<mapsto> vk\<lparr>vk_votes := votes\<rparr>)\<rparr>,
                  broadcast_room e r (VoteKickUpdated (vk_target_id vk) (card votes) required_votes),
                  VoteKickUpdatedReply (Some (card votes, required_votes)))))"

definition handle_vote_kick_timeout :: "env \<Rightarrow> manager \<Rightarrow> string \<Rightarrow> string \<Rightarrow> manager \<times> out list" where
  "handle_vote_kick_timeout e m c target_id =
     (case active_vote_kicks m c of
        None \<Rightarrow> (m, [])
      | Some vk \<Rightarrow>
          if vk_target_id vk \<noteq> target_id then (m, [])
          else let cooldowns = (case vote_kick_cooldowns m c of None \<Rightarrow> Map.empty | Some f \<Rightarrow> f);
                   m1 = (drop_vote c m)\<lparr>vote_kick_cooldowns :=
                           (vote_kick_cooldowns m)(c \<mapsto> cooldowns(target_id \<mapsto> now e + 30))\<rparr>;
                   outs = (case get_room m1 c of
                             None \<Rightarrow> []
                           | Some r \<Rightarrow> broadcast_room e r (VoteKickEnded target_id (vk_target_name vk) VoteTimedOut)
                                     @ broadcast_room e r (Announce (VoteFailed (vk_target_name vk))))
               in (m1, outs))"

end
