(* ===== verification/Joining.thy ===== *)
theory Joining
  imports Room_Registry
begin

text \<open>
  Joining a room that this worker owns, and the mid-game join requests the host decides on:
  \<open>_join_room_local\<close>, \<open>_handle_join_request_timeout\<close>, \<open>cancel_pending_join_request\<close> and
  \<open>respond_join_request\<close> of \<open>backend/room_manager.py\<close>.
\<close>

subsection \<open>Capacity and the joined payload\<close>

definition players_full :: "room \<Rightarrow> bool" where
  "players_full r \<longleftrightarrow> int (active_count r) \<ge> min (max_players (config r)) MAX_PLAYERS_HARD_CAP"

definition spectators_full :: "room \<Rightarrow> bool" where
  "spectators_full r \<longleftrightarrow> spectator_count r \<ge> 50"

text \<open>\<open>int\<close> of a float truncates towards zero.\<close>

definition py_trunc :: "rat \<Rightarrow> int" where
  "py_trunc x = (if 0 \<le> x then \<lfloor>x\<rfloor> else \<lceil>x\<rceil>)"

definition remaining_time :: "env \<Rightarrow> room \<Rightarrow> turn_state \<Rightarrow> int" where
  "remaining_time e r ts =
     (let elapsed = fl64 (now e - start_time ts)
      in max 0 (py_trunc (fl64 (of_int (turn_duration (config r)) - elapsed))))"

definition joined_payload_of :: "env \<Rightarrow> room \<Rightarrow> player_view list \<Rightarrow> string \<Rightarrow> bool \<Rightarrow> joined_payload" where
  "joined_payload_of e r views player_id spectator =
     (let running = (case turn r of None \<Rightarrow> None | Some ts \<Rightarrow> if state r = PLAYING then Some ts else None)
      in \<lparr>j_room_code = code r, j_player_id = player_id, j_players = views,
          j_config = serialize_config (config r), j_state = state r, j_is_spectator = spectator,
          j_current_round = current_round r, j_total_rounds = num_rounds (config r), j_host_id = host_id r,
          j_drawer_id = map_option drawer_id (turn r),
          j_hint = (case turn r of None \<Rightarrow> [] | Some ts \<Rightarrow> hint ts),
          j_duration = map_option (remaining_time e r) running,
          j_theme = (case running of None \<Rightarrow> None | Some ts \<Rightarrow> theme ts)\<rparr>)"

text \<open>A new player enters the room: the room, both indices and the socket index.\<close>

definition enter_room :: "player \<Rightarrow> websocket \<Rightarrow> room \<Rightarrow> manager \<Rightarrow> manager \<times> room" where
  "enter_room p ws r m =
     (let r1 = add_player p r;
          m1 = register_player (pid p) (code r) (put_room r1 m)
      in (m1\<lparr>ws_to_player := (ws_to_player m1)(ws \<mapsto> (pid p, code r))\<rparr>, r1))"

subsection \<open>Joining\<close>

definition request_to_join ::
  "env \<Rightarrow> manager \<Rightarrow> room \<Rightarrow> string \<Rightarrow> websocket \<Rightarrow> string option \<Rightarrow> manager \<times> out list \<times> message" where
  "request_to_join e m r name ws av =
     (if players_full r \<and> spectators_full r then (m, [], Error ROOM_FULL)
      else case get_player r (host_id r) of
        None \<Rightarrow> (m, [], Error HOST_UNAVAILABLE)
      | Some host \<Rightarrow>
          if \<not> is_connected host \<or> websocket host = None then (m, [], Error HOST_UNAVAILABLE)
          else let request_id = uuid e 0;
                   (t, r1) = create_task (now e + 30) (JoinRequestTimeout request_id) r;
                   req = \<lparr>jr_request_id = request_id, jr_room_code = code r, jr_name = name, jr_avatar = av,
                          jr_websocket = ws, jr_created_at = now e, jr_timeout_task = Some t\<rparr>;
                   r2 = r1\<lparr>room_join_requests := AList.update request_id req (room_join_requests r1)\<rparr>;
                   m1 = (put_room r2 m)
                     \<lparr>pending_join_requests := AList.update request_id req (pending_join_requests m),
                      ws_to_pending_request := (ws_to_pending_request m)(ws \<mapsto> request_id)\<rparr>
               in (m1, send_to host (JoinRequestReceived request_id name av (code r)),
                   JoinRequestPending request_id (code r)))"

definition join_room_local ::
  "env \<Rightarrow> manager \<Rightarrow> room \<Rightarrow> string \<Rightarrow> websocket \<Rightarrow> string option \<Rightarrow> bool \<Rightarrow> string option
   \<Rightarrow> manager \<times> out list \<times> message" where
  "join_room_local e m r name ws av as_spectator pw =
     (let provided_pwd = py_strip (case pw of None \<Rightarrow> [] | Some s \<Rightarrow> s)
      in if truthy (password (config r)) \<and> provided_pwd = [] then (m, [], Error PASSWORD_REQUIRED)
         else if truthy (password (config r)) \<and> Some provided_pwd \<noteq> password (config r) then (m, [], Error INVALID_PASSWORD)
         else if state r \<noteq> LOBBY \<and> \<not> as_spectator then request_to_join e m r name ws av
         else if \<not> as_spectator \<and> players_full r then (m, [], Error ROOM_FULL)
         else if as_spectator \<and> spectators_full r then (m, [], Error ROOM_FULL)
         else let p = (new_player (uuid e 0) name)\<lparr>websocket := Some ws, avatar := av, is_spectator := as_spectator\<rparr>;
                  (m1, r1) = enter_room p ws r m
              in (m1,
                  (if redis_enabled e then [set_room_info r1] else []) @ broadcast_room e r1 (player_list m1 r1),
                  RoomJoined (joined_payload_of e r1 (map (serialize_player m1) (players r1)) (pid p) as_spectator)))"

subsection \<open>Join requests\<close>

text \<open>A request leaves the manager's dictionaries, and its room's when the room still exists.\<close>

definition drop_join_request :: "pending_join_request \<Rightarrow> string \<Rightarrow> manager \<Rightarrow> manager" where
  "drop_join_request req request_id m =
     (let m1 = m\<lparr>pending_join_requests := AList.delete request_id (pending_join_requests m),
                 ws_to_pending_request := (ws_to_pending_request m)(jr_websocket req := None)\<rparr>
      in case get_room m1 (jr_room_code req) of
           None \<Rightarrow> m1
         | Some r \<Rightarrow> put_room (r\<lparr>room_join_requests := AList.delete request_id (room_join_requests r)\<rparr>) m1)"

definition room_broadcast :: "env \<Rightarrow> manager \<Rightarrow> string \<Rightarrow> message \<Rightarrow> out list" where
  "room_broadcast e m c msg = (case get_room m c of None \<Rightarrow> [] | Some r \<Rightarrow> broadcast_room e r msg)"

definition handle_join_request_timeout :: "env \<Rightarrow> manager \<Rightarrow> string \<Rightarrow> manager \<times> out list" where
  "handle_join_request_timeout e m request_id =
     (case map_of (pending_join_requests m) request_id of
        None \<Rightarrow> (m, [])
      | Some req \<Rightarrow>
          let m1 = drop_join_request req request_id m
          in (m1, SendText (jr_websocket req) False (JoinRequestDeclined request_id Timeout)
                  # room_broadcast e m1 (jr_room_code req) (JoinRequestResolved request_id Timeout None None)))"

datatype join_identifier = ById string | BySocket websocket

text \<open>Which request an identifier names: a request id, the player id of its transport, or its socket.\<close>

definition find_join_request :: "manager \<Rightarrow> join_identifier \<Rightarrow> (string \<times> pending_join_request) option" where
  "find_join_request m ident =
     (case ident of
        ById s \<Rightarrow>
          (case map_of (pending_join_requests m) s of
             Some req \<Rightarrow> Some (s, req)
           | None \<Rightarrow> List.find (\<lambda>(rid, q). ws_player_id m (jr_websocket q) = Some s) (pending_join_requests m))
      | BySocket ws \<Rightarrow>
          (case ws_to_pending_request m ws of
             None \<Rightarrow> None
           | Some rid \<Rightarrow> if rid = [] then None
                         else map_option (\<lambda>q. (rid, q)) (map_of (pending_join_requests m) rid)))"

definition cancel_request_timeout :: "pending_join_request \<Rightarrow> manager \<Rightarrow> manager" where
  "cancel_request_timeout req m =
     (case get_room m (jr_room_code req) of
        None \<Rightarrow> m
      | Some r \<Rightarrow> put_room (cancel_if_pending (jr_timeout_task req) r) m)"

definition cancel_pending_join_request :: "env \<Rightarrow> manager \<Rightarrow> join_identifier \<Rightarrow> manager \<times> out list" where
  "cancel_pending_join_request e m ident =
     (let m0 = (case ident of ById _ \<Rightarrow> m
                | BySocket ws \<Rightarrow> m\<lparr>ws_to_pending_request := (ws_to_pending_request m)(ws := None)\<rparr>)
      in case find_join_request m ident of
           None \<Rightarrow> (m0, [])
         | Some (rid, req) \<Rightarrow>
             let m1 = drop_join_request req rid (cancel_request_timeout req m0)
             in (m1, room_broadcast e m1 (jr_room_code req)
                       (JoinRequestResolved (jr_request_id req) Cancelled (Some (jr_name req)) None)))"

definition accept_join_request ::
  "env \<Rightarrow> manager \<Rightarrow> pending_join_request \<Rightarrow> string \<Rightarrow> bool \<Rightarrow> room \<Rightarrow> manager \<times> out list \<times> message" where
  "accept_join_request e m req request_id spectator r =
     (let p = (new_player (uuid e 0) (jr_name req))
                \<lparr>websocket := Some (jr_websocket req), avatar := jr_avatar req, is_spectator := spectator\<rparr>;
          (m1, r1) = enter_room p (jr_websocket req) r m;
          resume = (connected_count r1 \<ge> 2 \<and> pending r1 (insufficient_players_task r1));
          r2 = (if resume then (cancel_if_pending (insufficient_players_task r1) r1)\<lparr>insufficient_players_task := None\<rparr> else r1);
          m2 = put_room r2 m1;
          m3 = (if is_virtual (jr_websocket req)
                then m2\<lparr>ws_player_id := (ws_player_id m2)(jr_websocket req \<mapsto> pid p)\<rparr> else m2);
          resolved = JoinRequestResolved request_id (if spectator then AcceptedSpectator else AcceptedPlayer) None (Some (pid p))
      in (m3,
          (if redis_enabled e then [set_room_info r2] else [])
          @ broadcast_room e r2 (player_list_in r2)
          @ broadcast_room e r2 (Announce (if spectator then JoinedAsSpectator (pname p) else JoinedTheGame (pname p)))
          @ [SendText (jr_websocket req) False
               (RoomJoined (joined_payload_of e r2 (map (serialize_player_in r2) (players r2)) (pid p) spectator))]
          @ broadcast_room e r2 resolved,
          resolved))"

definition respond_join_request ::
  "env \<Rightarrow> manager \<Rightarrow> string \<Rightarrow> string \<Rightarrow> string \<Rightarrow> manager \<times> out list \<times> message" where
  "respond_join_request e m host_player_id request_id action =
     (case map_of (pending_join_requests m) request_id of
        None \<Rightarrow> (m, [], Error REQUEST_NOT_FOUND)
      | Some req \<Rightarrow>
     (case get_room m (jr_room_code req) of
        None \<Rightarrow> (m, [], Error ROOM_NOT_FOUND)
      | Some r \<Rightarrow>
     if host_id r \<noteq> host_player_id then (m, [], Error PERMISSION_DENIED)
     else let settled = drop_join_request req request_id (cancel_request_timeout req m)
     in if action = ''decline''
     then (settled,
           SendText (jr_websocket req) False (JoinRequestDeclined request_id Declined)
             # room_broadcast e settled (code r) (JoinRequestResolved request_id Declined None None),
           JoinRequestResolved request_id Declined None None)
     else let spectator = (action = ''accept_spectator'')
     in if \<not> spectator \<and> players_full r then (m, [], Error ROOM_FULL)
     else if spectator \<and> spectators_full r then (m, [], Error ROOM_FULL)
     else case get_room settled (jr_room_code req) of
            None \<Rightarrow> (settled, [], Error ROOM_NOT_FOUND)
          | Some r' \<Rightarrow> accept_join_request e settled req request_id spectator r'))"

end
