(* ===== verification/Presence.thy ===== *)
theory Presence
  imports Vote_Kick Joining
begin

text \<open>
  Players who leave, disconnect and come back: \<open>remove_player\<close>, \<open>handle_disconnect\<close>,
  \<open>_reassign_host_if_disconnected\<close>, \<open>handle_reconnect\<close> and \<open>_permanently_remove_player\<close> of
  \<open>backend/room_manager.py\<close>.
\<close>

subsection \<open>Removal\<close>

text \<open>Host reassignment after a removal, with the first remaining player as a last resort.\<close>

definition replacement_candidates :: "room \<Rightarrow> player list" where
  "replacement_candidates r =
     (let eligible = connected_candidates r in if eligible = [] then take 1 (players r) else eligible)"

definition mgr_remove_player :: "env \<Rightarrow> manager \<Rightarrow> string \<Rightarrow> manager \<times> out list" where
  "mgr_remove_player e m0 player_id =
     (case find_room_by_player m0 player_id of
        (m, None) \<Rightarrow> (m, [])
      | (m, Some r) \<Rightarrow>
          let r1 = remove_player player_id r;
              m1 = pop_player player_id (put_room r1 m)
          in if players r1 = [] then delete_room e m1 (code r1)
             else let (r2, host_outs) = (if host_id r1 = player_id then change_host e (replacement_candidates r1) r1 else (r1, []))
                  in (put_room r2 m1, host_outs @ broadcast_room e r2 (player_list_in r2)))"

definition permanently_remove_player :: "env \<Rightarrow> manager \<Rightarrow> string \<Rightarrow> manager \<times> out list" where
  "permanently_remove_player e m0 player_id =
     (case find_room_by_player m0 player_id of
        (m, None) \<Rightarrow> (m, [])
      | (m, Some r) \<Rightarrow>
          let r1 = remove_player player_id r;
              m1 = pop_player player_id (put_room r1 m)
          in if players r1 = [] \<or> \<not> list_ex is_connected (players r1) then delete_room e m1 (code r1)
             else let (r2, host_outs) = (if host_id r1 = player_id then change_host e (replacement_candidates r1) r1 else (r1, []));
                      listed = broadcast_room e r2 (player_list_in r2);
                      (r3, end_outs) = (if in_game r2 \<and> connected_count r2 < 2
                                        then end_game_insufficient_players e r2 else (r2, []))
                  in (put_room r3 m1, host_outs @ listed @ end_outs))"

subsection \<open>Disconnection\<close>

definition mark_disconnected :: "env \<Rightarrow> player \<Rightarrow> player" where
  "mark_disconnected e p = p\<lparr>is_connected := False, disconnect_time := Some (now e), websocket := None\<rparr>"

text \<open>The part of \<open>handle_disconnect\<close> about a vote in the room; the room is stored on return.\<close>

definition disconnect_from_vote ::
  "env \<Rightarrow> bool \<Rightarrow> manager \<Rightarrow> room \<Rightarrow> string \<Rightarrow> (manager \<times> out list) res" where
  "disconnect_from_vote e ge m r player_id =
     (case active_vote_kicks m (code r) of
        None \<Rightarrow> Inr (put_room r m, [])
      | Some vk \<Rightarrow>
          let cancelled = cancel_if_pending (vk_timeout_task vk) r
          in if vk_target_id vk = player_id
             then Inr (drop_vote (code r) (put_room cancelled m),
                       broadcast_room e cancelled (VoteKickEnded player_id (vk_target_name vk) TargetDisconnected))
             else let votes = vk_votes vk - {player_id};
                      connected_voters = filter (\<lambda>p. is_connected p \<and> pid p \<noteq> vk_target_id vk) (players r)
                  in if length connected_voters < 2
                     then Inr (drop_vote (code r) (put_room cancelled m),
                               broadcast_room e cancelled (VoteKickEnded (vk_target_id vk) (vk_target_name vk) NotEnoughVoters))
                     else let new_req = majority (length connected_voters)
                          in if card votes \<ge> new_req
                             then let m1 = drop_vote (code r) (put_room cancelled m)
                                  in (case get_player cancelled (vk_target_id vk) of
                                        None \<Rightarrow> Inr (m1, [])
                                      | Some target \<Rightarrow> execute_vote_kick_passed e ge m1 cancelled target)
                             else Inr ((put_room r m)\<lparr>active_vote_kicks := (active_vote_kicks m)(code r \<mapsto> vk\<lparr>vk_votes := votes\<rparr>)\<rparr>,
                                       broadcast_room e r (VoteKickUpdated (vk_target_id vk) (card votes) new_req)))"

text \<open>The timers of a disconnected player: host reassignment after 3 s, removal after 120 s.\<close>

definition schedule_host_reassignment :: "env \<Rightarrow> string \<Rightarrow> room \<Rightarrow> room" where
  "schedule_host_reassignment e player_id r =
     (case get_player r player_id of
        None \<Rightarrow> r
      | Some p \<Rightarrow>
          let r1 = cancel_if_pending (host_reassign_task p) r;
              (t, r2) = create_task (now e + 3) (ReassignHost player_id) r1
          in upd_player player_id (\<lambda>q. q\<lparr>host_reassign_task := Some t\<rparr>) r2)"

definition schedule_cleanup :: "env \<Rightarrow> string \<Rightarrow> room \<Rightarrow> room" where
  "schedule_cleanup e player_id r =
     (let (t, r1) = create_task (now e + 120) (CleanupPlayer player_id) r
      in upd_player player_id (\<lambda>q. q\<lparr>cleanup_task := Some t\<rparr>) r1)"

text \<open>The in-game consequences of a disconnection.\<close>

definition disconnect_in_game :: "env \<Rightarrow> bool \<Rightarrow> room \<Rightarrow> string \<Rightarrow> (room \<times> out list) res" where
  "disconnect_in_game e ge r player_id =
     (if \<not> in_game r then Inr (r, [])
      else if (case turn r of None \<Rightarrow> False | Some ts \<Rightarrow> drawer_id ts = player_id)
      then if ge then end_turn e r DRAWER_DISCONNECTED else Inr (r, [])
      else if connected_active_count r < 2 then Inr (end_game_insufficient_players e r)
      else if everybody_guessed r \<and> ge then end_turn e r ALL_GUESSED
      else Inr (r, []))"

definition after_disconnect ::
  "env \<Rightarrow> bool \<Rightarrow> manager \<Rightarrow> room \<Rightarrow> string \<Rightarrow> (manager \<times> out list) res" where
  "after_disconnect e ge m r player_id =
     (if host_id r = player_id \<and> \<not> list_ex is_connected (players r) \<and> (state r = LOBBY \<or> state r = GAME_OVER)
      then Inr (delete_room e m (code r))
      else let r1 = (if host_id r = player_id \<and> list_ex is_connected (players r)
                     then schedule_host_reassignment e player_id r else r);
               r2 = schedule_cleanup e player_id r1;
               listed = broadcast_room e r2 (player_list_in r2)
           in res_bind (disconnect_in_game (later_draws e) ge r2 player_id)
                (\<lambda>(r3, outs). Inr (put_room r3 m, listed @ outs)))"

definition handle_disconnect :: "env \<Rightarrow> bool \<Rightarrow> manager \<Rightarrow> string \<Rightarrow> (manager \<times> out list) res" where
  "handle_disconnect e ge m0 player_id =
     (case find_room_by_player m0 player_id of
        (m, None) \<Rightarrow> Inr (cancel_pending_join_request e m (ById player_id))
      | (m, Some r) \<Rightarrow>
     (case get_player r player_id of
        None \<Rightarrow> Inr (m, [])
      | Some p \<Rightarrow>
          res_bind (disconnect_from_vote e ge m (upd_player player_id (mark_disconnected e) r) player_id) (\<lambda>(m1, vote_outs).
            case get_room m1 (code r) of
              None \<Rightarrow> Inr (m1, vote_outs)
            | Some r1 \<Rightarrow>
                res_bind (after_disconnect e ge m1 r1 player_id) (\<lambda>(m2, outs). Inr (m2, vote_outs @ outs)))))"

subsection \<open>Host reassignment\<close>

text \<open>The pending requests a new host is told about.\<close>

definition forward_requests :: "player \<Rightarrow> room \<Rightarrow> out list" where
  "forward_requests host r =
     (case websocket host of
        None \<Rightarrow> []
      | Some ws \<Rightarrow>
          map (\<lambda>(rid, q). SendText ws False (JoinRequestReceived (jr_request_id q) (jr_name q) (jr_avatar q) (code r)))
            (room_join_requests r)
          @ map (\<lambda>(rid, q). SendText ws False
                   (SpectatorRoleRequestReceived (sr_request_id q) (sr_player_id q) (sr_name q) (sr_avatar q) (code r)))
              (room_role_requests r))"

definition reassign_host_if_disconnected :: "env \<Rightarrow> manager \<Rightarrow> string \<Rightarrow> string \<Rightarrow> manager \<times> out list" where
  "reassign_host_if_disconnected e m c old_host_id =
     (case get_room m c of
        None \<Rightarrow> (m, [])
      | Some r \<Rightarrow>
          if host_id r \<noteq> old_host_id then (m, [])
          else if (case get_player r old_host_id of None \<Rightarrow> False | Some h \<Rightarrow> is_connected h) then (m, [])
          else case connected_candidates r of
                 [] \<Rightarrow> if state r = LOBBY \<or> state r = GAME_OVER then delete_room e m (code r) else (m, [])
               | new_host # _ \<Rightarrow>
                   let r1 = r\<lparr>host_id := pid new_host\<rparr>
                   in (put_room r1 m,
                       broadcast_room e r1 (HostChanged (pid new_host) (pname new_host) None)
                       @ broadcast_room e r1 (player_list_in r1)
                       @ broadcast_room e r1 (Announce (NowRoomHost (pname new_host)))
                       @ (if redis_enabled e then [set_room_info r1] else [])
                       @ forward_requests new_host r1))"

subsection \<open>Reconnection\<close>

definition reconnected_payload_of :: "room \<Rightarrow> player \<Rightarrow> reconnected_payload" where
  "reconnected_payload_of r p =
     \<lparr>r_room_code = code r, r_player_id = pid p, r_score = score p, r_is_host = (pid p = host_id r),
      r_players = map (serialize_player_in r) (players r), r_config = serialize_config (config r),
      r_state = state r, r_current_round = current_round r, r_host_id = host_id r,
      r_drawer_id = map_option drawer_id (turn r), r_hint = (case turn r of None \<Rightarrow> [] | Some ts \<Rightarrow> hint ts)\<rparr>"

text \<open>A disconnected player of that name, otherwise the first player of that name.\<close>

definition find_returning :: "room \<Rightarrow> string \<Rightarrow> player option" where
  "find_returning r name =
     (case List.find (\<lambda>p. pname p = name \<and> \<not> is_connected p) (players r) of
        Some p \<Rightarrow> Some p
      | None \<Rightarrow> List.find (\<lambda>p. pname p = name) (players r))"

definition restore_connection :: "websocket \<Rightarrow> string option \<Rightarrow> player \<Rightarrow> player" where
  "restore_connection ws av p =
     p\<lparr>is_connected := True, disconnect_time := None, websocket := Some ws,
       avatar := (if truthy av \<and> \<not> truthy (avatar p) then av else avatar p)\<rparr>"

definition clear_timers :: "string \<Rightarrow> player \<Rightarrow> room \<Rightarrow> room" where
  "clear_timers i p r =
     (let r1 = (if pending r (cleanup_task p)
                then upd_player i (\<lambda>q. q\<lparr>cleanup_task := None\<rparr>) (cancel_if_pending (cleanup_task p) r) else r)
      in if pending r1 (host_reassign_task p)
         then upd_player i (\<lambda>q. q\<lparr>host_reassign_task := None\<rparr>) (cancel_if_pending (host_reassign_task p) r1) else r1)"

definition reconnect_player ::
  "env \<Rightarrow> manager \<Rightarrow> room \<Rightarrow> string \<Rightarrow> websocket \<Rightarrow> string option \<Rightarrow> manager \<times> out list \<times> message" where
  "reconnect_player e m r name ws av =
     (case find_returning r name of
        None \<Rightarrow> (m, [], Error RECONNECT_FAILED)
      | Some p \<Rightarrow>
          let closed = (case websocket p of
                          Some old \<Rightarrow> if is_connected p \<and> old \<noteq> ws \<and> \<not> is_virtual old then [CloseSocket old] else []
                        | None \<Rightarrow> []);
              i = pid p;
              r1 = upd_player i (restore_connection ws av) (clear_timers i p r);
              resume = (connected_count r1 \<ge> 2 \<and> pending r1 (insufficient_players_task r1));
              r2 = (if resume then (cancel_if_pending (insufficient_players_task r1) r1)\<lparr>insufficient_players_task := None\<rparr> else r1);
              p' = restore_connection ws av p
          in (put_room r2 m,
              closed
              @ (if resume then broadcast_room e r2 ReconnectResumed else [])
              @ broadcast_room e r2 (PlayerReconnected i (pname p'))
              @ broadcast_room e r2 (player_list_in r2),
              Reconnected (reconnected_payload_of r2 p')))"

end
