(* ===== verification/Lobby.thy ===== *)
theory Lobby
  imports Presence
begin

text \<open>
  The lobby and the host's powers: \<open>update_settings\<close>, \<open>handle_rematch\<close>, \<open>transfer_host\<close>, \<open>kick_player\<close>,
  \<open>leave_room\<close>, \<open>toggle_ready\<close>, \<open>update_profile\<close> and \<open>start_game\<close> of \<open>backend/room_manager.py\<close>. The
  settings of a client are the JSON object it sent, so that the type checks of the code can be
  written out.
\<close>

subsection \<open>Settings\<close>

text \<open>\<open>isinstance(v, int)\<close> holds for booleans too.\<close>

definition as_int :: "json \<Rightarrow> int option" where
  "as_int v = (case v of JInt n \<Rightarrow> Some n | JBool b \<Rightarrow> Some (if b then 1 else 0) | _ \<Rightarrow> None)"

definition int_setting_ok :: "(string \<times> json) list \<Rightarrow> string \<Rightarrow> int \<Rightarrow> int \<Rightarrow> bool" where
  "int_setting_ok settings key lo hi =
     (case map_of settings key of
        None \<Rightarrow> True
      | Some v \<Rightarrow> (case as_int v of None \<Rightarrow> False | Some n \<Rightarrow> lo \<le> n \<and> n \<le> hi))"

definition int_setting :: "(string \<times> json) list \<Rightarrow> string \<Rightarrow> int \<Rightarrow> int" where
  "int_setting settings key old =
     (case map_of settings key of
        None \<Rightarrow> old
      | Some v \<Rightarrow> (case as_int v of None \<Rightarrow> old | Some n \<Rightarrow> n))"

fun digits :: "nat \<Rightarrow> string" where
  "digits n = (if n < 10 then [char_of (48 + n)] else digits (n div 10) @ [char_of (48 + n mod 10)])"

declare digits.simps [simp del]

definition py_str :: "json \<Rightarrow> string" where
  "py_str v =
     (case v of JStr s \<Rightarrow> s
      | JInt n \<Rightarrow> (if n < 0 then ''-'' else []) @ digits (nat \<bar>n\<bar>)
      | JBool b \<Rightarrow> (if b then ''True'' else ''False'')
      | _ \<Rightarrow> [])"

definition is_separator :: "char \<Rightarrow> bool" where
  "is_separator c \<longleftrightarrow> c = CHR '','' \<or> c = char_of (10 :: nat)"

text \<open>\<open>re.split\<close> at the pattern \<open>[\n,]+\<close>.\<close>

function split_separators :: "string \<Rightarrow> string list" where
  "split_separators s =
     takeWhile (\<lambda>c. \<not> is_separator c) s
     # (case dropWhile (\<lambda>c. \<not> is_separator c) s of
          [] \<Rightarrow> []
        | c # cs \<Rightarrow> split_separators (dropWhile is_separator cs))"
  by pat_completeness auto
termination
proof (relation "measure length", simp)
  fix s c cs
  assume "dropWhile (\<lambda>c. \<not> is_separator c) s = c # cs"
  then have "length cs < length s" by (metis length_Cons length_dropWhile_le Suc_le_eq)
  moreover have "length (dropWhile is_separator cs) \<le> length cs" by (rule length_dropWhile_le)
  ultimately show "(dropWhile is_separator cs, s) \<in> measure length" by simp
qed

declare split_separators.simps [simp del]

fun sanitize_words :: "string list \<Rightarrow> string list \<Rightarrow> string list" where
  "sanitize_words seen [] = []"
| "sanitize_words seen (w # ws) =
     (let w' = py_strip (take 40 w)
      in if w' \<noteq> [] \<and> py_lower w' \<notin> set seen
         then w' # sanitize_words (py_lower w' # seen) ws
         else sanitize_words seen ws)"

definition raw_word_list :: "json \<Rightarrow> string list" where
  "raw_word_list v =
     (case v of
        JStr s \<Rightarrow> map py_strip (split_separators s)
      | JList vs \<Rightarrow> map (\<lambda>x. py_strip (py_str x)) (filter (\<lambda>x. case x of JStr _ \<Rightarrow> True | JInt _ \<Rightarrow> True | JBool _ \<Rightarrow> True | _ \<Rightarrow> False) vs)
      | _ \<Rightarrow> [])"

definition new_password :: "json \<Rightarrow> string option \<Rightarrow> string option" where
  "new_password v old =
     (case v of
        JNull \<Rightarrow> None
      | JStr s \<Rightarrow> if py_strip s = [] then None else Some (take 64 (py_strip s))
      | _ \<Rightarrow> old)"

definition apply_settings :: "(string \<times> json) list \<Rightarrow> game_config \<Rightarrow> game_config" where
  "apply_settings settings c =
     c\<lparr>num_rounds := int_setting settings ''num_rounds'' (num_rounds c),
       turn_duration := int_setting settings ''turn_duration'' (turn_duration c),
       max_players := int_setting settings ''max_players'' (max_players c),
       custom_words := (case map_of settings ''custom_words'' of
                          None \<Rightarrow> custom_words c
                        | Some v \<Rightarrow> take 500 (sanitize_words [] (raw_word_list v))),
       password := (case map_of settings ''password'' of
                      None \<Rightarrow> password c | Some v \<Rightarrow> new_password v (password c))\<rparr>"

definition update_settings ::
  "env \<Rightarrow> manager \<Rightarrow> string \<Rightarrow> (string \<times> json) list \<Rightarrow> manager \<times> out list \<times> message" where
  "update_settings e m0 player_id settings =
     (case find_room_by_player m0 player_id of
        (m, None) \<Rightarrow> (m, [], Error GAME_NOT_ACTIVE)
      | (m, Some r) \<Rightarrow>
     if host_id r \<noteq> player_id then (m, [], Error PERMISSION_DENIED)
     else if state r \<noteq> LOBBY then (m, [], Error GAME_NOT_ACTIVE)
     else if \<not> int_setting_ok settings ''num_rounds'' 2 10 then (m, [], Error INVALID_SETTINGS)
     else if \<not> int_setting_ok settings ''turn_duration'' 30 180 then (m, [], Error INVALID_SETTINGS)
     else if \<not> int_setting_ok settings ''max_players'' 2 12 then (m, [], Error INVALID_SETTINGS)
     else let r1 = r\<lparr>config := apply_settings settings (config r)\<rparr>;
              msg = SettingsUpdated (serialize_config (config r1))
          in (put_room r1 m, broadcast_room e r1 msg, msg))"

subsection \<open>The host's powers\<close>

definition reset_player :: "player \<Rightarrow> player" where
  "reset_player p =
     p\<lparr>score := 0, has_guessed := False, streak := 0, max_streak := 0, correct_guesses_count := 0,
       fastest_guess_time := None, drawer_points_earned := 0, become_player_requests_count := 0\<rparr>"

definition handle_rematch :: "env \<Rightarrow> manager \<Rightarrow> string \<Rightarrow> manager \<times> out list \<times> message" where
  "handle_rematch e m0 player_id =
     (case find_room_by_player m0 player_id of
        (m, None) \<Rightarrow> (m, [], Error GAME_NOT_ACTIVE)
      | (m, Some r) \<Rightarrow>
     if host_id r \<noteq> player_id then (m, [], Error PERMISSION_DENIED)
     else if state r \<noteq> GAME_OVER then (m, [], Error GAME_NOT_ACTIVE)
     else let r1 = (upd_players reset_player r)
                     \<lparr>current_round := 0, drawer_index := 0, used_words := {}, word_pool := [], turn := None, state := LOBBY\<rparr>;
              m1 = put_room r1 m;
              msg = RematchStarted (map (serialize_player m1) (players r1)) (serialize_config (config r1))
          in (m1, broadcast_room e r1 msg, msg))"

definition transfer_host :: "env \<Rightarrow> manager \<Rightarrow> string \<Rightarrow> string \<Rightarrow> manager \<times> out list \<times> message" where
  "transfer_host e m0 host_player_id target_player_id =
     (case find_room_by_player m0 host_player_id of
        (m, None) \<Rightarrow> (m, [], Error GAME_NOT_ACTIVE)
      | (m, Some r) \<Rightarrow>
     if host_id r \<noteq> host_player_id then (m, [], Error PERMISSION_DENIED)
     else if target_player_id = host_player_id then (m, [], Error INVALID_ACTION)
     else case get_player r target_player_id of
        None \<Rightarrow> (m, [], Error PLAYER_NOT_FOUND)
      | Some target \<Rightarrow>
     if \<not> is_connected target then (m, [], Error PLAYER_DISCONNECTED)
     else if is_spectator target then (m, [], Error INVALID_TARGET)
     else let old_host_name = (case get_player r host_player_id of None \<Rightarrow> ''Host'' | Some h \<Rightarrow> pname h);
              r1 = r\<lparr>host_id := target_player_id\<rparr>
          in (put_room r1 m,
              (if redis_enabled e then [set_room_info r1] else [])
              @ broadcast_room e r1 (HostChanged target_player_id (pname target) (Some (host_player_id, old_host_name)))
              @ broadcast_room e r1 (player_list_in r1)
              @ forward_requests target r1,
              HostTransferred target_player_id (pname target)))"

definition kick_player :: "env \<Rightarrow> manager \<Rightarrow> string \<Rightarrow> string \<Rightarrow> manager \<times> out list \<times> message" where
  "kick_player e m0 host_player_id target_player_id =
     (case find_room_by_player m0 host_player_id of
        (m, None) \<Rightarrow> (m, [], Error GAME_NOT_ACTIVE)
      | (m, Some r) \<Rightarrow>
     if host_id r \<noteq> host_player_id then (m, [], Error PERMISSION_DENIED)
     else if state r \<noteq> LOBBY then (m, [], Error GAME_NOT_ACTIVE)
     else case get_player r target_player_id of
        None \<Rightarrow> (m, [], Error PLAYER_NOT_FOUND)
      | Some target \<Rightarrow>
     if target_player_id = host_id r then (m, [], Error PERMISSION_DENIED)
     else let r1 = remove_player target_player_id r;
              m1 = pop_player target_player_id (put_room r1 m)
          in (m1, send_to target (Kicked KickedByHost) @ broadcast_room e r1 (player_list m1 r1),
              PlayerKicked target_player_id))"

definition leave_room :: "env \<Rightarrow> manager \<Rightarrow> string \<Rightarrow> manager \<times> out list \<times> message" where
  "leave_room e m0 player_id =
     (case find_room_by_player m0 player_id of
        (m, None) \<Rightarrow> (m, [], Error GAME_NOT_ACTIVE)
      | (m, Some r) \<Rightarrow>
     if state r \<noteq> LOBBY then (m, [], Error GAME_NOT_ACTIVE)
     else let was_host = (host_id r = player_id);
              r1 = remove_player player_id r;
              m1 = pop_player player_id (put_room r1 m)
          in (case players r1 of
                [] \<Rightarrow> (case delete_room e m1 (code r1) of (m2, outs) \<Rightarrow> (m2, outs, LeftRoom))
              | first # _ \<Rightarrow>
                  let r2 = (if was_host then r1\<lparr>host_id := pid first\<rparr> else r1);
                      m2 = put_room r2 m1
                  in (m2, broadcast_room e r2 (player_list m2 r2), LeftRoom)))"

subsection \<open>Ready, profile, start\<close>

definition toggle_ready :: "env \<Rightarrow> manager \<Rightarrow> string \<Rightarrow> manager \<times> out list \<times> message" where
  "toggle_ready e m0 player_id =
     (case find_room_by_player m0 player_id of
        (m, None) \<Rightarrow> (m, [], Error GAME_NOT_ACTIVE)
      | (m, Some r) \<Rightarrow>
     if state r \<noteq> LOBBY then (m, [], Error GAME_NOT_ACTIVE)
     else case get_player r player_id of
        None \<Rightarrow> (m, [], Error PLAYER_NOT_FOUND)
      | Some p \<Rightarrow>
          let r1 = upd_player player_id (\<lambda>q. q\<lparr>is_ready := \<not> is_ready q\<rparr>) r;
              m1 = put_room r1 m
          in (m1, broadcast_room e r1 (player_list m1 r1), ReadyToggled (\<not> is_ready p)))"

definition name_taken :: "room \<Rightarrow> string \<Rightarrow> string \<Rightarrow> bool" where
  "name_taken r player_id clean_name =
     list_ex (\<lambda>other. pid other \<noteq> player_id \<and> py_lower (pname other) = py_lower clean_name) (players r)"

definition update_profile ::
  "env \<Rightarrow> manager \<Rightarrow> string \<Rightarrow> string option \<Rightarrow> string option \<Rightarrow> manager \<times> out list \<times> message" where
  "update_profile e m0 player_id name av =
     (case find_room_by_player m0 player_id of
        (m, None) \<Rightarrow> (m, [], Error GAME_NOT_ACTIVE)
      | (m, Some r) \<Rightarrow>
     if state r \<noteq> LOBBY then (m, [], Error GAME_NOT_ACTIVE)
     else case get_player r player_id of
        None \<Rightarrow> (m, [], Error PLAYER_NOT_FOUND)
      | Some p \<Rightarrow>
     let clean_name = (case name of None \<Rightarrow> pname p | Some n \<Rightarrow> py_strip n)
     in if name \<noteq> None \<and> \<not> (1 \<le> length clean_name \<and> length clean_name \<le> 20) then (m, [], Error INVALID_NAME)
     else if name \<noteq> None \<and> name_taken r player_id clean_name then (m, [], Error DUPLICATE_NAME)
     else let f = (\<lambda>q. q\<lparr>pname := (if name = None then pname q else clean_name),
                         avatar := (if av = None then avatar q else av)\<rparr>);
              r1 = upd_player player_id f r;
              m1 = put_room r1 m
          in (m1, broadcast_room e r1 (player_list m1 r1), ProfileUpdated (pid p) (pname (f p)) (avatar (f p))))"

definition prepare_player :: "player \<Rightarrow> player" where
  "prepare_player p = p\<lparr>is_ready := False, become_player_requests_count := 0\<rparr>"

definition start_game :: "env \<Rightarrow> manager \<Rightarrow> string \<Rightarrow> (manager \<times> out list \<times> message) res" where
  "start_game e m0 player_id =
     (case find_room_by_player m0 player_id of
        (m, None) \<Rightarrow> Inr (m, [], Error GAME_NOT_ACTIVE)
      | (m, Some r) \<Rightarrow>
     if host_id r \<noteq> player_id then Inr (m, [], Error PERMISSION_DENIED)
     else if state r \<noteq> LOBBY then Inr (m, [], Error GAME_NOT_ACTIVE)
     else if active_count r < 2 then Inr (m, [], Error INSUFFICIENT_PLAYERS)
     else let r1 = (upd_players prepare_player r)\<lparr>state := WORD_SELECTION, current_round := 1\<rparr>;
              r2 = (case List.find (\<lambda>k. connected_active (players r1 ! k)) [0..<length (players r1)] of
                      None \<Rightarrow> r1 | Some k \<Rightarrow> r1\<lparr>drawer_index := k\<rparr>)
          in res_bind (py_nth (players r2) (drawer_index r2)) (\<lambda>drawer.
               let msg = GameStarted (pid drawer) (current_round r2) (num_rounds (config r2))
               in Inr (put_room r2 m, broadcast_room e r2 msg, msg)))"

end
