(* ===== verification/Spectators.thy ===== *)
theory Spectators
  imports Joining
begin

text \<open>
  A spectator asks to become a player: \<open>request_become_player\<close>, its expiry, the host's answer and the
  spectator's withdrawal in \<open>backend/room_manager.py\<close>.
\<close>

definition requests_remaining :: "player \<Rightarrow> int" where
  "requests_remaining p = max 0 (2 - become_player_requests_count p)"

definition request_become_player :: "env \<Rightarrow> manager \<Rightarrow> string \<Rightarrow> manager \<times> out list \<times> message" where
  "request_become_player e m0 player_id =
     (case find_room_by_player m0 player_id of
        (m, None) \<Rightarrow> (m, [], Error ROOM_NOT_FOUND)
      | (m, Some r) \<Rightarrow>
     (case get_player r player_id of
        None \<Rightarrow> (m, [], Error PLAYER_NOT_FOUND)
      | Some p \<Rightarrow>
     if \<not> is_connected p then (m, [], Error PLAYER_NOT_FOUND)
     else if \<not> is_spectator p then (m, [], Error ALREADY_PLAYER)
     else if become_player_requests_count p \<ge> 2 then (m, [], Error MAX_REQUESTS_EXCEEDED)
     else if list_ex (\<lambda>(rid, q). sr_player_id q = player_id) (room_role_requests r)
     then (m, [], Error REQUEST_ALREADY_PENDING)
     else if players_full r then (m, [], Error ROOM_FULL)
     else let p1 = p\<lparr>become_player_requests_count := become_player_requests_count p + 1\<rparr>;
              r1 = upd_player player_id (\<lambda>q. q\<lparr>become_player_requests_count := become_player_requests_count q + 1\<rparr>) r;
              request_id = uuid e 0;
              (t, r2) = create_task (now e + 45) (ExpireRoleRequest request_id player_id) r1;
              req = \<lparr>sr_request_id = request_id, sr_room_code = code r, sr_player_id = player_id, sr_name = pname p,
                     sr_avatar = avatar p, sr_created_at = now e, sr_timeout_task = Some t\<rparr>;
              r3 = r2\<lparr>room_role_requests := AList.update request_id req (room_role_requests r2)\<rparr>;
              m1 = (put_room r3 m)\<lparr>pending_role_requests := AList.update request_id req (pending_role_requests m)\<rparr>;
              told = (case get_player r3 (host_id r3) of
                        None \<Rightarrow> []
                      | Some host \<Rightarrow> send_to host (SpectatorRoleRequestReceived request_id (pid p) (pname p) (avatar p) (code r)))
     in (m1, told, BecomePlayerRequestPending request_id (requests_remaining p1))))"

definition drop_role_request :: "string \<Rightarrow> room \<Rightarrow> manager \<Rightarrow> manager \<times> room" where
  "drop_role_request request_id r m =
     (let r1 = r\<lparr>room_role_requests := AList.delete request_id (room_role_requests r)\<rparr>
      in ((put_room r1 m)\<lparr>pending_role_requests := AList.delete request_id (pending_role_requests m)\<rparr>, r1))"

text \<open>The coroutine \<open>_expire_request\<close>, in the room \<open>c\<close> it was created for.\<close>

definition expire_role_request :: "env \<Rightarrow> manager \<Rightarrow> string \<Rightarrow> string \<Rightarrow> string \<Rightarrow> manager \<times> out list" where
  "expire_role_request e m c request_id player_id =
     (case get_room m c of
        None \<Rightarrow> (m, [])
      | Some r \<Rightarrow>
          let (m1, r1) = drop_role_request request_id r m;
              told = (if map_of (pending_role_requests m) request_id = None then []
                      else case get_player r player_id of
                        None \<Rightarrow> []
                      | Some p \<Rightarrow> send_to p (SpectatorRoleRequestDeclined request_id Expired (requests_remaining p)))
          in (m1, told @ broadcast_room e r1 (SpectatorRoleRequestResolved (Some request_id) Expired None)))"

definition promote :: "player \<Rightarrow> player" where
  "promote p = p\<lparr>is_spectator := False, score := 0, has_guessed := False\<rparr>"

definition respond_spectator_role_request ::
  "env \<Rightarrow> manager \<Rightarrow> string \<Rightarrow> string \<Rightarrow> string \<Rightarrow> manager \<times> out list \<times> message" where
  "respond_spectator_role_request e m host_player_id request_id action =
     (case map_of (pending_role_requests m) request_id of
        None \<Rightarrow> (m, [], Error REQUEST_NOT_FOUND)
      | Some req \<Rightarrow>
     (case get_room m (sr_room_code req) of
        None \<Rightarrow> (m, [], Error ROOM_NOT_FOUND)
      | Some r \<Rightarrow>
     if host_id r \<noteq> host_player_id then (m, [], Error PERMISSION_DENIED)
     else let (m1, r1) = drop_role_request request_id (cancel_if_pending (sr_timeout_task req) r) m;
              player = get_player r1 (sr_player_id req)
     in if action = ''decline''
     then let told = (case player of None \<Rightarrow> []
                      | Some p \<Rightarrow> send_to p (SpectatorRoleRequestDeclined request_id Declined (requests_remaining p)));
              resolved = SpectatorRoleRequestResolved (Some request_id) Declined None
          in (m1, told @ broadcast_room e r1 resolved, resolved)
     else case player of
        None \<Rightarrow> (m1, [], Error PLAYER_NOT_FOUND)
      | Some p \<Rightarrow>
     if \<not> is_connected p then (m1, [], Error PLAYER_NOT_FOUND)
     else if players_full r1 then (m1, [], Error ROOM_FULL)
     else let r2 = upd_player (sr_player_id req) promote r1;
              resolved = SpectatorRoleRequestResolved (Some request_id) Accepted (Some (pid p))
     in (put_room r2 m1,
         broadcast_room e r2 (player_list_in r2) @ broadcast_room e r2 (Announce (JoinedAsActivePlayer (pname p)))
           @ broadcast_room e r2 resolved,
         resolved)))"

definition cancel_spectator_role_request ::
  "env \<Rightarrow> manager \<Rightarrow> string \<Rightarrow> string option \<Rightarrow> manager \<times> out list \<times> message" where
  "cancel_spectator_role_request e m0 player_id request_id =
     (case find_room_by_player m0 player_id of
        (m, None) \<Rightarrow> (m, [], SpectatorRoleRequestResolved None Cancelled None)
      | (m, Some r) \<Rightarrow>
     (case List.find (\<lambda>(rid, q). sr_player_id q = player_id \<and> (request_id = None \<or> Some rid = request_id))
             (room_role_requests r) of
        None \<Rightarrow> (m, [], SpectatorRoleRequestResolved None Cancelled None)
      | Some (rid, req) \<Rightarrow>
          let (m1, r1) = drop_role_request rid (cancel_if_pending (sr_timeout_task req) r) m;
              resolved = SpectatorRoleRequestResolved (Some (sr_request_id req)) Cancelled None
          in (m1, broadcast_room e r1 resolved, resolved)))"

end
