(* ===== verification/Workers.thy ===== *)
theory Workers
  imports Lobby Spectators
begin

text \<open>
  Rooms across workers: snapshots, draining, joining and reconnecting to a room that another worker
  owns or has drained, and the remote calls and relayed broadcasts a worker receives
  (\<open>backend/room_manager.py\<close>). What Redis answers (the owner of a room, a snapshot, the reply to a
  remote call) is an argument; the waits for these answers are not interleaved with other handlers.
\<close>

subsection \<open>Snapshots\<close>

definition player_snapshot_of :: "player \<Rightarrow> player_snapshot" where
  "player_snapshot_of p =
     \<lparr>ps_id = pid p, ps_name = pname p, ps_score = score p, ps_has_guessed = has_guessed p,
      ps_is_connected = is_connected p, ps_is_ready = is_ready p, ps_avatar = avatar p,
      ps_disconnect_time = disconnect_time p\<rparr>"

definition turn_snapshot_of :: "turn_state \<Rightarrow> turn_snapshot" where
  "turn_snapshot_of ts =
     \<lparr>ts_drawer_id = drawer_id ts, ts_word = word ts, ts_hint = hint ts, ts_start_time = start_time ts,
      ts_word_choices = word_choices ts, ts_guess_order = guess_order ts\<rparr>"

definition snapshot_room :: "env \<Rightarrow> room \<Rightarrow> room_snapshot" where
  "snapshot_room e r =
     \<lparr>sn_code = code r, sn_host_id = host_id r, sn_state = state r, sn_current_round = current_round r,
      sn_drawer_index = drawer_index r, sn_config = serialize_config (config r),
      sn_password = (if truthy (password (config r)) then password (config r) else None),
      sn_used_words = used_words r, sn_word_pool = word_pool r,
      sn_players = map player_snapshot_of (players r),
      sn_turn = map_option turn_snapshot_of (turn r), sn_time = now e\<rparr>"

definition restore_player :: "env \<Rightarrow> player_snapshot \<Rightarrow> player" where
  "restore_player e s =
     (new_player (ps_id s) (ps_name s))
       \<lparr>score := ps_score s, has_guessed := ps_has_guessed s, is_connected := False, is_ready := ps_is_ready s,
        avatar := ps_avatar s,
        disconnect_time := (case ps_disconnect_time s of None \<Rightarrow> Some (now e)
                            | Some t \<Rightarrow> if t = 0 then Some (now e) else Some t)\<rparr>"

definition restore_turn :: "env \<Rightarrow> nat \<Rightarrow> turn_snapshot \<Rightarrow> turn_state" where
  "restore_turn e oid s =
     \<lparr>turn_oid = oid, drawer_id = ts_drawer_id s, word = ts_word s, hint = ts_hint s, start_time = now e,
      word_choices = ts_word_choices s, timer_task = None, hint_task_40 = None, hint_task_70 = None,
      guess_order = ts_guess_order s, theme = None\<rparr>"

definition restored_room :: "env \<Rightarrow> room_snapshot \<Rightarrow> room" where
  "restored_room e s =
     (let cfg = \<lparr>num_rounds = c_num_rounds (sn_config s), turn_duration = c_turn_duration (sn_config s),
                 max_players = c_max_players (sn_config s), custom_words = c_custom_words (sn_config s),
                 password = sn_password s\<rparr>;
          r = (new_room (sn_code s) (sn_host_id s) cfg)
                \<lparr>state := sn_state s, current_round := sn_current_round s, drawer_index := sn_drawer_index s,
                 used_words := sn_used_words s, word_pool := sn_word_pool s,
                 players := map (restore_player e) (sn_players s)\<rparr>
      in if sn_state s = PLAYING \<or> sn_state s = WORD_SELECTION
         then r\<lparr>turn := map_option (restore_turn e (next_oid r)) (sn_turn s), next_oid := next_oid r + 1\<rparr>
         else r)"

definition restore_room :: "env \<Rightarrow> manager \<Rightarrow> room_snapshot \<Rightarrow> manager \<times> room" where
  "restore_room e m s =
     (let r = restored_room e s;
          m1 = foldl (\<lambda>m p. register_player (pid p) (code r) m) m (players r)
      in (put_room r m1, r))"

definition drain_active_rooms :: "env \<Rightarrow> manager \<Rightarrow> out list \<times> nat" where
  "drain_active_rooms e m =
     (let local_rooms = map snd (filter (\<lambda>(c, r). \<not> is_proxy r) (rooms m))
      in (concat (map (\<lambda>r. room_broadcast e m (code r) (WorkerDraining (code r))
                           @ [SaveRoomSnapshot (code r) (snapshot_room e r)]) local_rooms),
          length local_rooms))"

subsection \<open>Joining and reconnecting\<close>

definition join_room_remote ::
  "env \<Rightarrow> manager \<Rightarrow> string \<Rightarrow> string \<Rightarrow> websocket \<Rightarrow> string \<Rightarrow> string option \<Rightarrow> bool \<Rightarrow> string option
   \<Rightarrow> message option \<Rightarrow> manager \<times> out list \<times> message" where
  "join_room_remote e m c name ws owner av as_spectator pw reply =
     (let player_id = uuid e 0;
          request_id = uuid e 1;
          asked = [SubscribeRoom c,
                   PublishRpc owner (RpcJoinRoom
                     \<lparr>jrpc_request_id = request_id, jrpc_room_code = c, jrpc_player_id = player_id,
                      jrpc_player_name = name, jrpc_avatar = av, jrpc_as_spectator = as_spectator,
                      jrpc_password = pw\<rparr>)]
      in case reply of
           None \<Rightarrow> (m, asked @ [UnsubscribeRoom c], Error ROOM_NOT_FOUND)
         | Some (Error code') \<Rightarrow> (m, asked @ [UnsubscribeRoom c], Error code')
         | Some response \<Rightarrow>
             let host = (case response of RoomJoined pl \<Rightarrow> j_host_id pl | _ \<Rightarrow> []);
                 m1 = (if get_room m c = None
                       then put_room ((new_room c host default_config)\<lparr>is_proxy := True\<rparr>) m else m);
                 p = (new_player player_id name)\<lparr>websocket := Some ws, avatar := av\<rparr>
             in (case get_room m1 c of
                   None \<Rightarrow> (m1, asked, response)
                 | Some proxy \<Rightarrow>
                     (register_player player_id c (put_room (add_player p proxy) m1), asked, response)))"

definition adopt_snapshot :: "env \<Rightarrow> manager \<Rightarrow> string \<Rightarrow> room_snapshot \<Rightarrow> manager \<times> room \<times> out list" where
  "adopt_snapshot e m c s =
     (let (m1, r) = restore_room e m s
      in (m1, r, [DeleteRoomSnapshot c, RegisterRoomWithTtl c, RegisterRoomWorker c, SubscribeRoom c]))"

text \<open>\<open>owners\<close>: the answers to the attempts to find the owner, of which there are at most five.\<close>

definition join_elsewhere ::
  "env \<Rightarrow> manager \<Rightarrow> string \<Rightarrow> string \<Rightarrow> websocket \<Rightarrow> string option \<Rightarrow> bool \<Rightarrow> string option
   \<Rightarrow> string option list \<Rightarrow> message option \<Rightarrow> room_snapshot option \<Rightarrow> manager \<times> out list \<times> message" where
  "join_elsewhere e m name c ws av as_spectator pw owners reply snapshot =
     (if \<not> redis_enabled e then (m, [], Error ROOM_NOT_FOUND)
      else case List.find (\<lambda>w. w \<noteq> None) (take 5 owners) of
        Some (Some owner) \<Rightarrow> join_room_remote e m c name ws owner av as_spectator pw reply
      | _ \<Rightarrow>
          (case snapshot of
             None \<Rightarrow> (m, [], Error ROOM_NOT_FOUND)
           | Some s \<Rightarrow>
               let (m1, r, adopted) = adopt_snapshot e m c s;
                   (m2, outs, msg) = join_room_local e m1 r name ws av as_spectator pw
               in (m2, adopted @ outs, msg)))"

definition join_room ::
  "env \<Rightarrow> manager \<Rightarrow> string \<Rightarrow> string \<Rightarrow> websocket \<Rightarrow> string option \<Rightarrow> bool \<Rightarrow> string option
   \<Rightarrow> string option list \<Rightarrow> message option \<Rightarrow> room_snapshot option \<Rightarrow> manager \<times> out list \<times> message" where
  "join_room e m name c ws av as_spectator pw owners reply snapshot =
     (if \<not> valid_name name then (m, [], Error INVALID_NAME)
      else case get_room m c of
        None \<Rightarrow> join_elsewhere e m name c ws av as_spectator pw owners reply snapshot
      | Some r \<Rightarrow>
          if is_proxy r then join_elsewhere e m name c ws av as_spectator pw owners reply snapshot
          else join_room_local e m r name ws av as_spectator pw)"

definition handle_reconnect ::
  "env \<Rightarrow> manager \<Rightarrow> string \<Rightarrow> string \<Rightarrow> websocket \<Rightarrow> string option \<Rightarrow> room_snapshot option
   \<Rightarrow> manager \<times> out list \<times> message" where
  "handle_reconnect e m name c ws av snapshot =
     (case get_room m c of
        Some r \<Rightarrow> reconnect_player e m r name ws av
      | None \<Rightarrow>
          if \<not> redis_enabled e then (m, [], Error ROOM_NOT_FOUND)
          else case snapshot of
            None \<Rightarrow> (m, [], Error ROOM_NOT_FOUND)
          | Some s \<Rightarrow>
              let (m1, r, adopted) = adopt_snapshot e m c s;
                  (m2, outs, msg) = reconnect_player e m1 r name ws av
              in (m2, adopted @ outs, msg))"

subsection \<open>Messages from other workers\<close>

definition rpc_join_room :: "env \<Rightarrow> manager \<Rightarrow> join_rpc \<Rightarrow> manager \<times> out list \<times> message" where
  "rpc_join_room e m q =
     (case get_room m (jrpc_room_code q) of
        None \<Rightarrow> (m, [], Error ROOM_NOT_FOUND)
      | Some r \<Rightarrow>
     let provided_pwd = py_strip (case jrpc_password q of None \<Rightarrow> [] | Some s \<Rightarrow> s);
         room_pwd = password (config r)
     in if truthy room_pwd \<and> provided_pwd = [] then (m, [], Error PASSWORD_REQUIRED)
     else if truthy room_pwd \<and> Some provided_pwd \<noteq> room_pwd then (m, [], Error INVALID_PASSWORD)
     else if state r \<noteq> LOBBY \<and> \<not> jrpc_as_spectator q then (m, [], Error ROOM_IN_PROGRESS)
     else if \<not> jrpc_as_spectator q \<and> players_full r then (m, [], Error ROOM_FULL)
     else if jrpc_as_spectator q \<and> spectators_full r then (m, [], Error ROOM_FULL)
     else let p = (new_player (jrpc_player_id q) (jrpc_player_name q))
                    \<lparr>avatar := jrpc_avatar q, is_spectator := jrpc_as_spectator q, is_connected := True\<rparr>;
              r1 = add_player p r;
              m1 = register_player (pid p) (code r) (put_room r1 m)
          in (m1, set_room_info r1 # broadcast_room e r1 (player_list m1 r1),
              RoomJoined (joined_payload_of e r1 (map (serialize_player m1) (players r1)) (pid p) (jrpc_as_spectator q))))"

definition handle_rpc_join :: "env \<Rightarrow> manager \<Rightarrow> join_rpc \<Rightarrow> manager \<times> out list" where
  "handle_rpc_join e m q =
     (let (m1, outs, response) = rpc_join_room e m q
      in (m1, outs @ (if jrpc_request_id q = [] then [] else [SetRpcResponse (jrpc_request_id q) response])))"

text \<open>A broadcast relayed by the worker that owns the room goes to the sockets of this worker.\<close>

definition handle_room_relay :: "manager \<Rightarrow> string \<Rightarrow> message option \<Rightarrow> out list" where
  "handle_room_relay m c msg =
     (case (msg, get_room m c) of
        (Some msg', Some r) \<Rightarrow> concat (map (\<lambda>p. send_to p msg') (players r))
      | _ \<Rightarrow> [])"

definition handle_remote_disconnect ::
  "env \<Rightarrow> manager \<Rightarrow> string \<Rightarrow> string \<Rightarrow> (manager \<times> out list) res" where
  "handle_remote_disconnect e m c player_id =
     (if c = [] \<or> player_id = [] then Inr (m, [])
      else case get_room m c of
        None \<Rightarrow> Inr (m, [])
      | Some r \<Rightarrow> if get_player r player_id = None then Inr (m, []) else handle_disconnect e True m player_id)"

end
