(* ===== verification/Dispatch.thy ===== *)
theory Dispatch
  imports Workers
begin

text \<open>
  From a client's message to the operation it asks for: \<open>_handle_local_message\<close> of
  \<open>backend/ws_handler.py\<close> for browser sockets, \<open>_dispatch_message\<close> of \<open>backend/grpc_server.py\<close> for
  players behind the gateway, and \<open>_handle_forwarded_message\<close> of \<open>backend/room_manager.py\<close> for players
  of another worker.
\<close>

subsection \<open>Building blocks\<close>

definition reply :: "websocket \<Rightarrow> message \<Rightarrow> out list" where
  "reply ws msg = [SendText ws False msg]"

definition is_error :: "message \<Rightarrow> bool" where
  "is_error msg = (case msg of Error _ \<Rightarrow> True | _ \<Rightarrow> False)"

definition reply_error :: "websocket \<Rightarrow> message \<Rightarrow> out list" where
  "reply_error ws msg = (if is_error msg then reply ws msg else [])"

text \<open>\<open>room = _find_room_by_player(player_id)\<close>, then an operation on the room if there is one.\<close>

definition with_room ::
  "manager \<Rightarrow> string \<Rightarrow> (room \<Rightarrow> (room \<times> out list) res) \<Rightarrow> (manager \<times> out list) res" where
  "with_room m0 player_id f =
     (case find_room_by_player m0 player_id of
        (m, None) \<Rightarrow> Inr (m, [])
      | (m, Some r) \<Rightarrow> res_bind (f r) (\<lambda>(r', outs). Inr (put_room r' m, outs)))"

definition tell_room :: "env \<Rightarrow> manager \<Rightarrow> string \<Rightarrow> (room \<Rightarrow> bool) \<Rightarrow> message \<Rightarrow> (manager \<times> out list) res" where
  "tell_room e m player_id allowed msg =
     with_room m player_id (\<lambda>r. Inr (r, if allowed r then broadcast_room e r msg else []))"

definition drawing :: "string \<Rightarrow> room \<Rightarrow> bool" where
  "drawing player_id r = (case turn r of None \<Rightarrow> False | Some ts \<Rightarrow> drawer_id ts = player_id)"

definition anybody :: "room \<Rightarrow> bool" where
  "anybody r = True"

text \<open>Chat is echoed in the lobby and handled by the engine elsewhere.\<close>

definition chat_in_room :: "env \<Rightarrow> string \<Rightarrow> string \<Rightarrow> room \<Rightarrow> room \<times> out list" where
  "chat_in_room e player_id text r =
     (if state r = LOBBY
      then (r, case get_player r player_id of
                 None \<Rightarrow> []
               | Some p \<Rightarrow> broadcast_room e r (ChatMessage (pname p) text False))
      else handle_chat e r player_id text)"

definition react_in_room :: "env \<Rightarrow> string \<Rightarrow> string \<Rightarrow> room \<Rightarrow> room \<times> out list" where
  "react_in_room e player_id emoji r =
     (r, case get_player r player_id of None \<Rightarrow> [] | Some p \<Rightarrow> broadcast_room e r (Reaction (pname p) emoji))"

definition type_in_room :: "env \<Rightarrow> string \<Rightarrow> bool \<Rightarrow> room \<Rightarrow> room \<times> out list" where
  "type_in_room e player_id typing r =
     (r, case get_player r player_id of None \<Rightarrow> [] | Some p \<Rightarrow> broadcast_room e r (Typing player_id (pname p) typing))"

text \<open>\<open>end_game_now\<close> by the host.\<close>

definition end_game_now :: "env \<Rightarrow> room \<Rightarrow> room \<times> out list" where
  "end_game_now e r =
     (let r1 = (if pending r (insufficient_players_task r)
                then (cancel_if_pending (insufficient_players_task r) r)\<lparr>insufficient_players_task := None\<rparr> else r)
      in end_game_insufficient_players_immediate e r1)"

definition end_game_request :: "env \<Rightarrow> manager \<Rightarrow> websocket \<Rightarrow> string \<Rightarrow> (manager \<times> out list) res" where
  "end_game_request e m ws player_id =
     with_room m player_id (\<lambda>r.
       Inr (if host_id r = player_id then end_game_now e r else (r, reply ws (Error PERMISSION_DENIED))))"

definition answered :: "(message \<Rightarrow> out list) \<Rightarrow> manager \<times> out list \<times> message \<Rightarrow> manager \<times> out list" where
  "answered f res = (case res of (m, outs, msg) \<Rightarrow> (m, outs @ f msg))"

text \<open>\<open>start_game\<close>, then the first turn.\<close>

definition start_game_request ::
  "env \<Rightarrow> (message \<Rightarrow> out list) \<Rightarrow> manager \<Rightarrow> string \<Rightarrow> (manager \<times> out list) res" where
  "start_game_request e f m player_id =
     res_bind (start_game e m player_id) (\<lambda>(m1, outs, msg).
       if is_error msg then Inr (m1, outs @ f msg)
       else res_bind (with_room m1 player_id (start_turn e)) (\<lambda>(m2, outs2). Inr (m2, outs @ outs2)))"

definition vote_answered ::
  "(message \<Rightarrow> out list) \<Rightarrow> (manager \<times> out list \<times> message) res \<Rightarrow> (manager \<times> out list) res" where
  "vote_answered f res = res_bind res (\<lambda>x. Inr (answered f x))"

subsection \<open>Browser sockets\<close>

text \<open>The effects of \<open>_handle_local_message\<close>, then its result: whether the player left the room.\<close>

definition local_message ::
  "env \<Rightarrow> manager \<Rightarrow> websocket \<Rightarrow> string \<Rightarrow> client_msg \<Rightarrow> (manager \<times> out list) res" where
  "local_message e m ws i msg =
     (case msg of
        CmUpdateSettings s \<Rightarrow> Inr (answered (reply_error ws) (update_settings e m i s))
      | CmStartGame \<Rightarrow> start_game_request e (reply_error ws) m i
      | CmSelectWord w \<Rightarrow> with_room m i (\<lambda>r. handle_word_selection e r i w)
      | CmGuess t \<Rightarrow> with_room m i (\<lambda>r. handle_guess e r i t)
      | CmChat t \<Rightarrow> with_room m i (\<lambda>r. Inr (chat_in_room e i t r))
      | CmStroke d \<Rightarrow> tell_room e m i (drawing i) (Stroke d)
      | CmHighlighter d \<Rightarrow> tell_room e m i (drawing i) (Highlighter d)
      | CmShape d \<Rightarrow> tell_room e m i (drawing i) (Shape d)
      | CmFill d \<Rightarrow> tell_room e m i (drawing i) (Fill d)
      | CmClearCanvas \<Rightarrow> tell_room e m i (drawing i) ClearCanvas
      | CmUndo d \<Rightarrow> tell_room e m i (drawing i) (Undo d)
      | CmKickPlayer t \<Rightarrow> Inr (answered (reply_error ws) (kick_player e m i t))
      | CmVoteKick t \<Rightarrow> vote_answered (reply_error ws) (start_vote_kick e True m i t)
      | CmVoteKickCast v \<Rightarrow> vote_answered (reply_error ws) (cast_vote_kick e True m i v)
      | CmTransferHost t \<Rightarrow> Inr (answered (reply ws) (transfer_host e m i t))
      | CmRespondJoinRequest q a \<Rightarrow> Inr (answered (reply ws) (respond_join_request e m i q a))
      | CmRequestBecomePlayer \<Rightarrow> Inr (answered (reply_error ws) (request_become_player e m i))
      | CmRespondSpectatorRole q a \<Rightarrow> Inr (answered (reply_error ws) (respond_spectator_role_request e m i q a))
      | CmCancelSpectatorRole q \<Rightarrow> Inr (answered (reply_error ws) (cancel_spectator_role_request e m i q))
      | CmLeaveRoom _ \<Rightarrow> Inr (answered (reply ws) (leave_room e m i))
      | CmReaction em \<Rightarrow> with_room m i (\<lambda>r. Inr (react_in_room e i em r))
      | CmTyping b \<Rightarrow> with_room m i (\<lambda>r. Inr (type_in_room e i b r))
      | CmToggleReady \<Rightarrow> Inr (answered (reply_error ws) (toggle_ready e m i))
      | CmUpdateProfile n a \<Rightarrow> Inr (answered (reply_error ws) (update_profile e m i n a))
      | CmRematch \<Rightarrow> Inr (answered (reply_error ws) (handle_rematch e m i))
      | CmEndGameNow \<Rightarrow> end_game_request e m ws i
      | CmClientDisconnected \<Rightarrow> Inr (m, reply ws (Error UNKNOWN_MESSAGE))
      | CmUnknown _ \<Rightarrow> Inr (m, reply ws (Error UNKNOWN_MESSAGE)))"

definition left_by :: "env \<Rightarrow> manager \<Rightarrow> string \<Rightarrow> client_msg \<Rightarrow> bool" where
  "left_by e m i msg =
     (case msg of CmLeaveRoom _ \<Rightarrow> \<not> is_error (snd (snd (leave_room e m i))) | _ \<Rightarrow> False)"

definition handle_local_message ::
  "env \<Rightarrow> manager \<Rightarrow> websocket \<Rightarrow> string \<Rightarrow> client_msg \<Rightarrow> (manager \<times> out list \<times> bool) res" where
  "handle_local_message e m ws i msg =
     res_bind (local_message e m ws i msg) (\<lambda>(m', outs). Inr (m', outs, left_by e m i msg))"

subsection \<open>Players behind the gateway\<close>

definition dispatch_message ::
  "env \<Rightarrow> manager \<Rightarrow> websocket \<Rightarrow> string \<Rightarrow> client_msg \<Rightarrow> (manager \<times> out list) res" where
  "dispatch_message e m ws i msg =
     (case msg of
        CmUpdateSettings s \<Rightarrow> Inr (answered (reply_error ws) (update_settings e m i s))
      | CmStartGame \<Rightarrow> start_game_request e (reply_error ws) m i
      | CmSelectWord w \<Rightarrow> with_room m i (\<lambda>r. handle_word_selection e r i w)
      | CmGuess t \<Rightarrow> with_room m i (\<lambda>r. handle_guess e r i t)
      | CmChat t \<Rightarrow> with_room m i (\<lambda>r. Inr (chat_in_room e i t r))
      | CmStroke d \<Rightarrow> tell_room e m i anybody (Stroke d)
      | CmHighlighter d \<Rightarrow> tell_room e m i (drawing i) (Highlighter d)
      | CmShape d \<Rightarrow> tell_room e m i (drawing i) (Shape d)
      | CmFill d \<Rightarrow> tell_room e m i anybody (Fill d)
      | CmClearCanvas \<Rightarrow> tell_room e m i anybody ClearCanvas
      | CmUndo d \<Rightarrow> tell_room e m i (drawing i) (Undo d)
      | CmKickPlayer t \<Rightarrow> Inr (answered (reply_error ws) (kick_player e m i t))
      | CmVoteKick t \<Rightarrow> vote_answered (reply_error ws) (start_vote_kick e True m i t)
      | CmVoteKickCast v \<Rightarrow> vote_answered (reply_error ws) (cast_vote_kick e True m i v)
      | CmTransferHost t \<Rightarrow> Inr (answered (reply ws) (transfer_host e m i t))
      | CmRespondJoinRequest q a \<Rightarrow> Inr (answered (reply ws) (respond_join_request e m i q a))
      | CmRequestBecomePlayer \<Rightarrow> Inr (answered (reply ws) (request_become_player e m i))
      | CmRespondSpectatorRole q a \<Rightarrow> Inr (answered (reply ws) (respond_spectator_role_request e m i q a))
      | CmCancelSpectatorRole q \<Rightarrow> Inr (answered (reply ws) (cancel_spectator_role_request e m i q))
      | CmLeaveRoom disconnected \<Rightarrow>
          if disconnected then handle_disconnect e True m i
          else Inr (answered (reply ws) (leave_room e m i))
      | CmReaction em \<Rightarrow> with_room m i (\<lambda>r. Inr (react_in_room e i em r))
      | CmTyping b \<Rightarrow> with_room m i (\<lambda>r. Inr (type_in_room e i b r))
      | CmToggleReady \<Rightarrow> Inr (answered (reply_error ws) (toggle_ready e m i))
      | CmUpdateProfile n a \<Rightarrow> Inr (answered (reply_error ws) (update_profile e m i n a))
      | CmRematch \<Rightarrow> Inr (answered (reply_error ws) (handle_rematch e m i))
      | CmEndGameNow \<Rightarrow> end_game_request e m ws i
      | CmClientDisconnected \<Rightarrow> handle_disconnect e True m i
      | CmUnknown _ \<Rightarrow> Inr (m, reply ws (Error UNKNOWN_MESSAGE)))"

subsection \<open>Players of another worker\<close>

definition no_reply :: "message \<Rightarrow> out list" where
  "no_reply msg = []"

definition in_this_room :: "manager \<Rightarrow> room \<Rightarrow> (room \<times> out list) res \<Rightarrow> (manager \<times> out list) res" where
  "in_this_room m r res = res_bind res (\<lambda>(r', outs). Inr (put_room r' m, outs))"

definition forwarded_start_game :: "env \<Rightarrow> manager \<Rightarrow> string \<Rightarrow> string \<Rightarrow> (manager \<times> out list) res" where
  "forwarded_start_game e m c i =
     res_bind (start_game e m i) (\<lambda>(m1, outs, msg).
       if is_error msg then Inr (m1, outs)
       else case get_room m1 c of
              None \<Rightarrow> Inr (m1, outs)
            | Some r \<Rightarrow> res_bind (in_this_room m1 r (start_turn e r)) (\<lambda>(m2, outs2). Inr (m2, outs @ outs2)))"

definition handle_forwarded_message ::
  "env \<Rightarrow> manager \<Rightarrow> string \<Rightarrow> string \<Rightarrow> client_msg \<Rightarrow> (manager \<times> out list) res" where
  "handle_forwarded_message e m c i msg =
     (if c = [] \<or> i = [] then Inr (m, [])
      else case get_room m c of
        None \<Rightarrow> Inr (m, [])
      | Some r \<Rightarrow>
     (case get_player r i of
        None \<Rightarrow> Inr (m, [])
      | Some p \<Rightarrow>
     (case msg of
        CmGuess t \<Rightarrow> in_this_room m r (handle_guess e r i t)
      | CmChat t \<Rightarrow> in_this_room m r (Inr (chat_in_room e i t r))
      | CmStroke d \<Rightarrow> Inr (m, broadcast_room e r (Stroke d))
      | CmFill d \<Rightarrow> Inr (m, broadcast_room e r (Fill d))
      | CmClearCanvas \<Rightarrow> Inr (m, broadcast_room e r ClearCanvas)
      | CmToggleReady \<Rightarrow> Inr (answered no_reply (toggle_ready e m i))
      | CmUpdateProfile n a \<Rightarrow> Inr (answered no_reply (update_profile e m i n a))
      | CmStartGame \<Rightarrow> forwarded_start_game e m c i
      | CmSelectWord w \<Rightarrow> in_this_room m r (handle_word_selection e r i w)
      | CmReaction em \<Rightarrow> Inr (m, broadcast_room e r (Reaction (pname p) em))
      | CmTyping b \<Rightarrow> Inr (m, broadcast_room e r (Typing i (pname p) b))
      | CmLeaveRoom _ \<Rightarrow> Inr (mgr_remove_player e m i)
      | CmKickPlayer t \<Rightarrow> Inr (answered no_reply (kick_player e m i t))
      | CmUpdateSettings s \<Rightarrow> Inr (answered no_reply (update_settings e m i s))
      | CmRematch \<Rightarrow> Inr (answered no_reply (handle_rematch e m i))
      | CmEndGameNow \<Rightarrow> if host_id r = i then in_this_room m r (Inr (end_game_now e r)) else Inr (m, [])
      | CmRespondJoinRequest q a \<Rightarrow> Inr (answered no_reply (respond_join_request e m i q a))
      | CmRequestBecomePlayer \<Rightarrow> Inr (answered no_reply (request_become_player e m i))
      | CmRespondSpectatorRole q a \<Rightarrow> Inr (answered no_reply (respond_spectator_role_request e m i q a))
      | CmCancelSpectatorRole q \<Rightarrow> Inr (answered no_reply (cancel_spectator_role_request e m i q))
      | _ \<Rightarrow> Inr (m, []))))"

subsection \<open>Messages received through Redis\<close>

definition handle_rpc :: "env \<Rightarrow> manager \<Rightarrow> rpc \<Rightarrow> (manager \<times> out list) res" where
  "handle_rpc e m q =
     (case q of
        RpcJoinRoom j \<Rightarrow> Inr (handle_rpc_join e m j)
      | RpcForwardMessage c i msg \<Rightarrow> handle_forwarded_message e m c i msg
      | RpcPlayerDisconnected c i \<Rightarrow> handle_remote_disconnect e m c i)"

datatype redis_data = RedisRpc rpc | RedisRoom string "message option" \<comment> \<open>the room of the channel, \<open>message\<close>\<close>

definition handle_redis_message :: "env \<Rightarrow> manager \<Rightarrow> redis_data \<Rightarrow> (manager \<times> out list) res" where
  "handle_redis_message e m d =
     (case d of
        RedisRpc q \<Rightarrow> handle_rpc e m q
      | RedisRoom c msg \<Rightarrow> Inr (m, handle_room_relay m c msg))"

end
