(* ===== verification/Connections.thy ===== *)
theory Connections
  imports Dispatch
begin

text \<open>
  The life of a connection: the message loop and the final clean-up of \<open>websocket_handler\<close> in
  \<open>backend/ws_handler.py\<close>, and \<open>_process_inbound\<close>, \<open>_rebind_transport\<close> and \<open>_cleanup_stream\<close> of
  \<open>backend/grpc_server.py\<close>. A client's message is given parsed: its type with the fields the code
  reads. The local variables of a handler are the record \<open>connection\<close>, those of a stream the record
  \<open>stream\<close>. What Redis answers is the record \<open>answers\<close>. A handler that raises leaves the manager
  unchanged: the only one that can raise does so before its first change.
\<close>

subsection \<open>Inputs\<close>

datatype (plugins only: code) client_input =
    InCreateRoom string "string option" "string option" "int option"
  | InJoinRoom string string "string option" bool "string option"
  | InReconnect string string "string option"
  | InCancelJoinRequest "string option"
  | InPong
  | InGame client_msg

text \<open>What arrives on a browser socket; a text of more than 65536 characters is not parsed.\<close>

datatype (plugins only: code) frame = Oversized | NotJson | Parsed client_input

record answers =
  owners :: "string option list" \<comment> \<open>\<open>get_room_worker_with_ttl\<close>, attempt by attempt\<close>
  room_worker :: "string option" \<comment> \<open>\<open>get_room_worker\<close>\<close>
  rpc_reply :: "message option"
  saved :: "room_snapshot option"

record connection =
  conn_player :: "string option"
  conn_room :: "string option"

definition no_identity :: connection where
  "no_identity = \<lparr>conn_player = None, conn_room = None\<rparr>"

definition identity :: "string \<Rightarrow> string \<Rightarrow> connection" where
  "identity i c = \<lparr>conn_player = Some i, conn_room = Some c\<rparr>"

text \<open>\<open>known_types\<close>: the types an unidentified client is told to identify for.\<close>

definition known_type :: "client_msg \<Rightarrow> bool" where
  "known_type msg =
     (case msg of CmVoteKick _ \<Rightarrow> False | CmVoteKickCast _ \<Rightarrow> False | CmTransferHost _ \<Rightarrow> False
      | CmClientDisconnected \<Rightarrow> False | CmUnknown _ \<Rightarrow> False | _ \<Rightarrow> True)"

definition join_ident :: "websocket \<Rightarrow> string option \<Rightarrow> join_identifier" where
  "join_ident ws q = (case q of None \<Rightarrow> BySocket ws | Some s \<Rightarrow> if s = [] then BySocket ws else ById s)"

subsection \<open>Browser sockets\<close>

definition is_proxy_connection :: "manager \<Rightarrow> string option \<Rightarrow> bool" where
  "is_proxy_connection m c =
     (case c of None \<Rightarrow> False
      | Some c' \<Rightarrow> if c' = [] then False else case get_room m c' of None \<Rightarrow> False | Some r \<Rightarrow> is_proxy r)"

definition forward_to_owner :: "env \<Rightarrow> answers \<Rightarrow> string \<Rightarrow> string \<Rightarrow> client_msg \<Rightarrow> out list" where
  "forward_to_owner e a c i msg =
     (if redis_enabled e
      then case room_worker a of None \<Rightarrow> [] | Some w \<Rightarrow> [PublishRpc w (RpcForwardMessage c i msg)]
      else [])"

definition notify_owner_disconnect :: "env \<Rightarrow> answers \<Rightarrow> string \<Rightarrow> string \<Rightarrow> out list" where
  "notify_owner_disconnect e a c i =
     (if redis_enabled e
      then case room_worker a of None \<Rightarrow> [] | Some w \<Rightarrow> [PublishRpc w (RpcPlayerDisconnected c i)]
      else [])"

text \<open>A client accepted into a running game is identified by its socket.\<close>

definition identify :: "manager \<Rightarrow> websocket \<Rightarrow> connection \<Rightarrow> connection" where
  "identify m ws k =
     (if conn_player k = None
      then case ws_to_player m ws of None \<Rightarrow> k | Some (i, c) \<Rightarrow> identity i c
      else k)"

definition ws_game_message ::
  "env \<Rightarrow> answers \<Rightarrow> manager \<Rightarrow> websocket \<Rightarrow> connection \<Rightarrow> client_msg \<Rightarrow> manager \<times> connection \<times> out list" where
  "ws_game_message e a m ws k0 msg =
     (let k = identify m ws k0
      in case conn_player k of
           None \<Rightarrow> (m, k, reply ws (Error (if known_type msg then GAME_NOT_ACTIVE else UNKNOWN_MESSAGE)))
         | Some i \<Rightarrow>
             if is_proxy_connection m (conn_room k)
             then (m, k, forward_to_owner e a (the (conn_room k)) i msg)
             else case handle_local_message e m ws i msg of
                    Inl _ \<Rightarrow> (m, k, reply ws (Error INTERNAL_ERROR))
                  | Inr (m', outs, left) \<Rightarrow> (m', if left then no_identity else k, outs))"

text \<open>One iteration of the message loop: the dispatch of a parsed message, and the checks before it.\<close>

definition ws_input ::
  "env \<Rightarrow> answers \<Rightarrow> manager \<Rightarrow> websocket \<Rightarrow> connection \<Rightarrow> client_input
   \<Rightarrow> (manager \<times> connection \<times> out list) option" where
  "ws_input e a m ws k input =
     (case input of
        InCreateRoom name av pw mp \<Rightarrow>
          (case create_room e m name ws av pw mp of
             None \<Rightarrow> None
           | Some (m', outs, msg) \<Rightarrow>
               Some (m', case msg of RoomCreated c i _ _ \<Rightarrow> identity i c | _ \<Rightarrow> k, outs @ reply ws msg))
      | InJoinRoom name c av sp pw \<Rightarrow>
          (case join_room e m name c ws av sp pw (owners a) (rpc_reply a) (saved a) of
             (m', outs, msg) \<Rightarrow>
               Some (m', case msg of RoomJoined pl \<Rightarrow> identity (j_player_id pl) (j_room_code pl) | _ \<Rightarrow> k,
                     outs @ reply ws msg))
      | InReconnect name c av \<Rightarrow>
          (case handle_reconnect e m name c ws av (saved a) of
             (m', outs, msg) \<Rightarrow>
               Some (m', case msg of Reconnected pl \<Rightarrow> identity (r_player_id pl) (r_room_code pl) | _ \<Rightarrow> k,
                     outs @ reply ws msg))
      | InCancelJoinRequest q \<Rightarrow>
          (case cancel_pending_join_request e m (join_ident ws q) of (m', outs) \<Rightarrow> Some (m', k, outs))
      | InPong \<Rightarrow> Some (m, k, [])
      | InGame msg \<Rightarrow> Some (ws_game_message e a m ws k msg))"

definition ws_receive ::
  "env \<Rightarrow> answers \<Rightarrow> manager \<Rightarrow> websocket \<Rightarrow> connection \<Rightarrow> frame \<Rightarrow> (manager \<times> connection \<times> out list) option" where
  "ws_receive e a m ws k fr =
     (case fr of
        Oversized \<Rightarrow> Some (m, k, reply ws (Error MESSAGE_TOO_LARGE))
      | NotJson \<Rightarrow> Some (m, k, reply ws (Error INVALID_MESSAGE))
      | Parsed input \<Rightarrow> ws_input e a m ws k input)"

text \<open>The \<open>finally\<close> block of \<open>websocket_handler\<close>.\<close>

definition leave_proxy_room :: "manager \<Rightarrow> string \<Rightarrow> string \<Rightarrow> manager \<times> out list" where
  "leave_proxy_room m c i =
     (case get_room m c of
        None \<Rightarrow> (m, [])
      | Some r \<Rightarrow>
          let r1 = remove_player i r;
              m1 = pop_player i (put_room r1 m)
          in if players r1 = [] then (m1\<lparr>rooms := AList.delete c (rooms m1)\<rparr>, [UnsubscribeRoom c]) else (m1, []))"

definition ws_close :: "env \<Rightarrow> answers \<Rightarrow> manager \<Rightarrow> websocket \<Rightarrow> connection \<Rightarrow> manager \<times> out list" where
  "ws_close e a m0 ws k0 =
     (let k = identify m0 ws k0;
          (m1, cancelled) = (if conn_player k = None then cancel_pending_join_request e m0 (BySocket ws) else (m0, []));
          m = m1\<lparr>ws_to_player := (ws_to_player m1)(ws := None)\<rparr>
      in case conn_player k of
           None \<Rightarrow> (m, cancelled)
         | Some i \<Rightarrow>
             if is_proxy_connection m (conn_room k)
             then (case leave_proxy_room m (the (conn_room k)) i of
                     (m', outs) \<Rightarrow> (m', notify_owner_disconnect e a (the (conn_room k)) i @ outs))
             else (case handle_disconnect e True m i of Inl _ \<Rightarrow> (m, []) | Inr res \<Rightarrow> res))"

subsection \<open>Streams of the gateway\<close>

record stream =
  send_queue :: nat
  transports :: "(string \<times> websocket) list"
  player_rooms :: "(string \<times> string) list"
  transport_room :: "websocket \<rightharpoonup> string" \<comment> \<open>the attribute \<open>room_code\<close> of a transport\<close>
  next_transport :: nat

definition new_stream :: "nat \<Rightarrow> nat \<Rightarrow> stream" where
  "new_stream q n =
     \<lparr>send_queue = q, transports = [], player_rooms = [], transport_room = Map.empty, next_transport = n\<rparr>"

text \<open>The fields \<open>player_id\<close> and \<open>room_code\<close> of a result's payload.\<close>

definition result_player :: "message \<Rightarrow> string option" where
  "result_player msg =
     (case msg of RoomCreated c i _ _ \<Rightarrow> Some i | RoomJoined pl \<Rightarrow> Some (j_player_id pl)
      | Reconnected pl \<Rightarrow> Some (r_player_id pl) | JoinRequestResolved _ _ _ i \<Rightarrow> i
      | SpectatorRoleRequestResolved _ _ i \<Rightarrow> i | _ \<Rightarrow> None)"

definition result_room :: "message \<Rightarrow> string option" where
  "result_room msg =
     (case msg of RoomCreated c i _ _ \<Rightarrow> Some c | RoomJoined pl \<Rightarrow> Some (j_room_code pl)
      | Reconnected pl \<Rightarrow> Some (r_room_code pl) | JoinRequestPending _ c \<Rightarrow> Some c | _ \<Rightarrow> None)"

definition room_attr :: "stream \<Rightarrow> websocket \<Rightarrow> string" where
  "room_attr s t = (case transport_room s t of None \<Rightarrow> [] | Some c \<Rightarrow> c)"

definition set_room_attr :: "websocket \<Rightarrow> string \<Rightarrow> stream \<Rightarrow> stream" where
  "set_room_attr t c s =
     (if c \<noteq> [] \<and> room_attr s t = [] then s\<lparr>transport_room := (transport_room s)(t \<mapsto> c)\<rparr> else s)"

text \<open>Create or retrieve the transport of a player.\<close>

definition ensure_transport :: "manager \<Rightarrow> stream \<Rightarrow> string \<Rightarrow> string \<Rightarrow> manager \<times> stream \<times> websocket" where
  "ensure_transport m s i c =
     (case map_of (transports s) i of
        Some t \<Rightarrow>
          (m, if c \<noteq> [] \<and> room_attr s t = []
              then (set_room_attr t c s)\<lparr>player_rooms := AList.update i c (player_rooms s)\<rparr> else s, t)
      | None \<Rightarrow>
          let t = VirtualTransport (next_transport s) (send_queue s)
          in (m\<lparr>ws_player_id := (ws_player_id m)(t \<mapsto> i)\<rparr>,
              s\<lparr>transports := AList.update i t (transports s), player_rooms := AList.update i c (player_rooms s),
                transport_room := (transport_room s)(t \<mapsto> c), next_transport := next_transport s + 1\<rparr>, t))"

definition rebind_transport :: "manager \<Rightarrow> stream \<Rightarrow> websocket \<Rightarrow> message \<Rightarrow> manager \<times> stream" where
  "rebind_transport m s t result =
     (if is_error result then (m, s)
      else let s1 = (case result_room result of None \<Rightarrow> s | Some c \<Rightarrow> set_room_attr t c s)
           in case result_player result of
                None \<Rightarrow> (m, s1)
              | Some i \<Rightarrow>
                  if i = [] \<or> ws_player_id m t = Some i then (m, s1)
                  else (m\<lparr>ws_player_id := (ws_player_id m)(t \<mapsto> i)\<rparr>, s1\<lparr>transports := AList.update i t (transports s1)\<rparr>))"

text \<open>The result \<open>_dispatch_message\<close> returns for a game message.\<close>

definition game_result :: "env \<Rightarrow> manager \<Rightarrow> string \<Rightarrow> client_msg \<Rightarrow> message option" where
  "game_result e m i msg =
     (case msg of
        CmRespondJoinRequest q act \<Rightarrow> Some (snd (snd (respond_join_request e m i q act)))
      | CmRequestBecomePlayer \<Rightarrow> Some (snd (snd (request_become_player e m i)))
      | CmRespondSpectatorRole q act \<Rightarrow> Some (snd (snd (respond_spectator_role_request e m i q act)))
      | CmCancelSpectatorRole q \<Rightarrow> Some (snd (snd (cancel_spectator_role_request e m i q)))
      | _ \<Rightarrow> None)"

definition identity_reply ::
  "stream \<Rightarrow> websocket \<Rightarrow> manager \<times> out list \<times> message \<Rightarrow> manager \<times> stream \<times> out list \<times> message option" where
  "identity_reply s t res =
     (case res of (m, outs, msg) \<Rightarrow>
        case rebind_transport m s t msg of (m', s') \<Rightarrow> (m', s', outs @ reply t msg, Some msg))"

text \<open>\<open>_dispatch_message\<close> with its identity messages; \<open>Inl\<close> is an exception.\<close>

definition dispatch_input ::
  "env \<Rightarrow> answers \<Rightarrow> manager \<Rightarrow> stream \<Rightarrow> websocket \<Rightarrow> string \<Rightarrow> string \<Rightarrow> client_input
   \<Rightarrow> (manager \<times> stream \<times> out list \<times> message option) res option" where
  "dispatch_input e a m s t i c input =
     (case input of
        InCreateRoom name av pw mp \<Rightarrow> map_option (\<lambda>res. Inr (identity_reply s t res)) (create_room e m name t av pw mp)
      | InJoinRoom name rc av sp pw \<Rightarrow>
          Some (Inr (identity_reply s t
            (join_room e m name (if rc = [] then c else rc) t av sp pw (owners a) (rpc_reply a) (saved a))))
      | InReconnect name rc av \<Rightarrow>
          Some (Inr (identity_reply s t (handle_reconnect e m name (if rc = [] then c else rc) t av (saved a))))
      | InCancelJoinRequest q \<Rightarrow>
          (case cancel_pending_join_request e m (join_ident t q) of (m', outs) \<Rightarrow> Some (Inr (m', s, outs, None)))
      | InGame msg \<Rightarrow>
          Some (res_bind (dispatch_message e m t i msg) (\<lambda>(m', outs). Inr (m', s, outs, game_result e m i msg)))
      | InPong \<Rightarrow> Some (Inr (m, s, reply t (Error UNKNOWN_MESSAGE), None)))"

text \<open>The bookkeeping after a dispatch: the id a result assigns is kept for the clean-up.\<close>

definition track_result :: "stream \<Rightarrow> websocket \<Rightarrow> string \<Rightarrow> string \<Rightarrow> message option \<Rightarrow> stream" where
  "track_result s t i c result =
     (case result of
        None \<Rightarrow> s
      | Some msg \<Rightarrow>
          let assigned_room = (case result_room msg of None \<Rightarrow> c | Some c' \<Rightarrow> c');
              s1 = (case result_player msg of
                      None \<Rightarrow> s
                    | Some j \<Rightarrow> if j = [] \<or> j = i then s
                                else s\<lparr>player_rooms := AList.update j assigned_room (player_rooms s),
                                       transports := AList.update j t (transports s)\<rparr>)
          in set_room_attr t assigned_room s1)"

text \<open>One message of the gateway: the envelope's player and room, and the client's message if it can be parsed.\<close>

definition grpc_receive ::
  "env \<Rightarrow> answers \<Rightarrow> manager \<Rightarrow> stream \<Rightarrow> string \<Rightarrow> string \<Rightarrow> client_input option
   \<Rightarrow> (manager \<times> stream \<times> out list) option" where
  "grpc_receive e a m0 s0 i c input =
     (case input of
        None \<Rightarrow> Some (m0, s0, [PutError (send_queue s0) c i INVALID_PAYLOAD])
      | Some inp \<Rightarrow>
          let (m, s, t) = ensure_transport m0 s0 i c
          in case dispatch_input e a m s t i c inp of
               None \<Rightarrow> None
             | Some (Inl _) \<Rightarrow> Some (m, s, [PutError (send_queue s0) c i INTERNAL_ERROR])
             | Some (Inr (m', s', outs, result)) \<Rightarrow> Some (m', track_result s' t i c result, outs))"

fun cleanup_players :: "env \<Rightarrow> manager \<Rightarrow> string list \<Rightarrow> manager \<times> out list" where
  "cleanup_players e m [] = (m, [])"
| "cleanup_players e m (i # is) =
     (case handle_disconnect e True m i of
        Inl _ \<Rightarrow> cleanup_players (later_draws e) m is
      | Inr (m', outs) \<Rightarrow>
          (case cleanup_players (later_draws e) m' is of (m'', outs') \<Rightarrow> (m'', outs @ outs')))"

definition cleanup_stream :: "env \<Rightarrow> manager \<Rightarrow> stream \<Rightarrow> manager \<times> stream \<times> out list" where
  "cleanup_stream e m s =
     (case cleanup_players e m (map fst (transports s)) of
        (m', outs) \<Rightarrow> (m', s\<lparr>transports := [], player_rooms := []\<rparr>, outs))"

end
