(* ===== verification/Turn_Order.thy ===== *)
theory Turn_Order
  imports Turn_Engine
begin

text \<open>
  Who draws next. \<open>next_turn_spec\<close> states the rotation directly: the next connected active player
  later in the list in the same round, otherwise the first one of the next round, otherwise nobody.
  \<open>advance_turn_or_round\<close> with its index arithmetic and skip loop implements it.
\<close>

subsection \<open>The rotation\<close>

definition first_eligible :: "room \<Rightarrow> nat \<Rightarrow> nat option" where
  "first_eligible r lo = List.find (\<lambda>k. connected_active (players r ! k)) [lo..<length (players r)]"

definition next_turn_spec :: "room \<Rightarrow> (nat \<times> int) option" where
  "next_turn_spec r =
     (case first_eligible r (drawer_index r + 1) of
        Some j \<Rightarrow> Some (j, current_round r)
      | None \<Rightarrow> if current_round r + 1 > num_rounds (config r) then None
                else map_option (\<lambda>j. (j, current_round r + 1)) (first_eligible r 0))"

lemma find_upt_Some:
  "List.find P [lo..<n] = Some j \<longleftrightarrow> lo \<le> j \<and> j < n \<and> P j \<and> (\<forall>k. lo \<le> k \<and> k < j \<longrightarrow> \<not> P k)"
proof (induction "n - lo" arbitrary: lo)
  case (Suc m)
  then have "lo < n" "m = n - Suc lo" by auto
  with Suc(1) [of "Suc lo"] show ?case
    by (auto simp: upt_conv_Cons) (metis Suc_le_eq le_neq_implies_less le_antisym not_less_eq_eq)+
qed auto

lemma find_upt_None: "List.find P [lo..<n] = None \<longleftrightarrow> (\<forall>k. lo \<le> k \<and> k < n \<longrightarrow> \<not> P k)"
  by (auto simp: find_None_iff)

lemma first_eligible_Some:
  "first_eligible r lo = Some j \<longleftrightarrow>
     lo \<le> j \<and> j < length (players r) \<and> connected_active (players r ! j)
     \<and> (\<forall>k. lo \<le> k \<and> k < j \<longrightarrow> \<not> connected_active (players r ! k))"
  by (simp add: first_eligible_def find_upt_Some)

lemma first_eligible_None:
  "first_eligible r lo = None \<longleftrightarrow> (\<forall>k. lo \<le> k \<and> k < length (players r) \<longrightarrow> \<not> connected_active (players r ! k))"
  by (simp add: first_eligible_def find_upt_None)

lemma first_eligible_cong: "players r = players r' \<Longrightarrow> first_eligible r = first_eligible r'"
  by (rule ext) (simp add: first_eligible_def)

lemma first_eligible_exists: "0 < connected_active_count r \<Longrightarrow> \<exists>j. first_eligible r 0 = Some j"
proof -
  assume "0 < connected_active_count r"
  then obtain p where "p \<in> set (players r)" "connected_active p"
    by (auto simp: connected_active_count_def filter_empty_conv)
  then show ?thesis
    by (metis first_eligible_None in_set_conv_nth le0 not_None_eq)
qed

lemma round_index_commute:
  "r\<lparr>current_round := c, drawer_index := d\<rparr> = r\<lparr>drawer_index := d, current_round := c\<rparr>"
  by (cases r) simp

subsection \<open>The skip loop\<close>

lemma skip_to_drawer_found:
  assumes "first_eligible r (drawer_index r) = Some j" and "j - drawer_index r < n"
  shows "skip_to_drawer n r = Inr (r\<lparr>drawer_index := j\<rparr>, Drawer_Found)"
  using assms
proof (induction n arbitrary: r)
  case (Suc n)
  note j = Suc.prems(1) [unfolded first_eligible_Some]
  let ?i = "drawer_index r"
  show ?case
  proof (cases "connected_active (players r ! ?i)")
    case True
    with j have "j = ?i" by (metis le_neq_implies_less le_refl)
    with True j show ?thesis by (simp add: py_nth_def connected_active_def)
  next
    case False
    with j have "?i < j" by (metis le_neq_implies_less)
    let ?r = "r\<lparr>drawer_index := Suc ?i\<rparr>"
    have "first_eligible ?r (drawer_index ?r) = Some j"
      using j \<open>?i < j\<close> by (auto simp: first_eligible_Some)
    moreover have "j - drawer_index ?r < n" using Suc.prems(2) \<open>?i < j\<close> by simp
    ultimately have "skip_to_drawer n ?r = Inr (?r\<lparr>drawer_index := j\<rparr>, Drawer_Found)" by (rule Suc.IH)
    then show ?thesis using False j \<open>?i < j\<close> by (auto simp: py_nth_def connected_active_def Let_def)
  qed
qed simp

lemma skip_to_drawer_wrap:
  assumes "first_eligible r (drawer_index r) = None" and "drawer_index r < length (players r)"
    and "length (players r) - drawer_index r \<le> n"
  shows "skip_to_drawer n r =
    (let r' = r\<lparr>drawer_index := 0, current_round := current_round r + 1\<rparr>
     in if current_round r + 1 > num_rounds (config r) then Inr (r', Rounds_Complete)
        else skip_to_drawer (n - (length (players r) - drawer_index r)) r')"
  using assms
proof (induction n arbitrary: r)
  case (Suc n)
  let ?i = "drawer_index r" and ?n = "length (players r)"
  from Suc.prems have no: "\<not> connected_active (players r ! ?i)" by (auto simp: first_eligible_None)
  show ?case
  proof (cases "Suc ?i < ?n")
    case True
    let ?r = "r\<lparr>drawer_index := Suc ?i\<rparr>"
    have "first_eligible ?r (drawer_index ?r) = None" using Suc.prems(1) by (auto simp: first_eligible_None)
    moreover have "length (players ?r) - drawer_index ?r \<le> n" using Suc.prems(3) by simp
    ultimately have "skip_to_drawer n ?r =
        (let r' = ?r\<lparr>drawer_index := 0, current_round := current_round ?r + 1\<rparr>
         in if current_round ?r + 1 > num_rounds (config ?r) then Inr (r', Rounds_Complete)
            else skip_to_drawer (n - (length (players ?r) - drawer_index ?r)) r')"
      using True by (intro Suc.IH) simp_all
    moreover have "n - (?n - Suc ?i) = Suc n - (?n - ?i)" using Suc.prems(2) by simp
    ultimately show ?thesis using no True Suc.prems(2) by (auto simp: py_nth_def connected_active_def Let_def)
  next
    case False
    with Suc.prems(2) have "?n - ?i = 1" by simp
    with no False Suc.prems(2) show ?thesis by (auto simp: py_nth_def connected_active_def Let_def)
  qed
qed simp

lemma advance_rotation:
  assumes "2 \<le> connected_active_count r" and "current_round r \<le> num_rounds (config r)"
  shows "advance_turn_or_round e r =
    (case next_turn_spec r of
       None \<Rightarrow> Inr (finish_game e (r\<lparr>drawer_index := 0, current_round := current_round r + 1\<rparr>))
     | Some (j, rd) \<Rightarrow> start_turn e (r\<lparr>drawer_index := j, current_round := rd\<rparr>))"
proof -
  let ?n = "length (players r)" and ?i = "drawer_index r"
  let ?w = "r\<lparr>drawer_index := 0, current_round := current_round r + 1\<rparr>"
  obtain j0 where j0: "first_eligible r 0 = Some j0" using first_eligible_exists [of r] assms(1) by auto
  have w0: "first_eligible ?w 0 = Some j0" using j0 by (simp add: first_eligible_Some)
  have j0n: "j0 < ?n" using j0 by (simp add: first_eligible_Some)
  have rd: "r\<lparr>drawer_index := k\<rparr> = r\<lparr>drawer_index := k, current_round := current_round r\<rparr>" for k by simp
  show ?thesis
  proof (cases "?i + 1 < ?n")
    case False
    then have ni: "next_index r = ?w" by (simp add: next_index_def Let_def)
    have none: "first_eligible r (Suc ?i) = None" using False by (auto simp: first_eligible_None)
    have "skip_to_drawer ?n ?w = Inr (?w\<lparr>drawer_index := j0\<rparr>, Drawer_Found)"
      by (rule skip_to_drawer_found) (use w0 j0n in simp_all)
    then show ?thesis
      using assms none j0
      by (simp add: advance_turn_or_round_def ni next_turn_spec_def Let_def round_index_commute)
  next
    case True
    let ?r1 = "r\<lparr>drawer_index := Suc ?i\<rparr>"
    have ni: "next_index r = ?r1" using True by (simp add: next_index_def Let_def)
    have fe: "first_eligible ?r1 = first_eligible r" by (rule first_eligible_cong) simp
    show ?thesis
    proof (cases "first_eligible r (Suc ?i)")
      case (Some j)
      then have "j < ?n" "Suc ?i \<le> j" by (simp_all add: first_eligible_Some)
      then have "skip_to_drawer ?n ?r1 = Inr (?r1\<lparr>drawer_index := j\<rparr>, Drawer_Found)"
        by (intro skip_to_drawer_found) (use Some fe in simp_all)
      then show ?thesis
        using assms Some by (simp add: advance_turn_or_round_def ni next_turn_spec_def Let_def rd [symmetric])
    next
      case None
      have sk: "skip_to_drawer ?n ?r1 =
          (let r' = ?r1\<lparr>drawer_index := 0, current_round := current_round ?r1 + 1\<rparr>
           in if current_round ?r1 + 1 > num_rounds (config ?r1) then Inr (r', Rounds_Complete)
              else skip_to_drawer (?n - (length (players ?r1) - drawer_index ?r1)) r')"
        by (rule skip_to_drawer_wrap) (use None fe True in simp_all)
      have "\<not> Suc ?i \<le> j0" using None j0 by (auto simp: first_eligible_None first_eligible_Some)
      then have "skip_to_drawer (Suc ?i) ?w = Inr (?w\<lparr>drawer_index := j0\<rparr>, Drawer_Found)"
        by (intro skip_to_drawer_found) (use w0 in simp_all)
      with sk show ?thesis
        using assms None j0 True
        by (auto simp: advance_turn_or_round_def ni next_turn_spec_def Let_def round_index_commute)
    qed
  qed
qed

text \<open>
  C6 (refinement). While at least two active players are connected, \<open>advance_turn_or_round\<close>
  implements the rotation: it never raises an index error, starts a turn for the player the rotation
  names with that round, and ends the game exactly when the rotation has nobody left.
\<close>

theorem advance_refines_rotation:
  assumes "2 \<le> connected_active_count r" and "current_round r \<le> num_rounds (config r)"
  shows "advance_turn_or_round e r =
    (case next_turn_spec r of
       None \<Rightarrow> Inr (finish_game e (r\<lparr>drawer_index := 0, current_round := current_round r + 1\<rparr>))
     | Some (j, rd) \<Rightarrow> start_turn e (r\<lparr>drawer_index := j, current_round := rd\<rparr>))"
  using assms by (rule advance_rotation)

definition rotation_room :: room where
  "rotation_room =
     (new_room ''ABCDEF'' ''a'' default_config)
       \<lparr>players := [new_player ''a'' ''Ann'', (new_player ''b'' ''Bob'')\<lparr>is_connected := False\<rparr>, new_player ''c'' ''Cy''],
        state := PLAYING, current_round := 1\<rparr>"

theorem advance_refines_rotation_witness:
  "next_turn_spec rotation_room = Some (2, 1)
   \<and> (\<forall>e. advance_turn_or_round e rotation_room = start_turn e (rotation_room\<lparr>drawer_index := 2, current_round := 1\<rparr>))"
proof -
  have "2 \<le> connected_active_count rotation_room" "current_round rotation_room \<le> num_rounds (config rotation_room)"
    by (simp_all add: rotation_room_def connected_active_count_def connected_active_def new_room_def
        default_config_def new_player_def)
  moreover have "next_turn_spec rotation_room = Some (2, 1)"
    by (simp add: rotation_room_def next_turn_spec_def first_eligible_def connected_active_def new_room_def
        new_player_def upt_rec)
  ultimately show ?thesis using advance_refines_rotation [of rotation_room] by simp
qed

subsection \<open>The drawers of a whole game\<close>

lemma next_turn_spec_Some:
  assumes "next_turn_spec r = Some (j, rd)"
  shows "j < length (players r) \<and> connected_active (players r ! j)
    \<and> (rd = current_round r \<and> drawer_index r < j
        \<or> rd = current_round r + 1 \<and> rd \<le> num_rounds (config r))"
  using assms by (auto simp: next_turn_spec_def first_eligible_Some split: option.splits if_splits)

text \<open>The indices of the drawers of the rest of a game in which nobody joins, leaves or disconnects.\<close>

function drawers :: "room \<Rightarrow> nat list" where
  "drawers r =
     (case next_turn_spec r of
        None \<Rightarrow> []
      | Some (j, rd) \<Rightarrow> j # drawers (r\<lparr>drawer_index := j, current_round := rd\<rparr>))"
  by pat_completeness auto
termination
  by (relation "measures [\<lambda>r. nat (num_rounds (config r) - current_round r), \<lambda>r. length (players r) - drawer_index r]")
     (auto dest: next_turn_spec_Some)

declare drawers.simps [simp del]

definition eligible :: "room \<Rightarrow> nat \<Rightarrow> nat list" where
  "eligible r lo = filter (\<lambda>k. connected_active (players r ! k)) [lo..<length (players r)]"

lemma eligible_Cons:
  assumes "first_eligible r lo = Some j"
  shows "eligible r lo = j # eligible r (Suc j)"
proof -
  from assms have j: "lo \<le> j" "j < length (players r)" "connected_active (players r ! j)"
    and skip: "\<forall>k. lo \<le> k \<and> k < j \<longrightarrow> \<not> connected_active (players r ! k)" by (auto simp: first_eligible_Some)
  have "[lo..<length (players r)] = [lo..<j] @ j # [Suc j..<length (players r)]"
    using j(1,2) by (metis le_Suc_ex less_imp_le_nat upt_add_eq_append upt_conv_Cons)
  with j(3) skip show ?thesis by (auto simp: eligible_def filter_empty_conv)
qed

lemma eligible_Nil: "first_eligible r lo = None \<Longrightarrow> eligible r lo = []"
  by (auto simp: first_eligible_None eligible_def filter_empty_conv)

lemma drawers_eq:
  "current_round r \<le> num_rounds (config r) \<Longrightarrow>
   drawers r = eligible r (Suc (drawer_index r))
     @ concat (replicate (nat (num_rounds (config r) - current_round r)) (eligible r 0))"
proof (induction r rule: drawers.induct)
  case (1 r)
  let ?rest = "\<lambda>m. concat (replicate (nat m) (eligible r 0))"
  have el: "eligible (r\<lparr>drawer_index := j, current_round := rd\<rparr>) lo = eligible r lo" for j rd lo
    by (simp add: eligible_def)
  show ?case
  proof (cases "first_eligible r (Suc (drawer_index r))")
    case (Some j)
    then have ns: "next_turn_spec r = Some (j, current_round r)" by (simp add: next_turn_spec_def)
    have "drawers r = j # drawers (r\<lparr>drawer_index := j, current_round := current_round r\<rparr>)"
      by (subst drawers.simps) (simp add: ns)
    also have "\<dots> = j # eligible r (Suc j) @ ?rest (num_rounds (config r) - current_round r)"
      using "1.IH" [OF ns refl] "1.prems" by (simp add: eligible_def)
    finally show ?thesis using eligible_Cons [OF Some] by simp
  next
    case None
    show ?thesis
    proof (cases "current_round r + 1 > num_rounds (config r) \<or> first_eligible r 0 = None")
      case True
      then have "next_turn_spec r = None" using None by (auto simp: next_turn_spec_def)
      then have "drawers r = []" by (subst drawers.simps) simp
      with True None "1.prems" show ?thesis by (auto simp: eligible_Nil)
    next
      case False
      then obtain j where j: "first_eligible r 0 = Some j" by auto
      let ?r = "r\<lparr>drawer_index := j, current_round := current_round r + 1\<rparr>"
      have ns: "next_turn_spec r = Some (j, current_round r + 1)" using None False j by (simp add: next_turn_spec_def)
      have "drawers r = j # drawers ?r" by (subst drawers.simps) (simp add: ns)
      also have "\<dots> = j # eligible r (Suc j) @ ?rest (num_rounds (config r) - (current_round r + 1))"
        using "1.IH" [OF ns refl] False by (simp add: el)
      also have "\<dots> = ?rest (num_rounds (config r) - current_round r)"
      proof -
        have "nat (num_rounds (config r) - current_round r) = Suc (nat (num_rounds (config r) - (current_round r + 1)))"
          using False by auto
        then show ?thesis using eligible_Cons [OF j] by simp
      qed
      finally show ?thesis using None by (simp add: eligible_Nil)
    qed
  qed
qed



subsection \<open>What advancing keeps\<close>

lemma next_turn_spec_index:
  "next_turn_spec r = Some (j, rd) \<Longrightarrow> j < length (players r)"
  by (simp add: next_turn_spec_Some)

lemma advance_cases:
  assumes "current_round r \<le> num_rounds (config r)"
  obtains
    (waiting) "connected_active_count r < 2" "advance_turn_or_round e r = Inr (end_game_insufficient_players e r)"
  | (over) "2 \<le> connected_active_count r" "next_turn_spec r = None"
      "advance_turn_or_round e r = Inr (finish_game e (r\<lparr>drawer_index := 0, current_round := current_round r + 1\<rparr>))"
  | (turn) j rd r' outs where "2 \<le> connected_active_count r" "next_turn_spec r = Some (j, rd)"
      "start_turn e (r\<lparr>drawer_index := j, current_round := rd\<rparr>) = Inr (r', outs)"
      "advance_turn_or_round e r = Inr (r', outs)"
proof (cases "connected_active_count r < 2")
  case True
  then show thesis by (intro waiting) (simp_all add: advance_turn_or_round_def)
next
  case False
  then have two: "2 \<le> connected_active_count r" by simp
  note rot = advance_rotation [OF two assms, of e]
  show thesis
  proof (cases "next_turn_spec r")
    case None
    with two rot show thesis by (intro over) simp_all
  next
    case (Some jr)
    then obtain j rd where jr: "next_turn_spec r = Some (j, rd)" by (cases jr) auto
    let ?r = "r\<lparr>drawer_index := j, current_round := rd\<rparr>"
    obtain r' outs where st: "start_turn e ?r = Inr (r', outs)"
      using start_turn_total [of ?r e] next_turn_spec_index [OF jr] by auto
    with rot jr have "advance_turn_or_round e r = Inr (r', outs)" by simp
    from turn [OF two jr st this] show thesis .
  qed
qed

end
