(* ===== verification/Turn_Scoring.thy ===== *)
theory Turn_Scoring
  imports Turn_Order
begin

text \<open>
  The points of a turn. \<open>scored r payload r'\<close> says that \<open>r'\<close> is the room \<open>r\<close> with every player's score
  raised by what the payload announces for the player, and with nothing else changed but the
  guessing statistics; \<open>score_turn\<close> establishes it.
\<close>

subsection \<open>Rooms that differ in scores only\<close>

definition points_in :: "(string \<times> int) list \<Rightarrow> string \<Rightarrow> int" where
  "points_in payload i = (case map_of payload i of None \<Rightarrow> 0 | Some s \<Rightarrow> s)"

definition same_person :: "player \<Rightarrow> player \<Rightarrow> bool" where
  "same_person p q \<longleftrightarrow>
     pid q = pid p \<and> pname q = pname p \<and> has_guessed q = has_guessed p \<and> is_connected q = is_connected p
     \<and> is_ready q = is_ready p \<and> avatar q = avatar p \<and> websocket q = websocket p
     \<and> is_spectator q = is_spectator p \<and> guess_time q = guess_time p \<and> cleanup_task q = cleanup_task p
     \<and> session_score q = session_score p \<and> session_wins q = session_wins p \<and> session_games q = session_games p"

definition scored :: "room \<Rightarrow> (string \<times> int) list \<Rightarrow> room \<Rightarrow> bool" where
  "scored r payload r' \<longleftrightarrow>
     r' = r\<lparr>players := players r'\<rparr>
     \<and> list_all2 (\<lambda>p q. same_person p q \<and> score q = score p + points_in payload (pid p)) (players r) (players r')"

lemma same_person_refl [simp]: "same_person p p"
  by (simp add: same_person_def)

lemma same_person_trans: "same_person p q \<Longrightarrow> same_person q s \<Longrightarrow> same_person p s"
  by (simp add: same_person_def)

lemma same_person_award [simp]: "same_person p (award_guess t s q) = same_person p q"
  by (simp add: same_person_def award_guess_def)

lemma score_award [simp]: "score (award_guess t s q) = score q + s"
  by (simp add: award_guess_def)

lemma points_in_Nil [simp]: "points_in [] i = 0"
  by (simp add: points_in_def)

lemma points_in_update: "points_in (AList.update i s payload) j = (if j = i then s else points_in payload j)"
  by (simp add: points_in_def update_conv)

lemma points_in_absent: "i \<notin> fst ` set payload \<Longrightarrow> points_in payload i = 0"
  by (metis map_of_eq_None_iff option.simps(4) points_in_def)

lemma scored_iff:
  "scored r payload r' \<longleftrightarrow>
     (\<exists>qs. r' = r\<lparr>players := qs\<rparr>
       \<and> list_all2 (\<lambda>p q. same_person p q \<and> score q = score p + points_in payload (pid p)) (players r) qs)"
  (is "_ \<longleftrightarrow> (\<exists>qs. ?P qs)")
proof
  assume "scored r payload r'"
  then show "\<exists>qs. ?P qs" unfolding scored_def by (intro exI [of _ "players r'"])
qed (auto simp: scored_def)

lemma scored_config: "scored r payload r' \<Longrightarrow> config r' = config r"
  by (auto simp: scored_iff)

lemma scored_Nil [simp]: "scored r [] r"
  by (simp add: scored_def list_all2_same)

lemma list_all2_pids: "list_all2 (\<lambda>p q. same_person p q \<and> Q p q) ps qs \<Longrightarrow> map pid qs = map pid ps"
  by (induction rule: list_all2_induct) (auto simp: same_person_def)

lemma scored_ids: "scored r payload r' \<Longrightarrow> player_ids r' = player_ids r"
  by (auto simp: scored_def dest: list_all2_pids)

lemma scored_award:
  assumes "scored r payload r'" and "i \<notin> fst ` set payload"
    and f: "\<And>q. same_person q (f q)" "\<And>q. score (f q) = score q + s"
  shows "scored r (AList.update i s payload) (upd_player i f r')"
proof -
  have "list_all2 (\<lambda>p q. same_person p q \<and> score q = score p + points_in payload (pid p)) (players r) (players r')"
    using assms(1) by (simp add: scored_def)
  then have "list_all2 (\<lambda>p q. same_person p q \<and> score q = score p + points_in (AList.update i s payload) (pid p))
      (players r) (map_where (\<lambda>q. pid q = i) f (players r'))"
  proof (induction rule: list_all2_induct)
    case (Cons p ps q qs)
    then have "pid q = pid p" by (simp add: same_person_def)
    moreover have "same_person p (f q)" using Cons f(1) same_person_trans by blast
    ultimately show ?case
      using Cons assms(2) f(2) by (auto simp: points_in_update points_in_absent)
  qed simp
  then show ?thesis using assms(1) by (auto simp: scored_iff upd_player_def)
qed

lemma scored_upd_players:
  assumes "scored r payload r'" and f: "\<And>q. same_person q (f q)" "\<And>q. score (f q) = score q"
  shows "scored r payload (upd_players f r')"
proof -
  have "list_all2 (\<lambda>p q. same_person p q \<and> score q = score p + points_in payload (pid p)) (players r) (map f (players r'))"
    using assms same_person_trans unfolding list_all2_map2 scored_def by (fastforce elim: list_all2_mono)
  then show ?thesis using assms(1) by (auto simp: scored_iff upd_players_def)
qed

subsection \<open>Scoring the guessers\<close>

lemma score_guessers_scored:
  assumes "distinct is" and "set is \<inter> fst ` set payload = {}" and "1 \<le> position"
    and "0 < turn_duration (config r)" and "scored r payload r1"
    and "\<forall>s \<in> set gs. 45 \<le> s \<and> s \<le> 750" and "\<forall>s \<in> snd ` set payload. 45 \<le> s \<and> s \<le> 750"
  shows "\<exists>r2 gs' payload'. score_guessers e ts position is (r1, gs, payload) = Inr (r2, gs', payload')
     \<and> scored r payload' r2 \<and> fst ` set payload' = fst ` set payload \<union> (set is \<inter> set (player_ids r))
     \<and> (\<forall>s \<in> set gs'. 45 \<le> s \<and> s \<le> 750) \<and> (\<forall>s \<in> snd ` set payload'. 45 \<le> s \<and> s \<le> 750)"
  using assms
proof (induction "is" arbitrary: position r1 gs payload)
  case (Cons i "is")
  have cfg: "config r1 = config r" using Cons.prems(5) by (rule scored_config)
  have ids: "player_ids r1 = player_ids r" using Cons.prems(5) by (rule scored_ids)
  show ?case
  proof (cases "get_player r1 i")
    case None
    then have "i \<notin> set (player_ids r)" unfolding get_player_None_iff ids .
    with None Cons.prems Cons.IH [of payload "position + 1" r1 gs] show ?thesis by auto
  next
    case (Some p)
    then have i: "i \<in> set (player_ids r)" using get_player_None_iff [of r1 i] ids by simp
    let ?d = "rat_of_int (turn_duration (config r1))"
    let ?t = "clamp_elapsed e ?d (start_time ts) p"
    obtain s where s: "compute_guesser_score ?t ?d position = Inr s" "45 \<le> s" "s \<le> 750"
      using guesser_score_exists [of ?d position ?t] Cons.prems(3,4) cfg by auto
    let ?r = "upd_player i (award_guess ?t s) r1" and ?p = "AList.update i s payload"
    have sc: "scored r ?p ?r"
      using Cons.prems(2,5) by (intro scored_award) auto
    have dom: "fst ` set ?p = insert i (fst ` set payload)" by (simp add: dom_update)
    have "snd ` set ?p \<subseteq> insert s (snd ` set payload)" by (induction payload) (auto split: if_splits)
    then have rng: "\<forall>s \<in> snd ` set ?p. 45 \<le> s \<and> s \<le> 750" using Cons.prems(7) s by blast
    have "\<exists>r2 gs' payload'. score_guessers e ts (position + 1) is (?r, gs @ [s], ?p) = Inr (r2, gs', payload')
       \<and> scored r payload' r2 \<and> fst ` set payload' = fst ` set ?p \<union> (set is \<inter> set (player_ids r))
       \<and> (\<forall>s \<in> set gs'. 45 \<le> s \<and> s \<le> 750) \<and> (\<forall>s \<in> snd ` set payload'. 45 \<le> s \<and> s \<le> 750)"
    proof (rule Cons.IH)
      show "distinct is" using Cons.prems(1) by simp
      show "set is \<inter> fst ` set ?p = {}" using Cons.prems(1,2) dom by auto
      show "\<forall>x \<in> set (gs @ [s]). 45 \<le> x \<and> x \<le> 750" using Cons.prems(6) s(2,3) by simp
    qed (use Cons.prems(3,4) sc rng in simp_all)
    with Some s(1) i dom show ?thesis by (auto simp: Let_def)
  qed
qed auto

lemma score_turn_scored:
  assumes "distinct (guess_order ts)" and "drawer_id ts \<notin> set (guess_order ts)"
    and "0 < turn_duration (config r)"
  shows "\<exists>r' payload. score_turn e ts r = Inr (r', payload) \<and> scored r payload r'
    \<and> fst ` set payload = set (player_ids r) \<inter> insert (drawer_id ts) (set (guess_order ts))
    \<and> (\<forall>s \<in> snd ` set payload. 0 \<le> s \<and> s \<le> 750)"
proof -
  obtain r1 gs pay where sg: "score_guessers e ts 1 (guess_order ts) (r, [], []) = Inr (r1, gs, pay)"
    and sc: "scored r pay r1" and dom: "fst ` set pay = set (guess_order ts) \<inter> set (player_ids r)"
    and gs: "\<forall>s \<in> set gs. 45 \<le> s \<and> s \<le> 750" and pay: "\<forall>s \<in> snd ` set pay. 45 \<le> s \<and> s \<le> 750"
    using score_guessers_scored [OF assms(1), of "[]" 1 r r "[]" e ts] assms(3) by auto
  let ?f = "\<lambda>p. if pid p \<noteq> drawer_id ts \<and> pid p \<notin> set (guess_order ts) then p\<lparr>streak := 0\<rparr> else p"
  let ?r2 = "upd_players ?f r1" and ?b = "compute_drawer_bonus gs"
  have sc2: "scored r pay ?r2" by (rule scored_upd_players [OF sc]) (auto simp: same_person_def)
  have b: "0 \<le> ?b" "?b \<le> 750" using drawer_bonus_between [OF gs] by simp_all
  show ?thesis
  proof (cases "get_player ?r2 (drawer_id ts)")
    case None
    then have "drawer_id ts \<notin> set (player_ids r)" unfolding get_player_None_iff scored_ids [OF sc2] .
    moreover have "score_turn e ts r = Inr (?r2, pay)" using sg None by (simp add: score_turn_def Let_def)
    moreover have "\<forall>s \<in> snd ` set pay. 0 \<le> s \<and> s \<le> 750" using pay by fastforce
    ultimately show ?thesis using sc2 dom by (intro exI [of _ ?r2] exI [of _ pay]) (simp add: Int_commute)
  next
    case (Some d)
    then have d: "drawer_id ts \<in> set (player_ids r)"
      using scored_ids [OF sc2] get_player_None_iff [of ?r2 "drawer_id ts"] by simp
    let ?g = "\<lambda>p. p\<lparr>score := score p + ?b, drawer_points_earned := drawer_points_earned p + ?b\<rparr>"
    let ?p = "AList.update (drawer_id ts) ?b pay"
    have run: "score_turn e ts r = Inr (upd_player (drawer_id ts) ?g ?r2, ?p)"
      using sg Some by (simp add: score_turn_def Let_def)
    have scd: "scored r ?p (upd_player (drawer_id ts) ?g ?r2)"
      using sc2 dom assms(2) by (intro scored_award) (auto simp: same_person_def)
    have keys: "fst ` set ?p = insert (drawer_id ts) (fst ` set pay)" by (simp add: dom_update)
    have "snd ` set ?p \<subseteq> insert ?b (snd ` set pay)" by (induction pay) (auto split: if_splits)
    moreover have "0 \<le> x \<and> x \<le> 750" if "x \<in> insert ?b (snd ` set pay)" for x
      using that pay b by fastforce
    ultimately have "\<forall>s \<in> snd ` set ?p. 0 \<le> s \<and> s \<le> 750" by blast
    moreover have "fst ` set ?p = set (player_ids r) \<inter> insert (drawer_id ts) (set (guess_order ts))"
      using keys d dom by (simp add: Int_commute)
    ultimately show ?thesis using run scd by (intro exI conjI)
  qed
qed

subsection \<open>Ending a turn\<close>

definition scores_of :: "room \<Rightarrow> (string \<times> int) list" where
  "scores_of r = map (\<lambda>p. (pid p, score p)) (players r)"

lemma scores_of_cong: "players r = players r' \<Longrightarrow> scores_of r = scores_of r'"
  by (simp add: scores_of_def)

lemma scored_scores_of:
  "scored r payload r' \<Longrightarrow> scores_of r' = map (\<lambda>(i, s). (i, s + points_in payload i)) (scores_of r)"
proof -
  assume "scored r payload r'"
  then have "list_all2 (\<lambda>p q. same_person p q \<and> score q = score p + points_in payload (pid p)) (players r) (players r')"
    by (simp add: scored_def)
  then show ?thesis unfolding scores_of_def
    by (induction rule: list_all2_induct) (auto simp: same_person_def)
qed

lemma scores_of_start_turn: "start_turn e r = Inr (r', outs) \<Longrightarrow> scores_of r' = scores_of r"
  by (auto elim!: start_turn_InrE simp: scores_of_def)

lemma scores_of_finish_game: "scores_of (fst (finish_game e r)) = scores_of r"
proof -
  have "fst (finish_game e r) = fst (build_game_over_payload (r\<lparr>state := GAME_OVER\<rparr>))"
    by (simp add: finish_game_def case_prod_beta)
  then show ?thesis by (simp add: build_game_over_room scores_of_def)
qed

lemma scores_of_end_game: "scores_of (fst (end_game_insufficient_players e r)) = scores_of r"
  by (simp add: end_game_insufficient_players_def create_task_def scores_of_def)

lemma advance_scores_turn:
  assumes "current_round r \<le> num_rounds (config r)"
  shows "\<exists>r' outs. advance_turn_or_round e r = Inr (r', outs) \<and> scores_of r' = scores_of r \<and> turn r' = turn r
    \<and> (state r' = state r \<or> state r' = WORD_SELECTION \<or> state r' = GAME_OVER)"
proof (cases rule: advance_cases [OF assms, of e, case_names waiting over turn])
  case waiting
  obtain r' outs where eg: "end_game_insufficient_players e r = (r', outs)" by fastforce
  then have "turn r' = turn r" "state r' = state r" "scores_of r' = scores_of r"
    using scores_of_end_game [of e r]
    by (auto simp: end_game_insufficient_players_def create_task_def split: if_splits)
  with waiting eg show ?thesis by auto
next
  case over
  let ?r = "r\<lparr>drawer_index := 0, current_round := current_round r + 1\<rparr>"
  obtain r' outs where fg: "finish_game e ?r = (r', outs)" by fastforce
  then have r': "r' = fst (finish_game e ?r)" by simp
  then have "scores_of r' = scores_of r" using scores_of_finish_game [of e ?r] by (simp add: scores_of_def)
  moreover have "turn r' = turn r" "state r' = GAME_OVER"
    unfolding r' finish_game_eq build_game_over_room by simp_all
  ultimately show ?thesis using over fg by auto
next
  case (turn j rd r' outs)
  have "scores_of r' = scores_of r" using scores_of_start_turn [OF turn(3)] by (simp add: scores_of_def)
  moreover have "Models.turn r' = Models.turn r" "state r' = WORD_SELECTION"
    using turn(3) by (auto elim!: start_turn_InrE)
  ultimately show ?thesis using turn(4) by auto
qed

lemma cancel_turn_tasks_eq:
  "cancel_turn_tasks ts r = r\<lparr>loop_tasks :=
     filter (\<lambda>t. Some (fst t) \<notin> {timer_task ts, hint_task_40 ts, hint_task_70 ts}) (loop_tasks r)\<rparr>"
  by (auto simp: cancel_turn_tasks_def cancel_if_pending_eq intro!: filter_cong)

lemma scored_sockets: "scored r payload r' \<Longrightarrow> sockets_of (players r') = sockets_of (players r)"
proof -
  assume "scored r payload r'"
  then have "list_all2 (\<lambda>p q. same_person p q \<and> score q = score p + points_in payload (pid p)) (players r) (players r')"
    by (simp add: scored_def)
  then show ?thesis by (induction rule: list_all2_induct) (simp_all add: same_person_def split: option.split)
qed

text \<open>
  C7 (functional). Ending a turn never raises, closes the turn, first announces it to the room, and
  the points announced are exactly the points awarded: every player's score rises by the number
  listed for the player and by nothing else. Listed are the correct guessers and the drawer still
  in the room, with 0 to 750 points each; nobody when the drawer disconnected.
\<close>

theorem end_turn_awards_announced_points:
  assumes "turn r = Some ts" and "distinct (guess_order ts)" and "drawer_id ts \<notin> set (guess_order ts)"
    and "0 < turn_duration (config r)" and "current_round r \<le> num_rounds (config r)"
  shows "\<exists>r' rb payload outs. end_turn e r reason = Inr (r', broadcast_room e rb (TurnEnded (word ts) payload reason) @ outs)
    \<and> turn r' = None \<and> sockets_of (players rb) = sockets_of (players r) \<and> code rb = code r
    \<and> scores_of r' = map (\<lambda>(i, s). (i, s + points_in payload i)) (scores_of r)
    \<and> fst ` set payload = (if reason = DRAWER_DISCONNECTED then {}
        else set (player_ids r) \<inter> insert (drawer_id ts) (set (guess_order ts)))
    \<and> (\<forall>s \<in> snd ` set payload. 0 \<le> s \<and> s \<le> 750)"
proof -
  let ?r1 = "cancel_turn_tasks ts r"
  have r1: "players ?r1 = players r" "config ?r1 = config r" "current_round ?r1 = current_round r" "code ?r1 = code r"
    by (simp_all add: cancel_turn_tasks_eq)
  obtain r2 payload where run: "(if reason \<noteq> DRAWER_DISCONNECTED then score_turn e ts ?r1 else Inr (?r1, [])) = Inr (r2, payload)"
    and sc: "scored ?r1 payload r2"
    and dom: "fst ` set payload = (if reason = DRAWER_DISCONNECTED then {}
        else set (player_ids r) \<inter> insert (drawer_id ts) (set (guess_order ts)))"
    and pts: "\<forall>s \<in> snd ` set payload. 0 \<le> s \<and> s \<le> 750"
    using score_turn_scored [OF assms(2,3), of ?r1 e] assms(4) r1
    by (cases "reason = DRAWER_DISCONNECTED") fastforce+
  let ?r3 = "r2\<lparr>turn := None\<rparr>"
  have frame: "config r2 = config r" "current_round r2 = current_round r" "code r2 = code r"
    using sc r1 by (auto simp: scored_iff)
  obtain r' outs where adv: "advance_turn_or_round e ?r3 = Inr (r', outs)" "scores_of r' = scores_of ?r3" "turn r' = None"
    using advance_scores_turn [of ?r3 e] assms(5) frame by auto
  have "end_turn e r reason = Inr (r', broadcast_room e r2 (TurnEnded (word ts) payload reason) @ outs)"
    using assms(1) run adv(1) by (simp add: end_turn_def Let_def)
  moreover have "scores_of r' = map (\<lambda>(i, s). (i, s + points_in payload i)) (scores_of r)"
    using adv(2) scored_scores_of [OF sc] r1 by (simp add: scores_of_def)
  moreover have "sockets_of (players r2) = sockets_of (players r)" using scored_sockets [OF sc] r1 by simp
  ultimately show ?thesis using adv(3) frame(3) dom pts by blast
qed

definition demo_turn :: turn_state where
  "demo_turn =
     \<lparr>turn_oid = 0, drawer_id = ''a'', word = ''cat'', hint = ''___'', start_time = 0, word_choices = [''cat''],
      timer_task = None, hint_task_40 = None, hint_task_70 = None, guess_order = [''c''], theme = None\<rparr>"

definition demo_env :: env where
  "demo_env = \<lparr>now = 100, draws = \<lambda>_. [], redis_enabled = False, worker_draining = False, uuid = \<lambda>_. ''u''\<rparr>"

theorem end_turn_awards_announced_points_witness:
  "\<exists>r' rb payload outs. end_turn demo_env (rotation_room\<lparr>turn := Some demo_turn\<rparr>) TIMER_EXPIRED
       = Inr (r', broadcast_room demo_env rb (TurnEnded ''cat'' payload TIMER_EXPIRED) @ outs)
    \<and> turn r' = None \<and> fst ` set payload = {''a'', ''c''}"
proof -
  let ?r = "rotation_room\<lparr>turn := Some demo_turn\<rparr>"
  have f: "turn ?r = Some demo_turn" "distinct (guess_order demo_turn)" "drawer_id demo_turn \<notin> set (guess_order demo_turn)"
    "0 < turn_duration (config ?r)" "current_round ?r \<le> num_rounds (config ?r)"
    by (simp_all add: demo_turn_def rotation_room_def new_room_def default_config_def)
  have w: "word demo_turn = ''cat''" by (simp add: demo_turn_def)
  have ids: "set (player_ids ?r) \<inter> insert (drawer_id demo_turn) (set (guess_order demo_turn)) = {''a'', ''c''}"
    by (auto simp: demo_turn_def rotation_room_def new_room_def new_player_def)
  show ?thesis
    using end_turn_awards_announced_points [OF f, of demo_env TIMER_EXPIRED] unfolding w ids by auto
qed

end
