(* ===== verification/Turn_Secrecy.thy ===== *)
theory Turn_Secrecy
  imports Turn_Order
begin

text \<open>
  Who learns the secret word. \<open>discloses w msg\<close> says that a message shows the word \<open>w\<close> to whoever
  receives it; the theorems say which outputs of a turn do.
\<close>

definition discloses :: "string \<Rightarrow> message \<Rightarrow> bool" where
  "discloses w msg =
     (case msg of
        WordAssigned v \<Rightarrow> True
      | WordChoices cs ps \<Rightarrow> True
      | TurnEnded v ss rs \<Rightarrow> True
      | TurnStarted i h d n th \<Rightarrow> h = w
      | HintUpdate h \<Rightarrow> h = w
      | ChatMessage n t sys \<Rightarrow> \<not> sys \<and> sublist (py_lower w) (py_lower t)
      | _ \<Rightarrow> False)"

definition leaks :: "string \<Rightarrow> out list \<Rightarrow> bool" where
  "leaks w outs \<longleftrightarrow> list_ex (\<lambda>o'. case out_message o' of None \<Rightarrow> False | Some m \<Rightarrow> discloses w m) outs"

text \<open>A word of one token, as the theorems need it: no white space, asterisk or underscore.\<close>

definition plain_word :: "string \<Rightarrow> bool" where
  "plain_word w \<longleftrightarrow> w \<noteq> [] \<and> list_all (\<lambda>c. \<not> is_space c \<and> c \<noteq> CHR ''*'' \<and> c \<noteq> CHR ''_'') w"

lemma leaks_append [simp]: "leaks w (xs @ ys) \<longleftrightarrow> leaks w xs \<or> leaks w ys"
  by (simp add: leaks_def)

lemma leaks_Nil [simp]: "\<not> leaks w []"
  by (simp add: leaks_def)

lemma leaks_broadcast: "leaks w (broadcast_room e r msg) \<Longrightarrow> discloses w msg"
  by (auto simp: leaks_def list_ex_iff dest!: out_message_broadcast)

lemma leaks_send_to: "leaks w (send_to p msg) \<Longrightarrow> discloses w msg"
  by (auto simp: leaks_def list_ex_iff out_message_def dest!: out_message_send_to)

lemma plain_word_lower:
  assumes "plain_word w"
  shows "py_lower w \<noteq> []" "CHR '' '' \<notin> set (py_lower w)" "CHR ''*'' \<notin> set (py_lower w)"
proof -
  have sp: "\<forall>c \<in> set w. \<not> is_space c" "CHR ''*'' \<notin> set w" using assms by (auto simp: plain_word_def list_all_iff)
  then have "\<forall>c \<in> set (py_lower w). \<not> is_space c" by (simp add: spaces_in_lower)
  then show "CHR '' '' \<notin> set (py_lower w)" using is_space_blank by blast
  show "py_lower w \<noteq> []" "CHR ''*'' \<notin> set (py_lower w)" using assms sp(2) by (simp_all add: plain_word_def)
qed

lemma plain_word_sanitized: "plain_word w \<Longrightarrow> \<not> sublist (py_lower w) (py_lower (sanitize_chat w t))"
  using sanitize_chat_hides_word [of w t] by (auto simp: plain_word_def list_all_iff)

lemma hint_hides_plain_word:
  assumes "plain_word w" and "1 \<le> hidden_count h"
  shows "h \<noteq> w"
proof
  assume "h = w"
  have "{i. i < length h \<and> h ! i = CHR ''_''} \<noteq> {}"
    using assms(2) unfolding hidden_count_card by (metis card.empty not_one_le_zero)
  with \<open>h = w\<close> have "\<exists>i < length w. w ! i = CHR ''_''" by blast
  with assms(1) show False by (auto simp: plain_word_def list_all_length)
qed

lemma initial_hint_hides:
  assumes "plain_word w" shows "generate_initial_hint w \<noteq> w"
proof -
  obtain c cs where w: "w = c # cs" using assms by (cases w) (auto simp: plain_word_def)
  moreover have "\<not> is_space (CHR '' '') \<Longrightarrow> False" by code_simp
  ultimately show ?thesis using assms by (auto simp: plain_word_def generate_initial_hint_def)
qed

text \<open>The part of an output list that is not a direct send to the drawer's own socket.\<close>

definition to_others :: "player \<Rightarrow> out list \<Rightarrow> out list" where
  "to_others drawer outs =
     filter (\<lambda>o'. \<not> (\<exists>ws m. websocket drawer = Some ws \<and> o' = SendText ws False m)) outs"

lemma leaks_to_others: "leaks w (to_others p outs) \<Longrightarrow> leaks w outs"
  by (auto simp: leaks_def to_others_def list_ex_iff)

lemma to_others_send_to [simp]: "to_others p (send_to p msg) = []"
  by (auto simp: to_others_def filter_empty_conv dest!: out_message_send_to)

lemma to_others_append [simp]: "to_others p (xs @ ys) = to_others p xs @ to_others p ys"
  by (simp add: to_others_def)

lemma broadcast_not_leaking:
  "\<not> discloses w msg \<Longrightarrow> \<not> leaks w (to_others p (broadcast_room e r msg))"
  using leaks_to_others leaks_broadcast by blast

subsection \<open>Selecting the word\<close>

text \<open>
  C23 (functional). Word selection on every branch. A selection by somebody who is not the drawer, or
  of a word that was not offered, changes nothing and sends nothing. The drawer's selection of an
  offered word starts a turn for that drawer and word with an empty guess order and a hint that
  masks the word, resets everybody's guess flag, marks the word as used, withdraws the offer, and
  schedules the two hints and the end of the turn.
\<close>

theorem handle_word_selection_correct:
  assumes "drawer_index r < length (players r)"
  shows "\<exists>r' outs. handle_word_selection e r i w = Inr (r', outs) \<and>
    (if i = pid (players r ! drawer_index r) \<and> w \<in> set (case pending_word_choices r of None \<Rightarrow> [] | Some ws \<Rightarrow> ws)
     then \<exists>ts. turn r' = Some ts \<and> state r' = PLAYING \<and> drawer_id ts = i \<and> word ts = w \<and> guess_order ts = []
            \<and> masks (hint ts) w \<and> start_time ts = now e
            \<and> list_all (\<lambda>p. \<not> has_guessed p) (players r') \<and> map score (players r') = map score (players r)
            \<and> used_words r' = insert w (used_words r) \<and> pending_word_choices r' = None
            \<and> {(the (hint_task_40 ts), now e + fl64 (of_int (turn_duration (config r)) * fl64 (4/10)), RevealHint40 (turn_oid ts)),
               (the (hint_task_70 ts), now e + fl64 (of_int (turn_duration (config r)) * fl64 (7/10)), RevealHint70 (turn_oid ts)),
               (the (timer_task ts), now e + of_int (turn_duration (config r)), TurnTimer (turn_oid ts))} \<subseteq> set (loop_tasks r')
     else r' = r \<and> outs = [])"
proof (cases rule: handle_word_selection_cases [OF assms, of e i w, case_names ignored chosen])
  case ignored
  then show ?thesis by (cases "pending_word_choices r") auto
next
  case (chosen ws)
  let ?b = "begin_playing e r (players r ! drawer_index r) w ws"
  have "handle_word_selection e r i w = Inr (fst ?b, snd ?b)" using chosen(4) by simp
  moreover have "list_all (\<lambda>p. \<not> has_guessed p) (players (fst ?b))" "map score (players (fst ?b)) = map score (players r)"
    by (simp_all add: begin_playing_room list_all_iff)
  ultimately show ?thesis
    using chosen(1-3) masks_initial [of w] by (simp add: begin_playing_room turn_of_word_def)
qed

definition choosing_room :: room where
  "choosing_room = rotation_room\<lparr>state := WORD_SELECTION, pending_word_choices := Some [''cat'', ''dog'']\<rparr>"

theorem handle_word_selection_correct_witness:
  "\<forall>e. \<exists>r' outs ts. handle_word_selection e choosing_room ''a'' ''dog'' = Inr (r', outs)
     \<and> turn r' = Some ts \<and> state r' = PLAYING \<and> word ts = ''dog'' \<and> used_words r' = {''dog''}"
proof
  fix e
  have f: "drawer_index choosing_room < length (players choosing_room)"
    "pid (players choosing_room ! drawer_index choosing_room) = ''a''"
    "pending_word_choices choosing_room = Some [''cat'', ''dog'']" "used_words choosing_room = {}"
    by (simp_all add: choosing_room_def rotation_room_def new_room_def new_player_def)
  from handle_word_selection_correct [OF f(1), of e "''a''" "''dog''"]
  show "\<exists>r' outs ts. handle_word_selection e choosing_room ''a'' ''dog'' = Inr (r', outs)
     \<and> turn r' = Some ts \<and> state r' = PLAYING \<and> word ts = ''dog'' \<and> used_words r' = {''dog''}"
    by (simp add: f) blast
qed

subsection \<open>The word stays secret\<close>

lemma handle_word_selection_secret:
  assumes "plain_word w" and "drawer_index r < length (players r)"
    and "handle_word_selection e r i w = Inr (r', outs)"
  shows "\<not> leaks w (to_others (players r ! drawer_index r) outs)"
proof (cases rule: handle_word_selection_cases [OF assms(2), of e i w, case_names ignored chosen])
  case ignored
  with assms(3) show ?thesis by (simp add: to_others_def)
next
  case (chosen ws)
  let ?d = "players r ! drawer_index r"
  from begin_playing_outs [of e r ?d w ws] obtain rb where
    "outs = broadcast_room e rb (TurnStarted (pid ?d) (generate_initial_hint w) (turn_duration (config r))
        (current_round r) (theme_of r w)) @ send_to ?d (WordAssigned w) @ broadcast_room e rb ClearCanvas"
    using assms(3) chosen(4) by auto
  then show ?thesis
    using initial_hint_hides [OF assms(1)] by (auto simp: discloses_def dest!: leaks_to_others leaks_broadcast)
qed

lemma reveal_hint_secret:
  assumes "plain_word w" and "turn r = Some ts" and "word ts = w" and "masks (hint ts) w" and "1 \<le> hidden_count (hint ts)"
    and "reveal_hint e r oid = Inr (r', outs)"
  shows "\<not> leaks w outs"
proof (cases "turn_running r oid")
  case True
  obtain h where h: "reveal_hint_char (draws e 0) (hint ts) w = Inr h" "1 \<le> hidden_count h"
    using reveal_hint_char_step [OF assms(4), of "draws e 0"] assms(5) by auto
  with True assms have "outs = broadcast_room e (r\<lparr>turn := Some (ts\<lparr>hint := h\<rparr>)\<rparr>) (HintUpdate h)"
    by (auto simp: reveal_hint_def Let_def)
  then show ?thesis
    using hint_hides_plain_word [OF assms(1) h(2)] by (auto simp: discloses_def dest!: leaks_broadcast)
qed (use assms in \<open>auto simp: reveal_hint_def\<close>)

lemma handle_chat_secret:
  assumes "plain_word w" and "turn r = Some ts" and "word ts = w"
  shows "\<not> leaks w (snd (handle_chat e r i text))"
  using assms plain_word_sanitized [OF assms(1)]
  by (auto simp: handle_chat_def discloses_def Let_def dest!: leaks_broadcast split: option.splits if_splits)


definition secret_room :: room where
  "secret_room = rotation_room
    \<lparr>players := map (\<lambda>p. p\<lparr>websocket := Some (WebSocket 1)\<rparr>) (players rotation_room), turn := Some
     \<lparr>turn_oid = 0, drawer_id = ''a'', word = ''cat'', hint = ''___'', start_time = 0, word_choices = [''cat''],
      timer_task = None, hint_task_40 = None, hint_task_70 = None, guess_order = [], theme = None\<rparr>\<rparr>"

definition quiet_env :: env where
  "quiet_env = \<lparr>now = 0, draws = \<lambda>_. [], redis_enabled = False, worker_draining = False, uuid = \<lambda>_. ''u''\<rparr>"


subsection \<open>Guesses\<close>

lemma skip_to_drawer_turn: "skip_to_drawer n r = Inr (r', oc) \<Longrightarrow> turn r' = turn r"
  by (metis (no_types, lifting) room.select_convs(8) room.surjective room.update_convs(6,7) skip_to_drawer_frame)

lemma advance_turn: "advance_turn_or_round e r = Inr (r', outs) \<Longrightarrow> turn r' = turn r"
proof -
  have ni: "turn (next_index r) = turn r" by (simp add: next_index_def Let_def)
  have eg: "turn (fst (end_game_insufficient_players e r)) = turn r"
    by (simp add: end_game_insufficient_players_def create_task_def)
  have fg: "turn (fst (finish_game e s)) = turn s" for s by (simp add: finish_game_eq build_game_over_room)
  assume a: "advance_turn_or_round e r = Inr (r', outs)"
  show ?thesis
  proof (cases "connected_active_count r < 2 \<or> current_round (next_index r) > num_rounds (config (next_index r))")
    case True
    then show ?thesis using a eg fg [of "next_index r"] ni
      by (auto simp: advance_turn_or_round_def Let_def split: if_splits)
  next
    case False
    with a obtain r2 oc where sk: "skip_to_drawer (length (players (next_index r))) (next_index r) = Inr (r2, oc)"
      and fin: "(case oc of Drawer_Found \<Rightarrow> start_turn e r2 | Rounds_Complete \<Rightarrow> Inr (finish_game e r2)
         | Nobody_Found \<Rightarrow> Inr (finish_game e r2)) = Inr (r', outs)"
      by (auto simp: advance_turn_or_round_def Let_def res_bind_Inr_iff)
    have "turn r' = turn r2" using fin fg [of r2] by (cases oc) (auto elim!: start_turn_InrE)
    then show ?thesis using skip_to_drawer_turn [OF sk] ni by simp
  qed
qed

lemma end_turn_closes: "turn r = Some ts \<Longrightarrow> end_turn e r reason = Inr (r', outs) \<Longrightarrow> turn r' = None"
  by (auto simp: end_turn_def Let_def res_bind_Inr_iff dest!: advance_turn)


lemma secret_room_facts:
  "turn secret_room = Some ts \<Longrightarrow> word ts = ''cat'' \<and> drawer_id ts = ''a'' \<and> guess_order ts = []"
  "turn secret_room \<noteq> None" "state secret_room = PLAYING"
  "get_player secret_room ''c'' = Some ((new_player ''c'' ''Cy'')\<lparr>websocket := Some (WebSocket 1)\<rparr>)"
  by (auto simp: secret_room_def rotation_room_def get_player_def new_player_def)

lemma secret_room_echo:
  "handle_guess e secret_room ''c'' ''its a cat'' =
     Inr (secret_room, broadcast_room e secret_room (ChatMessage ''Cy'' ''its a cat'' False))"
proof -
  obtain ts where ts: "turn secret_room = Some ts" using secret_room_facts(2) by auto
  note w = secret_room_facts(1) [OF ts]
  have far: "\<not> levenshtein_distance (py_lower (py_strip ''its a cat'')) (py_lower ''cat'') \<le> 2"
    "py_lower (py_strip ''its a cat'') \<noteq> py_lower ''cat''" "filter_profanity ''its a cat'' = ''its a cat''"
    "length ''its a cat'' \<le> 100"
    by code_simp+
  show ?thesis
    using ts w secret_room_facts(3,4) far
    by (simp add: handle_guess_def new_player_def Let_def)
qed


text \<open>
  The echo does happen: a player who types \<open>its a cat\<close> while the word is \<open>cat\<close> makes the
  server broadcast the whole text, word included, to the room.
\<close>

theorem wrong_guess_discloses_word:
  "handle_guess quiet_env secret_room ''c'' ''its a cat'' =
     Inr (secret_room, broadcast_room quiet_env secret_room (ChatMessage ''Cy'' ''its a cat'' False))
   \<and> discloses ''cat'' (ChatMessage ''Cy'' ''its a cat'' False)"
proof
  have "sublist (py_lower ''cat'') (py_lower ''its a cat'')" by code_simp
  then show "discloses ''cat'' (ChatMessage ''Cy'' ''its a cat'' False)" by (simp add: discloses_def)
qed (rule secret_room_echo)

text \<open>
  C24 (functional). A guess is accepted at most once per player and turn. If a guess changes the guess
  order while the turn goes on, it was the word itself up to case and surrounding blanks, from a
  connected active player who is not the drawer and had not guessed yet; the player is appended to
  the order, and every later guess of the player in that turn changes nothing and sends nothing.
\<close>

theorem guess_accepted_once:
  assumes "turn r = Some ts" and "handle_guess e r i text = Inr (r', outs)" and "turn r' = Some ts'"
    and "guess_order ts' \<noteq> guess_order ts"
  shows "guess_order ts' = guess_order ts @ [i] \<and> py_lower (py_strip text) = py_lower (word ts)
    \<and> (\<exists>p. get_player r i = Some p \<and> is_connected p \<and> \<not> is_spectator p \<and> \<not> has_guessed p \<and> i \<noteq> drawer_id ts)
    \<and> (\<forall>e' text'. handle_guess e' r' i text' = Inr (r', []))"
proof -
  have "r' \<noteq> r" using assms(1,3,4) by auto
  with assms(1,2) obtain p where p: "get_player r i = Some p"
    by (auto simp: handle_guess_def split: option.splits if_splits)
  have pid: "pid p = i" using get_player_SomeD [OF p] by simp
  note h = assms(2) [unfolded handle_guess_def assms(1) p option.case]
  have g: "pid p \<noteq> drawer_id ts" "state r = PLAYING" "length text \<le> 100" "\<not> is_spectator p" "\<not> has_guessed p"
      "is_connected p" "py_lower (py_strip text) = py_lower (word ts)"
    using h \<open>r' \<noteq> r\<close> by (auto simp: Let_def split: if_splits)
  let ?f = "\<lambda>q. q\<lparr>has_guessed := True, guess_time := Some (now e)\<rparr>"
  let ?r2 = "(upd_player i ?f r)\<lparr>turn := Some (ts\<lparr>guess_order := guess_order ts @ [pid p]\<rparr>)\<rparr>"
  have "\<not> all_guessed ?r2 (drawer_id ts)"
  proof
    assume "all_guessed ?r2 (drawer_id ts)"
    with h g obtain o' where "end_turn e ?r2 ALL_GUESSED = Inr (r', o')" by (auto simp: Let_def res_bind_Inr_iff)
    then have "turn r' = None" by (rule end_turn_closes [rotated]) simp
    with assms(3) show False by simp
  qed
  with h g have r': "r' = ?r2" by (auto simp: Let_def)
  have "get_player ?r2 i = get_player (upd_player i ?f r) i" by (rule get_player_cong) simp
  also have "\<dots> = Some (?f p)" using p pid by (simp add: get_upd_player)
  finally have gp: "get_player r' i = Some (?f p)" using r' by simp
  have "handle_guess e' r' i text' = Inr (r', [])" for e' text'
    using gp r' g pid by (auto simp: handle_guess_def upd_player_def)
  with r' assms(3) g p pid show ?thesis by auto
qed

definition two_guessers :: room where
  "two_guessers = secret_room\<lparr>players := players secret_room @ [new_player ''d'' ''Di'']\<rparr>"

theorem guess_accepted_once_witness:
  "\<exists>r' outs ts'. handle_guess quiet_env two_guessers ''c'' '' Cat'' = Inr (r', outs) \<and> turn r' = Some ts'
     \<and> guess_order ts' = [''c''] \<and> handle_guess quiet_env r' ''c'' ''cat'' = Inr (r', [])"
proof -
  obtain ts where ts: "turn two_guessers = Some ts" "word ts = ''cat''" "drawer_id ts = ''a''" "guess_order ts = []"
    by (simp add: two_guessers_def secret_room_def)
  have typed: "py_lower (py_strip '' Cat'') = py_lower ''cat''" "length '' Cat'' \<le> 100" by code_simp+
  let ?r = "(upd_player ''c'' (\<lambda>q. q\<lparr>has_guessed := True, guess_time := Some (now quiet_env)\<rparr>) two_guessers)
      \<lparr>turn := Some (ts\<lparr>guess_order := [''c'']\<rparr>)\<rparr>"
  have "get_player two_guessers ''c'' = Some ((new_player ''c'' ''Cy'')\<lparr>websocket := Some (WebSocket 1)\<rparr>)"
    "state two_guessers = PLAYING"
    by (simp_all add: two_guessers_def secret_room_def rotation_room_def get_player_def new_player_def)
  moreover have "\<not> all_guessed ?r ''a''"
    by (simp add: all_guessed_def two_guessers_def secret_room_def rotation_room_def new_player_def upd_player_def)
  ultimately have h: "handle_guess quiet_env two_guessers ''c'' '' Cat'' = Inr (?r, broadcast_room quiet_env ?r (GuessCorrect ''Cy''))"
    using ts typed by (simp add: handle_guess_def new_player_def Let_def)
  have "turn ?r = Some (ts\<lparr>guess_order := [''c'']\<rparr>)" "guess_order (ts\<lparr>guess_order := [''c'']\<rparr>) \<noteq> guess_order ts"
    using ts(4) by simp_all
  from guess_accepted_once [OF ts(1) h this] h show ?thesis by auto
qed

end
