(* ===== verification/Room_Invariant.thy ===== *)
theory Room_Invariant
  imports Turn_Scoring Turn_Secrecy
begin

text \<open>
  The invariant of a room that its worker owns, and that every operation of the turn engine keeps it.
  It has three parts: the people and settings (\<open>people_inv\<close>), the running turn (\<open>turn_inv\<close>) and the
  round counter (\<open>round_inv\<close>).
\<close>

subsection \<open>The invariant\<close>

definition config_ok :: "game_config \<Rightarrow> bool" where
  "config_ok c \<longleftrightarrow> 2 \<le> num_rounds c \<and> num_rounds c \<le> 10 \<and> 30 \<le> turn_duration c \<and> turn_duration c \<le> 180
     \<and> 2 \<le> max_players c \<and> max_players c \<le> 12
     \<and> length (custom_words c) \<le> 500 \<and> distinct (map py_lower (custom_words c))
     \<and> list_all (\<lambda>w. w \<noteq> [] \<and> length w \<le> 40) (custom_words c)"

definition valid_length :: "string \<Rightarrow> bool" where
  "valid_length n \<longleftrightarrow> 1 \<le> length n \<and> length n \<le> 20"

text \<open>A player has at most one pending request to become a player, and only while a spectator.\<close>

definition roles_inv :: "room \<Rightarrow> bool" where
  "roles_inv r \<longleftrightarrow> distinct (map (\<lambda>q. sr_player_id (snd q)) (room_role_requests r))
     \<and> list_all (\<lambda>p. pid p \<in> (\<lambda>q. sr_player_id (snd q)) ` set (room_role_requests r) \<longrightarrow> is_spectator p) (players r)"

definition people_inv :: "room \<Rightarrow> bool" where
  "people_inv r \<longleftrightarrow> distinct (player_ids r) \<and> host_id r \<in> set (player_ids r)
     \<and> active_count r \<le> 12 \<and> spectator_count r \<le> 50 \<and> config_ok (config r)
     \<and> list_all (\<lambda>p. valid_length (pname p)) (players r) \<and> roles_inv r"

definition turn_ok :: "room \<Rightarrow> turn_state \<Rightarrow> bool" where
  "turn_ok r ts \<longleftrightarrow> distinct (guess_order ts) \<and> drawer_id ts \<notin> set (guess_order ts)
     \<and> masks (hint ts) (word ts) \<and> word ts \<in> used_words r
     \<and> list_all (\<lambda>p. pid p \<in> set (guess_order ts) \<longrightarrow> has_guessed p \<and> \<not> is_spectator p) (players r)"

definition turn_inv :: "room \<Rightarrow> bool" where
  "turn_inv r \<longleftrightarrow>
     (case turn r of None \<Rightarrow> True
      | Some ts \<Rightarrow> state r = PLAYING \<and> pending_word_choices r = None \<and> turn_ok r ts)"

definition round_inv :: "room \<Rightarrow> bool" where
  "round_inv r \<longleftrightarrow> 0 \<le> current_round r
     \<and> (state r \<noteq> GAME_OVER \<or> pending_word_choices r \<noteq> None \<longrightarrow> current_round r \<le> num_rounds (config r))
     \<and> (state r = LOBBY \<longrightarrow> current_round r = 0 \<and> drawer_index r = 0)"

definition room_inv :: "room \<Rightarrow> bool" where
  "room_inv r \<longleftrightarrow> people_inv r \<and> turn_inv r \<and> round_inv r"

lemmas room_inv_defs = room_inv_def turn_inv_def round_inv_def turn_ok_def

subsection \<open>Operations that keep the people\<close>

definition same_seat :: "player \<Rightarrow> player \<Rightarrow> bool" where
  "same_seat p q \<longleftrightarrow> pid q = pid p \<and> pname q = pname p \<and> is_spectator q = is_spectator p
     \<and> is_connected q = is_connected p \<and> websocket q = websocket p"

definition people_kept :: "room \<Rightarrow> room \<Rightarrow> bool" where
  "people_kept r r' \<longleftrightarrow> code r' = code r \<and> host_id r' = host_id r \<and> config r' = config r \<and> is_proxy r' = is_proxy r
     \<and> room_role_requests r' = room_role_requests r \<and> list_all2 same_seat (players r) (players r')"

lemma same_seat_refl [simp]: "same_seat p p"
  by (simp add: same_seat_def)

lemma same_seat_trans: "same_seat p q \<Longrightarrow> same_seat q s \<Longrightarrow> same_seat p s"
  by (simp add: same_seat_def)

lemma same_person_seat: "same_person p q \<Longrightarrow> same_seat p q"
  by (simp add: same_person_def same_seat_def)

lemma people_kept_refl [simp]: "people_kept r r"
  by (simp add: people_kept_def list_all2_same)

lemma people_kept_trans: "people_kept r s \<Longrightarrow> people_kept s t \<Longrightarrow> people_kept r t"
  unfolding people_kept_def by (auto intro: list_all2_trans [OF same_seat_trans])

lemma people_kept_players:
  "players r' = players r \<Longrightarrow> code r' = code r \<Longrightarrow> host_id r' = host_id r \<Longrightarrow> config r' = config r
   \<Longrightarrow> is_proxy r' = is_proxy r \<Longrightarrow> room_role_requests r' = room_role_requests r \<Longrightarrow> people_kept r r'"
  by (simp add: people_kept_def list_all2_same)

lemma same_seats_facts:
  assumes "list_all2 same_seat ps qs"
  shows "map pid qs = map pid ps" "length (filter is_active qs) = length (filter is_active ps)"
    "length (filter is_spectator qs) = length (filter is_spectator ps)" "map pname qs = map pname ps"
    "map is_connected qs = map is_connected ps" "length (filter connected_active qs) = length (filter connected_active ps)"
    "length (filter is_connected qs) = length (filter is_connected ps)"
  using assms
  by (induction rule: list_all2_induct) (simp_all add: same_seat_def is_active_def connected_active_def)

lemma same_seats_names:
  "list_all2 same_seat ps qs \<Longrightarrow> list_all (\<lambda>p. Q (pname p)) qs = list_all (\<lambda>p. Q (pname p)) ps"
  by (induction rule: list_all2_induct) (simp_all add: same_seat_def)

lemma same_seats_roles:
  "list_all2 same_seat ps qs \<Longrightarrow> list_all (\<lambda>p. pid p \<in> A \<longrightarrow> is_spectator p) qs = list_all (\<lambda>p. pid p \<in> A \<longrightarrow> is_spectator p) ps"
  by (induction rule: list_all2_induct) (simp_all add: same_seat_def)

lemma people_kept_inv: "people_kept r r' \<Longrightarrow> people_inv r \<Longrightarrow> people_inv r'"
proof -
  assume k: "people_kept r r'" and p: "people_inv r"
  have ss: "list_all2 same_seat (players r) (players r')" using k by (simp add: people_kept_def)
  show ?thesis
    using k p same_seats_facts [OF ss] same_seats_names [OF ss, of valid_length] same_seats_roles [OF ss]
    by (simp add: people_inv_def roles_inv_def people_kept_def active_count_def spectator_count_def)
qed

lemma people_kept_counts:
  "people_kept r r' \<Longrightarrow> connected_active_count r' = connected_active_count r"
  "people_kept r r' \<Longrightarrow> connected_count r' = connected_count r"
  "people_kept r r' \<Longrightarrow> player_ids r' = player_ids r"
  by (auto simp: people_kept_def connected_active_count_def connected_count_def dest: same_seats_facts)

lemma people_kept_upd_player: "(\<And>p. same_seat p (f p)) \<Longrightarrow> people_kept r (upd_player i f r)"
  by (auto simp: people_kept_def upd_player_def list_all2_conv_all_nth)

lemma people_kept_upd_players: "(\<And>p. same_seat p (f p)) \<Longrightarrow> people_kept r (upd_players f r)"
  by (auto simp: people_kept_def upd_players_def list_all2_conv_all_nth)

lemma scored_people_kept: "scored r payload r' \<Longrightarrow> people_kept r r'"
  by (auto simp: scored_iff people_kept_def elim!: list_all2_mono intro: same_person_seat)

subsection \<open>The turn engine keeps the invariant\<close>

lemma room_inv_rounds: "room_inv r \<Longrightarrow> turn r \<noteq> None \<Longrightarrow> current_round r \<le> num_rounds (config r)"
  by (auto simp: room_inv_defs split: option.splits)

lemma room_inv_duration: "room_inv r \<Longrightarrow> 0 < turn_duration (config r)"
  by (simp add: room_inv_def people_inv_def config_ok_def)

lemma start_turn_inv:
  assumes "room_inv r" and "turn r = None" and "start_turn e r = Inr (r', outs)"
    and "current_round r \<le> num_rounds (config r)"
  shows "room_inv r' \<and> people_kept r r' \<and> turn r' = None"
proof -
  from assms(3) have r': "people_kept r r'" "turn r' = None" "state r' = WORD_SELECTION" "current_round r' = current_round r"
    "config r' = config r"
    using assms(2) by (auto elim!: start_turn_InrE intro!: people_kept_players)
  with assms show ?thesis
    using people_kept_inv [OF r'(1)] by (auto simp: room_inv_defs)
qed

lemma begin_playing_inv:
  assumes "room_inv r" and "pending_word_choices r \<noteq> None" and "b = begin_playing e r d w ws"
  shows "room_inv (fst b) \<and> people_kept r (fst b)"
proof -
  have k: "people_kept r (fst b)"
    by (simp add: assms(3) begin_playing_room people_kept_def list_all2_map2 list_all2_same same_seat_def)
  have "turn_inv (fst b)"
    using masks_initial [of w]
    by (simp add: assms(3) begin_playing_room turn_inv_def turn_ok_def turn_of_word_def list_all_iff)
  moreover have "round_inv (fst b)"
    using assms(1,2) by (simp add: assms(3) begin_playing_room room_inv_def round_inv_def)
  ultimately show ?thesis
    using k people_kept_inv [OF k] assms(1) by (simp add: room_inv_def)
qed

lemma handle_word_selection_inv:
  assumes "room_inv r" and "handle_word_selection e r i w = Inr (r', outs)"
  shows "room_inv r' \<and> people_kept r r'"
proof -
  have d: "drawer_index r < length (players r)"
    using assms(2) by (auto simp: handle_word_selection_def py_nth_def split: if_splits)
  show ?thesis
  proof (cases rule: handle_word_selection_cases [OF d, of e i w, case_names ignored chosen])
    case (chosen ws)
    then have "r' = fst (begin_playing e r (players r ! drawer_index r) w ws)"
      using assms(2) by (metis Inr_inject fst_conv)
    with begin_playing_inv [OF assms(1) _ refl] chosen(2) show ?thesis by simp
  qed (use assms in simp)
qed

lemma auto_select_inv:
  "room_inv r \<Longrightarrow> auto_select e r d = Inr (r', outs) \<Longrightarrow> room_inv r' \<and> people_kept r r'"
  by (auto simp: auto_select_def res_bind_Inr_iff dest: handle_word_selection_inv split: option.splits if_splits)

lemma reveal_hint_inv:
  assumes "room_inv r" and "reveal_hint e r oid = Inr (r', outs)"
  shows "room_inv r' \<and> people_kept r r'"
proof (cases "turn r")
  case (Some ts)
  show ?thesis
  proof (cases "turn_running r oid")
    case True
    have m: "masks (hint ts) (word ts)" using assms(1) Some by (simp add: room_inv_defs)
    obtain h where h: "reveal_hint_char (draws e 0) (hint ts) (word ts) = Inr h" "masks h (word ts)"
      using reveal_hint_char_step [OF m] by blast
    with assms(2) Some True have r': "r' = r\<lparr>turn := Some (ts\<lparr>hint := h\<rparr>)\<rparr>" by (auto simp: reveal_hint_def Let_def)
    then have k: "people_kept r r'" by (simp add: people_kept_players)
    from people_kept_inv [OF k] assms(1) Some h(2) show ?thesis
      by (simp add: k) (simp add: r' room_inv_defs)
  qed (use assms Some in \<open>auto simp: reveal_hint_def\<close>)
qed (use assms in \<open>auto simp: reveal_hint_def\<close>)

lemma room_inv_cong:
  assumes "players r' = players r" "host_id r' = host_id r" "config r' = config r" "state r' = state r" "turn r' = turn r"
    "current_round r' = current_round r" "used_words r' = used_words r" "pending_word_choices r' = pending_word_choices r"
    "drawer_index r' = drawer_index r" "room_role_requests r' = room_role_requests r"
  shows "room_inv r' = room_inv r"
  using assms
  by (cases "turn r") (simp_all add: room_inv_defs people_inv_def roles_inv_def active_count_def spectator_count_def)

lemma room_inv_frame [simp]:
  "room_inv (r\<lparr>loop_tasks := a\<rparr>) = room_inv r" "room_inv (r\<lparr>next_oid := b\<rparr>) = room_inv r"
  "room_inv (r\<lparr>insufficient_players_task := c\<rparr>) = room_inv r" "room_inv (r\<lparr>auto_select_task := c\<rparr>) = room_inv r"
  "room_inv (r\<lparr>room_join_requests := d\<rparr>) = room_inv r"
  by (rule room_inv_cong; simp)+

lemma people_kept_frame [simp]:
  "people_kept r (s\<lparr>loop_tasks := a\<rparr>) = people_kept r s" "people_kept r (s\<lparr>next_oid := b\<rparr>) = people_kept r s"
  "people_kept r (s\<lparr>insufficient_players_task := c\<rparr>) = people_kept r s" "people_kept r (s\<lparr>auto_select_task := c\<rparr>) = people_kept r s"
  "people_kept r (s\<lparr>drawer_index := b\<rparr>) = people_kept r s" "people_kept r (s\<lparr>room_join_requests := d\<rparr>) = people_kept r s"
  "people_kept r (s\<lparr>turn := g\<rparr>) = people_kept r s"
  "people_kept r (s\<lparr>state := h\<rparr>) = people_kept r s" "people_kept r (s\<lparr>current_round := k\<rparr>) = people_kept r s"
  by (simp_all add: people_kept_def)

lemma end_game_insufficient_players_frame:
  "\<exists>ls n t. fst (end_game_insufficient_players e r) = r\<lparr>loop_tasks := ls, next_oid := n, insufficient_players_task := t\<rparr>"
proof (cases "insufficient_players_task r")
  case None
  then show ?thesis by (simp add: end_game_insufficient_players_def create_task_def) blast
next
  case (Some t)
  then have "fst (end_game_insufficient_players e r) =
      r\<lparr>loop_tasks := loop_tasks r, next_oid := next_oid r, insufficient_players_task := insufficient_players_task r\<rparr>"
    by (simp add: end_game_insufficient_players_def)
  then show ?thesis by blast
qed

lemma end_game_insufficient_players_inv:
  assumes "end_game_insufficient_players e r = (r', outs)"
  shows "room_inv r' = room_inv r \<and> people_kept r r' \<and> turn r' = turn r \<and> state r' = state r"
proof -
  have "r' = fst (end_game_insufficient_players e r)" using assms by simp
  with end_game_insufficient_players_frame [of e r] obtain ls n t where
    "r' = r\<lparr>loop_tasks := ls, next_oid := n, insufficient_players_task := t\<rparr>" by auto
  then show ?thesis by simp
qed

lemma end_game_immediate_frame:
  "\<exists>ls t. fst (end_game_insufficient_players_immediate e r) =
     r\<lparr>loop_tasks := ls, turn := None, auto_select_task := t, state := GAME_OVER\<rparr>"
proof -
  define r1 where "r1 = (case turn r of None \<Rightarrow> r | Some ts \<Rightarrow> (cancel_turn_tasks ts r)\<lparr>turn := None\<rparr>)"
  obtain ls where r1: "r1 = r\<lparr>loop_tasks := ls, turn := None\<rparr>"
  proof (cases "turn r")
    case None
    then have "r1 = r\<lparr>loop_tasks := loop_tasks r, turn := None\<rparr>" by (simp add: r1_def)
    then show thesis by (rule that)
  qed (auto simp: r1_def cancel_turn_tasks_eq intro: that)
  let ?r2 = "if pending r1 (auto_select_task r1)
                then (cancel_if_pending (auto_select_task r1) r1)\<lparr>auto_select_task := None\<rparr> else r1"
  have "\<exists>ls t. ?r2 = r\<lparr>loop_tasks := ls, turn := None, auto_select_task := t\<rparr>"
  proof (cases "pending r1 (auto_select_task r1)")
    case True
    have "(cancel_if_pending (auto_select_task r1) r1)\<lparr>auto_select_task := None\<rparr> =
        r\<lparr>loop_tasks := filter (\<lambda>e. Some (fst e) \<noteq> auto_select_task r) ls, turn := None, auto_select_task := None\<rparr>"
      unfolding r1 cancel_if_pending_eq by (cases r) simp
    with True show ?thesis by auto
  next
    case False
    then have "?r2 = r\<lparr>loop_tasks := ls, turn := None, auto_select_task := auto_select_task r\<rparr>" by (simp add: r1)
    then show ?thesis by (intro exI)
  qed
  then obtain ls' t where r2: "?r2 = r\<lparr>loop_tasks := ls', turn := None, auto_select_task := t\<rparr>" by blast
  have "fst (end_game_insufficient_players_immediate e r) = ?r2\<lparr>state := GAME_OVER\<rparr>"
    by (simp only: end_game_insufficient_players_immediate_def r1_def [symmetric] Let_def fst_conv)
  then show ?thesis unfolding r2 by (intro exI)
qed

lemma end_game_immediate_inv:
  assumes "room_inv r" and "end_game_insufficient_players_immediate e r = (r', outs)"
  shows "room_inv r' \<and> people_kept r r' \<and> turn r' = None \<and> state r' = GAME_OVER"
proof -
  have "r' = fst (end_game_insufficient_players_immediate e r)" using assms by simp
  with end_game_immediate_frame [of e r] obtain ls t where
    r': "r' = r\<lparr>loop_tasks := ls, turn := None, auto_select_task := t, state := GAME_OVER\<rparr>" by auto
  then have k: "people_kept r r'" by (simp add: people_kept_players)
  from people_kept_inv [OF k] k assms(1) r' show ?thesis
    by (auto simp: room_inv_defs)
qed

lemma end_after_wait_inv:
  assumes "room_inv r" and "end_after_wait e r = (r', outs)"
  shows "room_inv r' \<and> people_kept r r'"
proof -
  obtain r1 o1 where im: "end_game_insufficient_players_immediate e r = (r1, o1)" by fastforce
  note inv = end_game_immediate_inv [OF assms(1) im]
  show ?thesis
  proof (cases "connected_count r < 2")
    case True
    then have "r' = r1\<lparr>insufficient_players_task := None\<rparr>" using assms(2) im by (simp add: end_after_wait_def)
    with inv show ?thesis by simp
  next
    case False
    then have "r' = r\<lparr>insufficient_players_task := None\<rparr>" using assms(2) by (simp add: end_after_wait_def)
    with assms(1) show ?thesis by simp
  qed
qed

lemma finish_game_inv:
  assumes "people_inv r" and "turn r = None" and "pending_word_choices r = None" and "0 \<le> current_round r"
    and "finish_game e r = (r', outs)"
  shows "room_inv r' \<and> people_kept r r' \<and> turn r' = None \<and> state r' = GAME_OVER"
proof -
  have "r' = fst (finish_game e r)" using assms(5) by simp
  then have r': "r' = (r\<lparr>state := GAME_OVER\<rparr>)\<lparr>players :=
      map (\<lambda>p. if is_active p then session_update (top_score (r\<lparr>state := GAME_OVER\<rparr>)) p else p) (players r)\<rparr>"
    by (simp add: finish_game_eq build_game_over_room)
  then have k: "people_kept r r'" by (auto simp: people_kept_def list_all2_map2 list_all2_same same_seat_def)
  show ?thesis using k people_kept_inv [OF k assms(1)] assms r' by (auto simp: room_inv_defs)
qed

lemma advance_inv:
  assumes "room_inv r" and "turn r = None" and "pending_word_choices r = None"
    and "current_round r \<le> num_rounds (config r)"
  shows "\<exists>r' outs. advance_turn_or_round e r = Inr (r', outs) \<and> room_inv r' \<and> people_kept r r' \<and> turn r' = None"
proof (cases rule: advance_cases [OF assms(4), of e, case_names waiting over turn])
  case waiting
  obtain r' outs where "end_game_insufficient_players e r = (r', outs)" by fastforce
  with waiting end_game_insufficient_players_inv [OF this] assms show ?thesis by auto
next
  case over
  let ?r = "r\<lparr>drawer_index := 0, current_round := current_round r + 1\<rparr>"
  obtain r' outs where fg: "finish_game e ?r = (r', outs)" by fastforce
  have k: "people_kept r ?r" by (simp add: people_kept_players)
  have "people_inv ?r" using people_kept_inv [OF k] assms(1) by (simp add: room_inv_def)
  moreover have "0 \<le> current_round ?r" using assms(1) by (simp add: room_inv_def round_inv_def)
  ultimately have "room_inv r' \<and> people_kept ?r r' \<and> turn r' = None"
    using finish_game_inv [OF _ _ _ _ fg] assms(2,3) by simp
  with over fg people_kept_trans [OF k] show ?thesis by auto
next
  case (turn j rd r' outs)
  let ?r = "r\<lparr>drawer_index := j, current_round := rd\<rparr>"
  have rd: "current_round r \<le> rd" "rd \<le> num_rounds (config r)" "rd = current_round r \<or> rd = current_round r + 1"
    using next_turn_spec_Some [OF turn(2)] assms(4) by auto
  have k: "people_kept r ?r" by (simp add: people_kept_players)
  show ?thesis
  proof (cases "state r = LOBBY")
    case False
    have "room_inv ?r"
      using people_kept_inv [OF k] assms rd False by (auto simp: room_inv_defs)
    from start_turn_inv [OF this _ turn(3)] assms(2) rd(2) have "room_inv r' \<and> people_kept ?r r' \<and> Models.turn r' = None" by simp
    with turn(4) people_kept_trans [OF k] show ?thesis by auto
  next
    case True
    have p: "people_inv ?r" using people_kept_inv [OF k] assms(1) by (simp add: room_inv_def)
    from turn(3) have f: "people_kept ?r r'" "Models.turn r' = None" "state r' = WORD_SELECTION" "current_round r' = rd"
      "config r' = config r" using assms(2) by (auto elim!: start_turn_InrE intro!: people_kept_players)
    then have "room_inv r'" using people_kept_inv [OF f(1) p] rd assms(1) by (auto simp: room_inv_defs)
    with f turn(4) people_kept_trans [OF k] show ?thesis by auto
  qed
qed

lemma turn_inv_scored:
  assumes "scored r payload r'" and "turn_inv r"
  shows "turn_inv r'"
proof -
  from assms(1) obtain qs where r': "r' = r\<lparr>players := qs\<rparr>"
    and l: "list_all2 (\<lambda>p q. same_person p q \<and> score q = score p + points_in payload (pid p)) (players r) qs"
    by (auto simp: scored_iff)
  from l have "list_all (\<lambda>p. pid p \<in> A \<longrightarrow> has_guessed p \<and> \<not> is_spectator p) qs
      = list_all (\<lambda>p. pid p \<in> A \<longrightarrow> has_guessed p \<and> \<not> is_spectator p) (players r)" for A
    by (induction rule: list_all2_induct) (simp_all add: same_person_def)
  with assms(2) r' show ?thesis by (auto simp: turn_inv_def turn_ok_def split: option.splits)
qed

lemma end_turn_inv:
  assumes "room_inv r"
  shows "\<exists>r' outs. end_turn e r reason = Inr (r', outs) \<and> room_inv r' \<and> people_kept r r'"
proof (cases "turn r")
  case (Some ts)
  let ?r1 = "cancel_turn_tasks ts r"
  have inv1: "room_inv ?r1" and k1: "people_kept r ?r1" using assms by (simp_all add: cancel_turn_tasks_eq)
  have ok: "distinct (guess_order ts)" "drawer_id ts \<notin> set (guess_order ts)" "pending_word_choices r = None" "state r = PLAYING"
    using assms Some by (simp_all add: room_inv_def turn_inv_def turn_ok_def)
  obtain r2 payload where run: "(if reason \<noteq> DRAWER_DISCONNECTED then score_turn e ts ?r1 else Inr (?r1, [])) = Inr (r2, payload)"
    and sc: "scored ?r1 payload r2"
    using score_turn_scored [OF ok(1,2), of ?r1 e] room_inv_duration [OF inv1]
    by (cases "reason = DRAWER_DISCONNECTED") auto
  have k2: "people_kept r r2" using people_kept_trans [OF k1 scored_people_kept [OF sc]] .
  have f: "state r2 = state r" "pending_word_choices r2 = pending_word_choices r" "current_round r2 = current_round r"
    "config r2 = config r" using sc by (auto simp: scored_iff cancel_turn_tasks_eq)
  have "people_inv (r2\<lparr>turn := None\<rparr>)"
    using people_kept_inv [of r "r2\<lparr>turn := None\<rparr>"] k2 assms by (simp add: room_inv_def)
  then have "room_inv (r2\<lparr>turn := None\<rparr>)" using assms f ok(4) by (simp add: room_inv_def turn_inv_def round_inv_def)
  then obtain r' outs where "advance_turn_or_round e (r2\<lparr>turn := None\<rparr>) = Inr (r', outs)" "room_inv r'"
    "people_kept (r2\<lparr>turn := None\<rparr>) r'"
    using advance_inv [of "r2\<lparr>turn := None\<rparr>" e] room_inv_rounds [OF assms] Some f ok by auto
  with run Some k2 people_kept_trans [of r "r2\<lparr>turn := None\<rparr>" r'] show ?thesis
    by (simp add: end_turn_def Let_def)
qed (use assms in \<open>simp add: end_turn_def\<close>)

lemma turn_timer_inv:
  "room_inv r \<Longrightarrow> \<exists>r' outs. turn_timer e r oid = Inr (r', outs) \<and> room_inv r' \<and> people_kept r r'"
  using end_turn_inv by (simp add: turn_timer_def)

text \<open>A guess leaves the room as it is, or it is right and recorded, and may end the turn.\<close>

lemma handle_guess_cases:
  assumes "room_inv r"
  obtains (quiet) outs where "handle_guess e r i text = Inr (r, outs)"
  | (right) ts p r2 where "turn r = Some ts" "state r = PLAYING" "get_player r i = Some p" "pid p = i"
      "r2 = (upd_player i (\<lambda>q. q\<lparr>has_guessed := True, guess_time := Some (now e)\<rparr>) r)
         \<lparr>turn := Some (ts\<lparr>guess_order := guess_order ts @ [i]\<rparr>)\<rparr>"
      "room_inv r2" "people_kept r r2"
      "handle_guess e r i text = (if all_guessed r2 (drawer_id ts)
         then res_bind (end_turn e r2 ALL_GUESSED) (\<lambda>(r3, outs). Inr (r3, broadcast_room e r2 (GuessCorrect (pname p)) @ outs))
         else Inr (r2, broadcast_room e r2 (GuessCorrect (pname p))))"
proof -
  define quiet where "quiet = (\<exists>outs. handle_guess e r i text = Inr (r, outs))"
  show thesis
  proof (cases quiet)
    case True
    with that(1) show thesis by (auto simp: quiet_def)
  next
    case False
    then obtain ts p where ts: "turn r = Some ts" and p: "get_player r i = Some p"
      by (auto simp: quiet_def handle_guess_def split: option.splits if_splits)
    note h = False [unfolded quiet_def handle_guess_def ts p option.case]
    have g: "pid p \<noteq> drawer_id ts" "state r = PLAYING" "length text \<le> 100" "\<not> is_spectator p" "\<not> has_guessed p"
      "is_connected p" "py_lower (py_strip text) = py_lower (word ts)"
      using h by (auto simp: Let_def split: if_splits)
    let ?f = "\<lambda>q. q\<lparr>has_guessed := True, guess_time := Some (now e)\<rparr>"
    let ?r2 = "(upd_player i ?f r)\<lparr>turn := Some (ts\<lparr>guess_order := guess_order ts @ [pid p]\<rparr>)\<rparr>"
    have pm: "p \<in> set (players r)" "pid p = i" using get_player_SomeD [OF p] by simp_all
    have k: "people_kept r ?r2" using people_kept_upd_player [of ?f r i] by (simp add: same_seat_def)
    have tok: "turn_ok r ts" "pending_word_choices r = None" using assms ts by (simp_all add: room_inv_def turn_inv_def)
    have fresh: "i \<notin> set (guess_order ts)" using tok(1) pm g by (auto simp: turn_ok_def list_all_iff)
    have only: "q = p" if "q \<in> set (players r)" "pid q = i" for q
      using that get_player_mem [of r q] p assms by (simp add: room_inv_def people_inv_def)
    have seats: "has_guessed q' \<and> \<not> is_spectator q'"
      if q': "q' \<in> set (map_where (\<lambda>q. pid q = i) ?f (players r))" "pid q' \<in> set (guess_order ts @ [pid p])" for q'
    proof -
      from q'(1) obtain q where q: "q \<in> set (players r)" "q' = (if pid q = i then ?f q else q)"
        by (auto simp: set_map_where)
      show ?thesis
      proof (cases "pid q = i")
        case True
        with only [OF q(1)] q(2) g show ?thesis by simp
      next
        case False
        with q q'(2) pm have "pid q \<in> set (guess_order ts)" by simp
        with tok(1) q False show ?thesis by (simp add: turn_ok_def list_all_iff)
      qed
    qed
    have "turn_inv ?r2"
      using tok fresh g(1,2) pm(2) seats by (simp add: turn_inv_def turn_ok_def list_all_iff upd_player_def)
    then have inv2: "room_inv ?r2"
      using people_kept_inv [OF k] assms by (simp add: room_inv_def round_inv_def upd_player_def)
    have run: "handle_guess e r i text = (if all_guessed ?r2 (drawer_id ts)
        then res_bind (end_turn e ?r2 ALL_GUESSED) (\<lambda>(r3, outs). Inr (r3, broadcast_room e ?r2 (GuessCorrect (pname p)) @ outs))
        else Inr (?r2, broadcast_room e ?r2 (GuessCorrect (pname p))))"
      using ts p g pm by (simp add: handle_guess_def Let_def)
    have i: "pid p = i" by (rule pm(2))
    show thesis
      by (rule that(2) [OF ts g(2) p i, of ?r2]) (use inv2 k run i in simp_all)
  qed
qed

lemma handle_guess_inv:
  assumes "room_inv r"
  shows "\<exists>r' outs. handle_guess e r i text = Inr (r', outs) \<and> room_inv r' \<and> people_kept r r'"
proof (cases rule: handle_guess_cases [OF assms, of e i "text", case_names quiet right])
  case (right ts p r2)
  obtain r3 outs where "end_turn e r2 ALL_GUESSED = Inr (r3, outs)" "room_inv r3" "people_kept r2 r3"
    using end_turn_inv [OF right(6)] by blast
  with right(6-8) people_kept_trans [OF right(7), of r3] show ?thesis
    by (cases "all_guessed r2 (drawer_id ts)") simp_all
qed (use assms in simp)

end
