(* ===== verification/Registry_Invariant.thy ===== *)
theory Registry_Invariant
  imports Room_Invariant Room_Registry
begin

text \<open>
  The invariant of the registry: rooms are stored under their codes and satisfy the room invariant,
  the player index agrees with the rooms, and pending requests refer to existing rooms. It covers a
  worker that owns all its rooms (no proxy rooms). It also holds the
  lemmas that lift a change of one room to the registry; the theory \<open>Manager_Invariant\<close> applies them.
\<close>

subsection \<open>Rooms under updates of their people\<close>

lemma valid_name_iff: "valid_name = valid_length"
  by (simp add: fun_eq_iff valid_name_def valid_length_def)

definition same_role :: "player \<Rightarrow> player \<Rightarrow> bool" where
  "same_role p q \<longleftrightarrow> pid q = pid p \<and> is_spectator q = is_spectator p \<and> has_guessed q = has_guessed p
     \<and> (valid_length (pname p) \<longrightarrow> valid_length (pname q))"

lemma same_role_refl [simp]: "same_role p p"
  by (simp add: same_role_def)

lemma same_roles_facts:
  assumes "list_all2 same_role ps qs"
  shows "map pid qs = map pid ps" "length (filter is_active qs) = length (filter is_active ps)"
    "length (filter is_spectator qs) = length (filter is_spectator ps)"
    "list_all (\<lambda>p. valid_length (pname p)) ps \<Longrightarrow> list_all (\<lambda>p. valid_length (pname p)) qs"
    "list_all (\<lambda>p. pid p \<in> A \<longrightarrow> is_spectator p) qs = list_all (\<lambda>p. pid p \<in> A \<longrightarrow> is_spectator p) ps"
    "list_all (\<lambda>p. pid p \<in> A \<longrightarrow> has_guessed p \<and> \<not> is_spectator p) qs
       = list_all (\<lambda>p. pid p \<in> A \<longrightarrow> has_guessed p \<and> \<not> is_spectator p) ps"
  using assms by (induction rule: list_all2_induct) (simp_all add: same_role_def is_active_def)

lemma room_inv_same_roles:
  assumes "room_inv r" and "list_all2 same_role (players r) qs"
  shows "room_inv (r\<lparr>players := qs\<rparr>)"
  using assms(1) same_roles_facts [OF assms(2)]
  by (auto simp: room_inv_defs people_inv_def roles_inv_def active_count_def spectator_count_def split: option.splits)

lemma room_inv_upd_player: "room_inv r \<Longrightarrow> (\<And>p. same_role p (f p)) \<Longrightarrow> room_inv (upd_player i f r)"
  unfolding upd_player_def by (rule room_inv_same_roles) (auto simp: list_all2_conv_all_nth)

lemma room_inv_upd_players: "room_inv r \<Longrightarrow> (\<And>p. same_role p (f p)) \<Longrightarrow> room_inv (upd_players f r)"
  unfolding upd_players_def by (rule room_inv_same_roles) (auto simp: list_all2_conv_all_nth)

lemma room_inv_host: "room_inv r \<Longrightarrow> h \<in> set (player_ids r) \<Longrightarrow> room_inv (r\<lparr>host_id := h\<rparr>)"
  by (auto simp: room_inv_defs people_inv_def roles_inv_def active_count_def spectator_count_def split: option.splits)

lemma filter_count_le: "length (filter P (filter Q xs)) \<le> length (filter P xs)"
  by (induction xs) auto

lemma room_inv_remove:
  assumes "room_inv r" and "h \<in> set (player_ids (remove_player i r))"
  shows "room_inv ((remove_player i r)\<lparr>host_id := h\<rparr>)"
  using assms filter_count_le [of is_active "\<lambda>p. pid p \<noteq> i" "players r"]
    filter_count_le [of is_spectator "\<lambda>p. pid p \<noteq> i" "players r"]
  by (auto simp: room_inv_defs people_inv_def roles_inv_def active_count_def spectator_count_def remove_player_def
      distinct_map_filter list_all_iff split: option.splits)

lemma room_inv_remove_same:
  assumes "room_inv r" and "host_id r \<noteq> i"
  shows "room_inv (remove_player i r)"
proof -
  have "host_id r \<in> set (player_ids (remove_player i r))"
    using assms by (auto simp: room_inv_def people_inv_def remove_player_def)
  from room_inv_remove [OF assms(1) this] show ?thesis by (simp add: remove_player_def)
qed

text \<open>The player ids a room refers to, in its list, its role requests and its turn.\<close>

definition known_ids :: "room \<Rightarrow> string set" where
  "known_ids r = set (player_ids r) \<union> (\<lambda>q. sr_player_id (snd q)) ` set (room_role_requests r)
     \<union> (case turn r of None \<Rightarrow> {} | Some ts \<Rightarrow> set (guess_order ts))"

lemma room_inv_add:
  assumes "room_inv r" and "pid p \<notin> known_ids r" and "valid_length (pname p)"
    and "if is_spectator p then spectator_count r < 50 else active_count r < 12"
  shows "room_inv (add_player p r)"
  using assms
  by (auto simp: room_inv_defs people_inv_def roles_inv_def active_count_def spectator_count_def add_player_def
      known_ids_def is_active_def list_all_iff split: option.splits if_splits)

subsection \<open>The invariant\<close>

definition registry_ok :: "manager \<Rightarrow> bool" where
  "registry_ok m \<longleftrightarrow> distinct (map fst (rooms m))
     \<and> (\<forall>c r. get_room m c = Some r \<longrightarrow> code r = c \<and> \<not> is_proxy r \<and> room_inv r)
     \<and> (\<forall>i c. player_to_room m i = Some c \<longleftrightarrow> (\<exists>r. get_room m c = Some r \<and> i \<in> set (player_ids r)))
     \<and> (\<forall>(rid, q) \<in> set (pending_role_requests m).
          \<exists>r. get_room m (sr_room_code q) = Some r \<and> (rid, q) \<in> set (room_role_requests r))
     \<and> (\<forall>(rid, q) \<in> set (pending_join_requests m). valid_length (jr_name q))
     \<and> distinct (map fst (pending_role_requests m))"

lemma registry_okD:
  assumes "registry_ok m"
  shows "distinct (map fst (rooms m))"
    and "get_room m c = Some r \<Longrightarrow> code r = c" and "get_room m c = Some r \<Longrightarrow> \<not> is_proxy r"
    and "get_room m c = Some r \<Longrightarrow> room_inv r"
    and "player_to_room m i = Some c \<longleftrightarrow> (\<exists>r. get_room m c = Some r \<and> i \<in> set (player_ids r))"
    and "(rid, q) \<in> set (pending_role_requests m) \<Longrightarrow>
      \<exists>r. get_room m (sr_room_code q) = Some r \<and> (rid, q) \<in> set (room_role_requests r)"
    and "(rid, q') \<in> set (pending_join_requests m) \<Longrightarrow> valid_length (jr_name q')"
    and "distinct (map fst (pending_role_requests m))"
  using assms by (auto simp: registry_ok_def)

lemma registry_ok_frame [simp]:
  "registry_ok (m\<lparr>ws_to_player := a\<rparr>) = registry_ok m" "registry_ok (m\<lparr>ws_to_pending_request := b\<rparr>) = registry_ok m"
  "registry_ok (m\<lparr>active_vote_kicks := c\<rparr>) = registry_ok m" "registry_ok (m\<lparr>vote_kick_cooldowns := d\<rparr>) = registry_ok m"
  "registry_ok (m\<lparr>ws_player_id := f\<rparr>) = registry_ok m"
  by (simp_all add: registry_ok_def get_room_def)

lemma new_manager_ok: "registry_ok new_manager"
  by (simp add: registry_ok_def new_manager_def get_room_def)

subsection \<open>Looking a room up\<close>

lemma get_room_put [simp]: "get_room (put_room r m) c = (if c = code r then Some r else get_room m c)"
  by (simp add: get_room_def put_room_def update_conv')

lemma get_room_frame [simp]:
  "get_room (m\<lparr>player_to_room := a\<rparr>) c = get_room m c" "get_room (m\<lparr>pending_join_requests := b\<rparr>) c = get_room m c"
  "get_room (m\<lparr>pending_role_requests := d\<rparr>) c = get_room m c" "get_room (m\<lparr>ws_to_pending_request := f\<rparr>) c = get_room m c"
  "get_room (m\<lparr>ws_to_player := g\<rparr>) c = get_room m c" "get_room (m\<lparr>active_vote_kicks := h\<rparr>) c = get_room m c"
  "get_room (m\<lparr>vote_kick_cooldowns := k\<rparr>) c = get_room m c" "get_room (m\<lparr>ws_player_id := l\<rparr>) c = get_room m c"
  "get_room (pop_player i m) c = get_room m c" "get_room (register_player i c' m) c = get_room m c"
  by (simp_all add: get_room_def pop_player_def register_player_def)

lemma put_room_fields [simp]:
  "player_to_room (put_room r m) = player_to_room m" "pending_join_requests (put_room r m) = pending_join_requests m"
  "pending_role_requests (put_room r m) = pending_role_requests m" "active_vote_kicks (put_room r m) = active_vote_kicks m"
  "vote_kick_cooldowns (put_room r m) = vote_kick_cooldowns m"
  "ws_to_pending_request (put_room r m) = ws_to_pending_request m" "ws_to_player (put_room r m) = ws_to_player m"
  "ws_player_id (put_room r m) = ws_player_id m"
  by (simp_all add: put_room_def)

lemma put_room_put_room [simp]: "code r = code r' \<Longrightarrow> put_room r' (put_room r m) = put_room r' m"
  by (simp add: put_room_def update_last)

lemma find_room_by_player_ok:
  assumes "registry_ok m"
  shows "find_room_by_player m i = (m, case player_to_room m i of None \<Rightarrow> None | Some c \<Rightarrow> get_room m c)"
proof (cases "player_to_room m i")
  case None
  have "get_player r i = None" if "(c, r) \<in> set (rooms m)" for c r
  proof -
    have "get_room m c = Some r" using that registry_okD(1) [OF assms] by (simp add: get_room_def)
    with None registry_okD(5) [OF assms, of i c] show ?thesis by (auto simp: get_player_None_iff)
  qed
  then have "List.find (\<lambda>(c, r). get_player r i \<noteq> None) (rooms m) = None" by (auto simp: find_None_iff)
  with None show ?thesis by (simp add: find_room_by_player_def)
qed (simp add: find_room_by_player_def)

text \<open>The two outcomes of a lookup by player.\<close>

lemma find_room_cases:
  assumes "registry_ok m"
  obtains (none) "find_room_by_player m i = (m, None)" "player_to_room m i = None"
  | (found) r p where "find_room_by_player m i = (m, Some r)" "get_room m (code r) = Some r" "room_inv r"
      "get_player r i = Some p" "player_to_room m i = Some (code r)"
proof (cases "player_to_room m i")
  case (Some c)
  then obtain r where r: "get_room m c = Some r" "i \<in> set (player_ids r)" using registry_okD(5) [OF assms] by blast
  then obtain p where "get_player r i = Some p" using get_player_None_iff [of r i] by (cases "get_player r i") auto
  with r Some found [of r p] find_room_by_player_ok [OF assms, of i] registry_okD(2,4) [OF assms r(1)] show ?thesis
    by simp
qed (use none find_room_by_player_ok [OF assms, of i] in simp)

subsection \<open>Replacing, adding and deleting a room\<close>

lemma replace_room_ok:
  assumes ok: "registry_ok m" and r: "get_room m (code r') = Some r" and inv: "room_inv r'" "\<not> is_proxy r'"
    and m': "rooms m' = AList.update (code r') r' (rooms m)"
    and idx: "\<And>i. player_to_room m' i = Some (code r') \<longleftrightarrow> i \<in> set (player_ids r')"
      "\<And>i d. d \<noteq> code r' \<Longrightarrow> player_to_room m' i = Some d \<longleftrightarrow> player_to_room m i = Some d"
    and roles: "\<And>rid q. (rid, q) \<in> set (pending_role_requests m') \<Longrightarrow>
      if sr_room_code q = code r' then (rid, q) \<in> set (room_role_requests r') else (rid, q) \<in> set (pending_role_requests m)"
    and joins: "\<And>rid q. (rid, q) \<in> set (pending_join_requests m') \<Longrightarrow> valid_length (jr_name q)"
    and keys: "distinct (map fst (pending_role_requests m'))"
  shows "registry_ok m'"
proof -
  have g: "get_room m' c = (if c = code r' then Some r' else get_room m c)" for c
    using m' by (simp add: get_room_def update_conv')
  have d: "distinct (map fst (rooms m'))" using m' registry_okD(1) [OF ok] by (simp add: distinct_update)
  have x: "player_to_room m' i = Some c \<longleftrightarrow> (\<exists>s. get_room m' c = Some s \<and> i \<in> set (player_ids s))" for i c
    using idx registry_okD(5) [OF ok, of i c] g by (cases "c = code r'") auto
  have q: "\<exists>s. get_room m' (sr_room_code q) = Some s \<and> (rid, q) \<in> set (room_role_requests s)"
    if "(rid, q) \<in> set (pending_role_requests m')" for rid q
    using roles [OF that] registry_okD(6) [OF ok, of rid q] g by (auto split: if_splits)
  have rs: "code s = c \<and> \<not> is_proxy s \<and> room_inv s" if "get_room m' c = Some s" for c s
    using that inv g registry_okD(2,3,4) [OF ok] by (auto split: if_splits)
  show ?thesis
    unfolding registry_ok_def using d x q joins rs keys by blast
qed

text \<open>An operation that keeps the people of a room.\<close>

lemma put_room_ok:
  assumes "registry_ok m" and "get_room m (code r') = Some r" and "room_inv r'" and "is_proxy r' = is_proxy r"
    and "set (player_ids r') = set (player_ids r)" and "room_role_requests r' = room_role_requests r"
  shows "registry_ok (put_room r' m)"
proof (rule replace_room_ok [OF assms(1,2,3)])
  show "\<not> is_proxy r'" using assms(4) registry_okD(3) [OF assms(1,2)] by simp
  show "player_to_room (put_room r' m) i = Some (code r') \<longleftrightarrow> i \<in> set (player_ids r')" for i
    using registry_okD(5) [OF assms(1), of i "code r'"] assms(2,5) by simp
  show "if sr_room_code q = code r' then (rid, q) \<in> set (room_role_requests r') else (rid, q) \<in> set (pending_role_requests m)"
    if "(rid, q) \<in> set (pending_role_requests (put_room r' m))" for rid q
    using registry_okD(6) [OF assms(1), of rid q] that assms(2,6) by (auto simp: put_room_def)
  show "valid_length (jr_name q)" if "(rid, q) \<in> set (pending_join_requests (put_room r' m))" for rid q
    using registry_okD(7) [OF assms(1), of rid q] that by simp
qed (simp_all add: put_room_def registry_okD(8) [OF assms(1)])

lemma put_room_kept:
  "registry_ok m \<Longrightarrow> get_room m (code r) = Some r \<Longrightarrow> room_inv r' \<Longrightarrow> people_kept r r' \<Longrightarrow> registry_ok (put_room r' m)"
  by (frule people_kept_counts(3), rule put_room_ok [of m r' r]) (simp_all add: people_kept_def flip: set_map)

text \<open>A player leaves a room.\<close>

lemma put_room_removed:
  assumes "registry_ok m" and "get_room m (code r') = Some r" and "room_inv r'" and "is_proxy r' = is_proxy r"
    and "set (player_ids r') = set (player_ids r) - {i}" and "i \<in> set (player_ids r)"
    and "room_role_requests r' = room_role_requests r"
  shows "registry_ok (put_room r' (pop_player i m))"
proof -
  have i: "player_to_room m i = Some (code r')" using registry_okD(5) [OF assms(1)] assms(2,6) by blast
  show ?thesis
  proof (rule replace_room_ok [OF assms(1,2,3)])
    show "\<not> is_proxy r'" using assms(4) registry_okD(3) [OF assms(1,2)] by simp
    show "player_to_room (put_room r' (pop_player i m)) j = Some (code r') \<longleftrightarrow> j \<in> set (player_ids r')" for j
      using registry_okD(5) [OF assms(1), of j "code r'"] assms(2,5) by (auto simp: pop_player_def)
    show "player_to_room (put_room r' (pop_player i m)) j = Some d \<longleftrightarrow> player_to_room m j = Some d" if "d \<noteq> code r'" for j d
      using that i by (auto simp: pop_player_def)
    show "if sr_room_code q = code r' then (rid, q) \<in> set (room_role_requests r') else (rid, q) \<in> set (pending_role_requests m)"
      if "(rid, q) \<in> set (pending_role_requests (put_room r' (pop_player i m)))" for rid q
      using registry_okD(6) [OF assms(1), of rid q] that assms(2,7) by (auto simp: pop_player_def)
    show "valid_length (jr_name q)" if "(rid, q) \<in> set (pending_join_requests (put_room r' (pop_player i m)))" for rid q
      using registry_okD(7) [OF assms(1), of rid q] that by (simp add: pop_player_def)
  qed (simp_all add: put_room_def pop_player_def registry_okD(8) [OF assms(1)])
qed

text \<open>A new player enters a room.\<close>

definition fresh_id :: "string \<Rightarrow> manager \<Rightarrow> bool" where
  "fresh_id i m \<longleftrightarrow> (\<forall>c r. get_room m c = Some r \<longrightarrow> i \<notin> known_ids r)"

lemma fresh_id_index: "registry_ok m \<Longrightarrow> fresh_id i m \<Longrightarrow> player_to_room m i = None"
  using registry_okD(5) [of m i "the (player_to_room m i)"]
  by (cases "player_to_room m i") (force simp: fresh_id_def known_ids_def)+

lemma put_room_added:
  assumes "registry_ok m" and "get_room m (code r') = Some r" and "room_inv r'" and "is_proxy r' = is_proxy r"
    and "set (player_ids r') = insert i (set (player_ids r))" and "fresh_id i m"
    and "room_role_requests r' = room_role_requests r" and "c = code r'"
  shows "registry_ok (register_player i c (put_room r' m))"
proof (rule replace_room_ok [OF assms(1,2,3)])
  show "\<not> is_proxy r'" using assms(4) registry_okD(3) [OF assms(1,2)] by simp
  show "player_to_room (register_player i c (put_room r' m)) j = Some (code r') \<longleftrightarrow> j \<in> set (player_ids r')" for j
    using registry_okD(5) [OF assms(1), of j "code r'"] assms(2,5,8) by (auto simp: register_player_def)
  show "player_to_room (register_player i c (put_room r' m)) j = Some d \<longleftrightarrow> player_to_room m j = Some d" if "d \<noteq> code r'" for j d
    using that fresh_id_index [OF assms(1,6)] assms(8) by (auto simp: register_player_def)
  show "if sr_room_code q = code r' then (rid, q) \<in> set (room_role_requests r') else (rid, q) \<in> set (pending_role_requests m)"
    if "(rid, q) \<in> set (pending_role_requests (register_player i c (put_room r' m)))" for rid q
    using registry_okD(6) [OF assms(1), of rid q] that assms(2,7) by (auto simp: register_player_def)
  show "valid_length (jr_name q)" if "(rid, q) \<in> set (pending_join_requests (register_player i c (put_room r' m)))" for rid q
    using registry_okD(7) [OF assms(1), of rid q] that by (simp add: register_player_def)
qed (simp_all add: put_room_def register_player_def registry_okD(8) [OF assms(1)])

lemma put_room_new:
  assumes ok: "registry_ok m" and "get_room m (code r) = None" and "room_inv r" and "\<not> is_proxy r"
    and i: "player_ids r = [i]" and "fresh_id i m"
  shows "registry_ok (register_player i (code r) (put_room r m))"
proof -
  let ?m = "register_player i (code r) (put_room r m)"
  have g: "get_room ?m c = (if c = code r then Some r else get_room m c)" for c by simp
  have n: "player_to_room m j \<noteq> Some (code r)" for j using registry_okD(5) [OF ok] assms(2) by simp
  have d: "distinct (map fst (rooms ?m))"
    using registry_okD(1) [OF ok] by (simp add: register_player_def put_room_def distinct_update)
  have x: "player_to_room ?m j = Some c \<longleftrightarrow> (\<exists>s. get_room ?m c = Some s \<and> j \<in> set (player_ids s))" for j c
    using n [of j] fresh_id_index [OF ok assms(6)] registry_okD(5) [OF ok, of j c] i
    by (cases "c = code r") (auto simp: register_player_def g simp flip: set_map)
  have q: "\<exists>s. get_room ?m (sr_room_code q) = Some s \<and> (rid, q) \<in> set (room_role_requests s)"
    if "(rid, q) \<in> set (pending_role_requests ?m)" for rid q
    using that registry_okD(6) [OF ok, of rid q] assms(2) g by (auto simp: register_player_def)
  have j: "valid_length (jr_name q)" if "(rid, q) \<in> set (pending_join_requests ?m)" for rid q
    using that registry_okD(7) [OF ok, of rid q] by (simp add: register_player_def)
  have k: "distinct (map fst (pending_role_requests ?m))" using registry_okD(8) [OF ok] by (simp add: register_player_def)
  have rs: "code s = c \<and> \<not> is_proxy s \<and> room_inv s" if "get_room ?m c = Some s" for c s
    using that assms(3,4) g registry_okD(2,3,4) [OF ok] by (auto split: if_splits)
  show ?thesis unfolding registry_ok_def using d x q j rs k by blast
qed

text \<open>Deleting a room whose last player may just have been removed.\<close>

lemma get_room_delete: "get_room (fst (delete_room e m c)) d = (if d = c then None else get_room m d)"
  by (simp add: delete_room_def get_room_def delete_conv' Let_def)

lemma delete_room_put: "code r = c \<Longrightarrow>
  rooms (fst (delete_room e (pop_player i (put_room r m)) c)) = AList.delete c (rooms m)"
  by (simp add: delete_room_def Let_def put_room_def pop_player_def delete_update_same)

lemma delete_room_ok:
  assumes ok: "registry_ok m" and r: "get_room m c = Some r"
    and m': "m' = m \<or> (\<exists>r'. m' = pop_player i (put_room r' m) \<and> code r' = c \<and> set (player_ids r') = set (player_ids r) - {i}
      \<and> i \<in> set (player_ids r))"
  shows "registry_ok (fst (delete_room e m' c))"
proof -
  let ?m = "fst (delete_room e m' c)"
  have g: "get_room ?m d = (if d = c then None else get_room m d)" for d
    using m' by (auto simp: get_room_delete)
  have d: "distinct (map fst (rooms ?m))"
    using m' registry_okD(1) [OF ok] delete_room_put [of _ c e i m] by (auto simp: delete_room_def Let_def distinct_delete)
  have p: "player_to_room ?m j = (if j \<in> set (player_ids r) then None else player_to_room m j)" for j
    using m' r by (auto simp: delete_room_def Let_def pop_player_def)
  have x: "player_to_room ?m j = Some b \<longleftrightarrow> (\<exists>s. get_room ?m b = Some s \<and> j \<in> set (player_ids s))" for j b
    using registry_okD(5) [OF ok, of j b] registry_okD(5) [OF ok, of j c] r by (auto simp: p g)
  have q: "\<exists>s. get_room ?m (sr_room_code q) = Some s \<and> (rid, q) \<in> set (room_role_requests s)"
    if "(rid, q) \<in> set (pending_role_requests ?m)" for rid q
    using that m' registry_okD(6) [OF ok, of rid q] g by (auto simp: delete_room_def Let_def pop_player_def)
  have j: "valid_length (jr_name q)" if "(rid, q) \<in> set (pending_join_requests ?m)" for rid q
    using that m' registry_okD(7) [OF ok, of rid q] by (auto simp: delete_room_def Let_def pop_player_def)
  have k: "distinct (map fst (pending_role_requests ?m))"
    using m' registry_okD(8) [OF ok] by (auto simp: delete_room_def Let_def pop_player_def distinct_map_filter)
  have rs: "code s = b \<and> \<not> is_proxy s \<and> room_inv s" if "get_room ?m b = Some s" for b s
    using that g registry_okD(2,3,4) [OF ok] by (auto split: if_splits)
  show ?thesis unfolding registry_ok_def using d x q j rs k by blast
qed

subsection \<open>Operations that keep who is in a room\<close>

definition room_kept :: "room \<Rightarrow> room \<Rightarrow> bool" where
  "room_kept r r' \<longleftrightarrow> room_inv r' \<and> code r' = code r \<and> is_proxy r' = is_proxy r \<and> player_ids r' = player_ids r
     \<and> room_role_requests r' = room_role_requests r"

lemma room_kept_refl: "room_inv r \<Longrightarrow> room_kept r r"
  by (simp add: room_kept_def)

lemma room_kept_trans: "room_kept r s \<Longrightarrow> room_kept s t \<Longrightarrow> room_kept r t"
  by (simp add: room_kept_def)

lemma room_kept_people: "people_kept r r' \<Longrightarrow> room_inv r' \<Longrightarrow> room_kept r r'"
  using people_kept_counts(3) [of r r'] by (simp add: people_kept_def room_kept_def)

lemma room_kept_upd_player: "room_inv r \<Longrightarrow> (\<And>p. same_role p (f p)) \<Longrightarrow> room_kept r (upd_player i f r)"
  using room_inv_upd_player [of r f i] player_ids_upd_player [of f i r]
  by (simp add: room_kept_def same_role_def upd_player_def)

lemma room_kept_cancel: "room_kept r s \<Longrightarrow> room_kept r (cancel_if_pending t s)"
  by (simp add: room_kept_def cancel_if_pending_eq)

lemma room_kept_task: "room_kept r s \<Longrightarrow> room_kept r (snd (create_task d k s))"
  by (simp add: room_kept_def create_task_def)

lemma room_kept_frame [simp]:
  "room_kept r (s\<lparr>loop_tasks := a\<rparr>) = room_kept r s" "room_kept r (s\<lparr>next_oid := b\<rparr>) = room_kept r s"
  "room_kept r (s\<lparr>insufficient_players_task := c\<rparr>) = room_kept r s" "room_kept r (s\<lparr>auto_select_task := c\<rparr>) = room_kept r s"
  "room_kept r (s\<lparr>room_join_requests := d\<rparr>) = room_kept r s"
  by (simp_all add: room_kept_def)

lemma put_room_room_kept:
  "registry_ok m \<Longrightarrow> get_room m (code r) = Some r \<Longrightarrow> room_kept r r' \<Longrightarrow> registry_ok (put_room r' m)"
  by (rule put_room_ok [of m r' r]) (simp_all add: room_kept_def flip: set_map)

subsection \<open>Association lists\<close>

lemma set_update_subset: "set (AList.update k v al) \<subseteq> insert (k, v) (set al)"
  by (induction al) (auto split: if_splits)

lemma update_mem: "(k, v) \<in> set (AList.update k v al)"
  by (induction al) auto

lemma update_keeps: "(k', v') \<in> set al \<Longrightarrow> k' \<noteq> k \<Longrightarrow> (k', v') \<in> set (AList.update k v al)"
  by (induction al) auto

lemma update_other_key: "distinct (map fst al) \<Longrightarrow> (k, v') \<in> set (AList.update k v al) \<Longrightarrow> v' = v"
  by (induction al) (auto split: if_splits simp: rev_image_eqI)

lemma distinct_update_values:
  "distinct (map (\<lambda>q. f (snd q)) al) \<Longrightarrow> f v \<notin> (\<lambda>q. f (snd q)) ` set al \<Longrightarrow>
   distinct (map (\<lambda>q. f (snd q)) (AList.update k v al))"
proof (induction al)
  case (Cons q al)
  then show ?case using set_update_subset [of k v al] by (cases q) (auto split: if_splits)
qed simp

lemma set_delete_subset: "set (AList.delete k al) \<subseteq> set al"
  by (induction al) auto

lemma delete_removes: "(k, v) \<notin> set (AList.delete k al)"
  by (induction al) auto

lemma delete_keeps: "(k', v') \<in> set al \<Longrightarrow> k' \<noteq> k \<Longrightarrow> (k', v') \<in> set (AList.delete k al)"
  by (induction al) auto

lemma registry_ok_joins:
  "registry_ok m \<Longrightarrow> (\<And>rid q. (rid, q) \<in> set P \<Longrightarrow> valid_length (jr_name q)) \<Longrightarrow> registry_ok (m\<lparr>pending_join_requests := P\<rparr>)"
  by (auto simp: registry_ok_def get_room_def)

end
