(* ===== verification/Manager_Invariant.thy ===== *)
theory Manager_Invariant
  imports Registry_Invariant Dispatch
begin

text \<open>
  Every operation of the room manager keeps the registry invariant, and none of them raises. The
  operations on one room are brought to the registry by the locale \<open>room_operation\<close>.
\<close>

subsection \<open>Operations on one room\<close>

locale room_operation =
  fixes f :: "room \<Rightarrow> (room \<times> out list) res"
  assumes keeps: "room_inv r \<Longrightarrow> f r = Inr (r', outs) \<Longrightarrow> room_inv r' \<and> people_kept r r'"
begin

lemma in_this_room_ok:
  assumes "registry_ok m" and "get_room m (code r) = Some r" and "in_this_room m r (f r) = Inr (m', outs)"
  shows "registry_ok m'"
proof -
  from assms(3) obtain r' where r': "f r = Inr (r', outs)" "m' = put_room r' m"
    by (auto simp: in_this_room_def res_bind_Inr_iff)
  from keeps [OF registry_okD(4) [OF assms(1,2)] r'(1)] put_room_kept [OF assms(1,2)] r'(2) show ?thesis by simp
qed

lemma with_room_ok:
  assumes "registry_ok m" and "with_room m i f = Inr (m', outs)"
  shows "registry_ok m'"
proof (cases rule: find_room_cases [OF assms(1), of i, case_names none found])
  case (found r p)
  with assms(2) have "in_this_room m r (f r) = Inr (m', outs)" by (simp add: with_room_def in_this_room_def)
  from in_this_room_ok [OF assms(1) found(2) this] show ?thesis .
qed (use assms in \<open>simp add: with_room_def\<close>)

end

locale total_room_operation = room_operation +
  assumes total: "room_inv r \<Longrightarrow> \<exists>r' outs. f r = Inr (r', outs)"
begin

lemma in_this_room_total:
  assumes "registry_ok m" and "get_room m (code r) = Some r"
  shows "\<exists>m' outs. in_this_room m r (f r) = Inr (m', outs) \<and> registry_ok m'"
  using total [OF registry_okD(4) [OF assms]] in_this_room_ok [OF assms] by (auto simp: in_this_room_def)

lemma with_room_total:
  assumes "registry_ok m"
  shows "\<exists>m' outs. with_room m i f = Inr (m', outs) \<and> registry_ok m'"
proof (cases rule: find_room_cases [OF assms, of i, case_names none found])
  case (found r p)
  then have "with_room m i f = in_this_room m r (f r)" by (simp add: with_room_def in_this_room_def)
  with in_this_room_total [OF assms found(2)] show ?thesis by simp
qed (use assms in \<open>simp add: with_room_def\<close>)

end

interpretation guess_op: total_room_operation "\<lambda>r. handle_guess e r i g" for e i g
  by unfold_locales (metis handle_guess_inv Inr_inject prod.inject, metis handle_guess_inv)

interpretation word_op: room_operation "\<lambda>r. handle_word_selection e r i w" for e i w
  by unfold_locales (rule handle_word_selection_inv)

interpretation auto_select_op: room_operation "\<lambda>r. auto_select e r d" for e d
  by unfold_locales (rule auto_select_inv)

interpretation timer_op: total_room_operation "\<lambda>r. turn_timer e r oid" for e oid
  by unfold_locales (metis turn_timer_inv Inr_inject prod.inject, metis turn_timer_inv)

lemma reveal_hint_total:
  assumes "room_inv r"
  shows "\<exists>r' outs. reveal_hint e r oid = Inr (r', outs)"
proof (cases "turn r")
  case (Some ts)
  then have "masks (hint ts) (word ts)" using assms by (simp add: room_inv_defs)
  from reveal_hint_char_step [OF this, of "draws e 0"] Some show ?thesis by (auto simp: reveal_hint_def Let_def)
qed (simp add: reveal_hint_def)

interpretation hint_op: total_room_operation "\<lambda>r. reveal_hint e r oid" for e oid
  by unfold_locales (rule reveal_hint_inv, assumption+, rule reveal_hint_total)

lemma handle_chat_room: "handle_chat e r i t = (r', outs) \<Longrightarrow> r' = r"
  by (auto simp: handle_chat_def Let_def split: option.splits if_splits)

interpretation chat_op: total_room_operation "\<lambda>r. Inr (chat_in_room e i t r)" for e i t
  by unfold_locales (auto simp: chat_in_room_def dest: handle_chat_room split: if_splits)

interpretation reaction_op: total_room_operation "\<lambda>r. Inr (react_in_room e i em r)" for e i em
  by unfold_locales (simp_all add: react_in_room_def)

interpretation typing_op: total_room_operation "\<lambda>r. Inr (type_in_room e i b r)" for e i b
  by unfold_locales (simp_all add: type_in_room_def)

interpretation tell_op: total_room_operation "\<lambda>r. Inr (r, if allowed r then broadcast_room e r msg else [])" for e allowed msg
  by unfold_locales simp_all

lemma end_game_now_inv:
  assumes "room_inv r" and "end_game_now e r = (r', outs)"
  shows "room_inv r' \<and> people_kept r r'"
proof -
  let ?s = "if pending r (insufficient_players_task r)
      then (cancel_if_pending (insufficient_players_task r) r)\<lparr>insufficient_players_task := None\<rparr> else r"
  have "room_inv ?s" "people_kept r ?s" using assms(1) by (simp_all add: cancel_if_pending_eq)
  moreover have "end_game_insufficient_players_immediate e ?s = (r', outs)" using assms(2) by (simp add: end_game_now_def Let_def)
  ultimately show ?thesis using end_game_immediate_inv people_kept_trans by blast
qed

interpretation end_now_op: total_room_operation
  "\<lambda>r. Inr (if host_id r = i then end_game_now e r else (r, reply ws msg))" for e i ws msg
  by unfold_locales (auto dest: end_game_now_inv split: if_splits)

interpretation after_wait_op: total_room_operation "\<lambda>r. Inr (end_after_wait e r)" for e
  by unfold_locales (auto dest: end_after_wait_inv)

subsection \<open>Vote kicks\<close>

lemma put_room_roles:
  assumes "registry_ok m" and "get_room m (code r) = Some r" and "\<And>p. same_role p (f p)"
  shows "registry_ok (put_room (upd_player i f r) m)"
proof -
  have "map pid (players (upd_player i f r)) = map pid (players r)"
    using assms(3) by (intro player_ids_upd_player) (simp add: same_role_def)
  then show ?thesis
    using room_inv_upd_player [OF registry_okD(4) [OF assms(1,2)] assms(3), of i] assms(1,2)
    by (intro put_room_ok [of m _ r]) (simp_all add: upd_player_def flip: set_map)
qed

lemma connected_candidates_members: "set (connected_candidates r) \<subseteq> set (players r)"
  by (auto simp: connected_candidates_def Let_def)

text \<open>After a player left, the host is a member again.\<close>

lemma change_host_inv:
  assumes "room_inv r" and "set cs \<subseteq> set (players (remove_player i r))" and "host_id r = i \<Longrightarrow> cs \<noteq> []"
    and "(if host_id r = i then change_host e cs (remove_player i r) else (remove_player i r, [])) = (r', outs)"
  shows "room_inv r' \<and> players r' = players (remove_player i r) \<and> code r' = code r \<and> is_proxy r' = is_proxy r
    \<and> room_role_requests r' = room_role_requests r \<and> state r' = state r \<and> turn r' = turn r
    \<and> active_count r' = active_count (remove_player i r)"
proof (cases "host_id r = i")
  case True
  with assms(3) obtain p ps where cs: "cs = p # ps" by (cases cs) auto
  with assms(4) True have "r' = (remove_player i r)\<lparr>host_id := pid p\<rparr>" by (auto simp: change_host_def Let_def)
  with room_inv_remove [OF assms(1), of "pid p" i] assms(2) cs show ?thesis by (simp add: remove_player_def active_count_def)
next
  case False
  with assms(4) room_inv_remove_same [OF assms(1)] show ?thesis by (auto simp: remove_player_def)
qed

lemma kick_from_room_inv:
  assumes "room_inv r" and "target \<in> set (players r)"
    and other: "\<exists>p \<in> set (players r). is_connected p \<and> pid p \<noteq> pid target"
  shows "\<exists>r' outs. kick_from_room e ge r target = Inr (r', outs) \<and> room_inv r' \<and> code r' = code r
    \<and> is_proxy r' = is_proxy r \<and> room_role_requests r' = room_role_requests r
    \<and> player_ids r' = player_ids (remove_player (pid target) r)"
proof -
  define r1 where "r1 = remove_player (pid target) r"
  obtain r2 o2 where r2: "(if host_id r = pid target then change_host e (connected_candidates r1) r1 else (r1, [])) = (r2, o2)"
    by fastforce
  have "connected_candidates r1 \<noteq> []" using other by (auto simp: connected_candidates_def r1_def remove_player_def filter_empty_conv)
  with change_host_inv [OF assms(1) connected_candidates_members [of r1, unfolded r1_def] _ r2 [unfolded r1_def]]
  have inv2: "room_inv r2" "code r2 = code r" "is_proxy r2 = is_proxy r" "room_role_requests r2 = room_role_requests r"
    "players r2 = players r1" by (auto simp: r1_def)
  define drawer where "drawer = (case turn r of None \<Rightarrow> False | Some ts \<Rightarrow> drawer_id ts = pid target)"
  obtain r3 o3 where r3: "(if drawer \<and> ge then end_turn e r2 DRAWER_DISCONNECTED else Inr (r2, [])) = Inr (r3, o3)"
    and inv3: "room_inv r3" "people_kept r2 r3"
    using end_turn_inv [OF inv2(1), of e DRAWER_DISCONNECTED] inv2(1) by (cases "drawer \<and> ge") auto
  obtain r4 o4 where r4: "(if in_game r3
              then if connected_active_count r3 < 2 then Inr (end_game_insufficient_players e r3)
                   else if \<not> drawer \<and> everybody_guessed r3 \<and> ge then end_turn e r3 ALL_GUESSED
                   else Inr (r3, [])
              else Inr (r3, [])) = Inr (r4, o4)" and inv4: "room_inv r4" "people_kept r3 r4"
  proof -
    obtain r5 o5 where "end_game_insufficient_players e r3 = (r5, o5)" by fastforce
    with end_game_insufficient_players_inv [OF this] end_turn_inv [OF inv3(1), of e ALL_GUESSED] inv3(1) that show thesis
      by (cases "in_game r3"; cases "connected_active_count r3 < 2"; cases "\<not> drawer \<and> everybody_guessed r3 \<and> ge") auto
  qed
  have k: "people_kept r2 r4" using people_kept_trans [OF inv3(2) inv4(2)] .
  show ?thesis
    using r2 r3 r4 inv4(1) inv2 k people_kept_counts(3) [OF k]
    by (simp add: kick_from_room_def Let_def r1_def [symmetric] drawer_def [symmetric] people_kept_def)
qed

lemma put_room_cancelled:
  assumes "registry_ok m" and "get_room m (code r) = Some r"
  shows "registry_ok (put_room (cancel_if_pending t r) m)" "get_room (put_room (cancel_if_pending t r) m) (code r) = Some (cancel_if_pending t r)"
    "code (cancel_if_pending t r) = code r" "players (cancel_if_pending t r) = players r"
  using registry_okD(4) [OF assms] put_room_ok [OF assms(1), of "cancel_if_pending t r" r] assms(2)
  by (simp_all add: cancel_if_pending_eq)

lemma ids_remove: "set (player_ids (remove_player i r)) = set (player_ids r) - {i}"
  by (auto simp: remove_player_def)

lemma execute_vote_kick_passed_ok:
  assumes "registry_ok m" and "get_room m (code r) = Some r" and "target \<in> set (players r)"
    and "\<exists>p \<in> set (players r). is_connected p \<and> pid p \<noteq> pid target"
  shows "\<exists>m' outs. execute_vote_kick_passed e ge m r target = Inr (m', outs) \<and> registry_ok m'"
proof -
  obtain r' outs where r': "kick_from_room e ge r target = Inr (r', outs)" "room_inv r'" "code r' = code r"
    "is_proxy r' = is_proxy r" "room_role_requests r' = room_role_requests r" "player_ids r' = player_ids (remove_player (pid target) r)"
    using kick_from_room_inv [OF registry_okD(4) [OF assms(1,2)] assms(3,4), of e ge] by blast
  have "registry_ok (put_room r' (pop_player (pid target) m))"
    using r' assms(1-3) ids_remove [of "pid target" r] by (intro put_room_removed [of m r' r]) (simp_all only: set_map image_eqI)
  with r'(1) show ?thesis by (simp add: execute_vote_kick_passed_def)
qed

lemma drop_vote_ok [simp]: "registry_ok (drop_vote c m) = registry_ok m" "get_room (drop_vote c m) d = get_room m d"
  by (simp_all add: drop_vote_def)

text \<open>One vote is never a majority of the voters a vote needs.\<close>

lemma voters_without_target:
  "distinct (map pid ps) \<Longrightarrow> length ps \<le> Suc (length (filter (\<lambda>p. pid p \<noteq> t) ps))"
proof (induction ps)
  case (Cons p ps)
  show ?case
  proof (cases "pid p = t")
    case True
    then have "filter (\<lambda>p. pid p \<noteq> t) ps = ps" using Cons.prems by (auto simp: filter_id_conv image_iff)
    then show ?thesis by simp
  qed (use Cons in simp)
qed simp

lemma start_vote_kick_ok:
  assumes "registry_ok m"
  shows "\<exists>m' outs msg. start_vote_kick e ge m i t = Inr (m', outs, msg) \<and> registry_ok m'"
proof (cases rule: find_room_cases [OF assms, of i, case_names none found])
  case (found r p)
  let ?cp = "filter is_connected (players r)"
  let ?ev = "filter (\<lambda>p. pid p \<noteq> t) ?cp"
  have "distinct (map pid ?cp)" using found(3) by (simp add: room_inv_def people_inv_def distinct_map_filter)
  from voters_without_target [OF this, of t] have mj: "\<not> majority (length ?ev) \<le> 1" if "\<not> length ?cp < 3"
    using that by (simp add: majority_def)
  have put: "registry_ok (put_room (snd (create_task d k r)) m)" for d k
    using assms found by (intro put_room_ok [of m _ r]) (simp_all add: create_task_def)
  show ?thesis
  proof (cases "get_player r t")
    case (Some target)
    have "\<exists>m' outs msg. start_vote_kick e ge m i t = Inr (m', outs, msg) \<and> (m' = m \<or>
        (\<exists>v. m' = (put_room (snd (create_task (now e + 30) (VoteTimeout t) r)) m)\<lparr>active_vote_kicks := v\<rparr>))"
      using found(1) Some mj
      by (auto simp: start_vote_kick_def Let_def create_task_def)
    with put assms show ?thesis by fastforce
  qed (use assms found in \<open>simp add: start_vote_kick_def\<close>)
qed (use assms in \<open>simp add: start_vote_kick_def\<close>)

lemma cast_vote_kick_ok:
  assumes "registry_ok m"
  shows "\<exists>m' outs msg. cast_vote_kick e ge m i v = Inr (m', outs, msg) \<and> registry_ok m'"
proof (cases rule: find_room_cases [OF assms, of i, case_names none found])
  case (found r p)
  show ?thesis
  proof (cases "active_vote_kicks m (code r)")
    case (Some vk)
    let ?r1 = "cancel_if_pending (vk_timeout_task vk) r"
    let ?m1 = "drop_vote (code r) (put_room ?r1 m)"
    note c = put_room_cancelled [OF assms found(2), of "vk_timeout_task vk"]
    have g: "get_player ?r1 j = get_player r j" for j by (simp add: get_player_def c)
    have pm: "p \<in> set (players r)" "pid p = i" using get_player_SomeD [OF found(4)] by auto
    have kick: "\<exists>m' outs. execute_vote_kick_passed e ge ?m1 ?r1 target = Inr (m', outs) \<and> registry_ok m'"
      if "get_player r (vk_target_id vk) = Some target" "is_connected p" "i \<noteq> vk_target_id vk" for target
      using that get_player_SomeD [OF that(1)] pm c
      by (intro execute_vote_kick_passed_ok) auto
    show ?thesis
      using found(1,4) Some c(1) kick assms
      by (cases "get_player r (vk_target_id vk)") (auto simp: cast_vote_kick_def Let_def g)
  qed (use assms found in \<open>simp add: cast_vote_kick_def\<close>)
qed (use assms in \<open>simp add: cast_vote_kick_def\<close>)

lemma handle_vote_kick_timeout_ok: "registry_ok m \<Longrightarrow> registry_ok (fst (handle_vote_kick_timeout e m c t))"
  by (simp add: handle_vote_kick_timeout_def drop_vote_def Let_def split: option.split)

subsection \<open>Leaving and disconnecting\<close>

lemma pop_player_put: "pop_player i (put_room r m) = put_room r (pop_player i m)"
  by (cases m) (simp add: pop_player_def put_room_def)

lemma replacement_candidates_facts:
  "set (replacement_candidates r) \<subseteq> set (players r)" "players r \<noteq> [] \<Longrightarrow> replacement_candidates r \<noteq> []"
  using connected_candidates_members [of r] by (auto simp: replacement_candidates_def Let_def dest: in_set_takeD)

text \<open>The common part of the two removals: the last player's room is deleted, otherwise the host is replaced.\<close>

lemma removal_ok:
  assumes "registry_ok m" and "get_room m (code r) = Some r" and "i \<in> set (player_ids r)"
  defines "r1 \<equiv> remove_player i r"
  shows "registry_ok (fst (delete_room e (pop_player i (put_room r1 m)) (code r1)))"
    and "players r1 \<noteq> [] \<Longrightarrow>
      (if host_id r1 = i then change_host e (replacement_candidates r1) r1 else (r1, [])) = (r2, outs) \<Longrightarrow>
      registry_ok (put_room r2 (pop_player i (put_room r1 m))) \<and> room_inv r2 \<and> code r2 = code r"
proof -
  show "registry_ok (fst (delete_room e (pop_player i (put_room r1 m)) (code r1)))"
    using assms(1-3) ids_remove [of i r]
    by (intro delete_room_ok [where r = r and i = i] disjI2 exI [of _ r1]) (simp_all add: r1_def, simp_all add: remove_player_def)
  assume ne: "players r1 \<noteq> []"
    and r2: "(if host_id r1 = i then change_host e (replacement_candidates r1) r1 else (r1, [])) = (r2, outs)"
  have host: "host_id (remove_player i r) = host_id r" by (simp add: remove_player_def)
  have "(if host_id r = i then change_host e (replacement_candidates r1) (remove_player i r) else (remove_player i r, [])) = (r2, outs)"
    using r2 host unfolding r1_def by simp
  from change_host_inv [OF registry_okD(4) [OF assms(1,2)] _ _ this] replacement_candidates_facts [of r1] ne
  have f: "room_inv r2" "players r2 = players r1" "code r2 = code r" "is_proxy r2 = is_proxy r"
    "room_role_requests r2 = room_role_requests r" by (auto simp: r1_def)
  have "registry_ok (put_room r2 (pop_player i m))"
    using f assms(1-3) by (intro put_room_removed [of m r2 r]) (auto simp: r1_def remove_player_def)
  moreover have "code r1 = code r2" using f by (simp add: r1_def remove_player_def)
  ultimately show "registry_ok (put_room r2 (pop_player i (put_room r1 m))) \<and> room_inv r2 \<and> code r2 = code r"
    using f by (simp add: pop_player_put)
qed

lemma mgr_remove_player_ok:
  assumes "registry_ok m"
  shows "registry_ok (fst (mgr_remove_player e m i))"
proof (cases rule: find_room_cases [OF assms, of i, case_names none found])
  case (found r p)
  have i: "i \<in> set (player_ids r)" using found(4) get_player_None_iff [of r i] by auto
  note rem = removal_ok [OF assms found(2) i, of e]
  show ?thesis
    using found(1) rem by (auto simp: mgr_remove_player_def Let_def split: prod.split)
qed (use assms in \<open>simp add: mgr_remove_player_def\<close>)

lemma permanently_remove_player_ok:
  assumes "registry_ok m"
  shows "registry_ok (fst (permanently_remove_player e m i))"
proof (cases rule: find_room_cases [OF assms, of i, case_names none found])
  case (found r p)
  have i: "i \<in> set (player_ids r)" using found(4) get_player_None_iff [of r i] by auto
  let ?r1 = "remove_player i r"
  let ?m1 = "pop_player i (put_room ?r1 m)"
  obtain r2 o2 where r2: "(if host_id ?r1 = i then change_host e (replacement_candidates ?r1) ?r1 else (?r1, [])) = (r2, o2)"
    by fastforce
  obtain r3 o3 where r3: "(if in_game r2 \<and> connected_count r2 < 2 then end_game_insufficient_players e r2 else (r2, [])) = (r3, o3)"
    by fastforce
  note rem = removal_ok [OF assms found(2) i, of e]
  have "registry_ok (put_room r3 ?m1)" if "players ?r1 \<noteq> []"
  proof -
    note ok2 = rem(2) [OF that r2]
    have "room_inv r3 \<and> people_kept r2 r3"
      using r3 ok2 end_game_insufficient_players_inv by (auto split: if_splits)
    then have "registry_ok (put_room r3 (put_room r2 ?m1))" using ok2 by (auto intro!: put_room_kept)
    moreover have "code r2 = code r3" using \<open>room_inv r3 \<and> people_kept r2 r3\<close> by (simp add: people_kept_def)
    ultimately show ?thesis by simp
  qed
  with found(1) rem(1) r2 r3 show ?thesis by (auto simp: permanently_remove_player_def Let_def)
qed (use assms in \<open>simp add: permanently_remove_player_def\<close>)

end
