(* ===== verification/Presence_Invariant.thy ===== *)
theory Presence_Invariant
  imports Manager_Invariant
begin

text \<open>
  Disconnection, host reassignment, reconnection, join requests and the requests of spectators keep
  the registry invariant.
\<close>

subsection \<open>Disconnecting\<close>

lemma disconnect_from_vote_ok:
  assumes "registry_ok (put_room r m)"
  shows "\<exists>m' outs. disconnect_from_vote e ge m r i = Inr (m', outs) \<and> registry_ok m'"
proof (cases "active_vote_kicks m (code r)")
  case (Some vk)
  let ?m = "put_room r m"
  let ?c = "cancel_if_pending (vk_timeout_task vk) r"
  have g: "get_room ?m (code r) = Some r" by simp
  note c = put_room_cancelled [OF assms g, of "vk_timeout_task vk"]
  have m: "put_room ?c m = put_room ?c ?m" using c(3) by simp
  let ?voters = "filter (\<lambda>p. is_connected p \<and> pid p \<noteq> vk_target_id vk) (players r)"
  have gp: "get_player ?c j = get_player r j" for j by (simp add: get_player_def c)
  have kick: "\<exists>m' outs. execute_vote_kick_passed e ge (drop_vote (code r) (put_room ?c m)) ?c target = Inr (m', outs) \<and> registry_ok m'"
    if "get_player r (vk_target_id vk) = Some target" "\<not> length ?voters < 2" for target
  proof (rule execute_vote_kick_passed_ok)
    have "?voters \<noteq> []" using that(2) by auto
    then show "\<exists>p \<in> set (players ?c). is_connected p \<and> pid p \<noteq> pid target"
      using get_player_SomeD [OF that(1)] by (auto simp: c filter_empty_conv)
    show "target \<in> set (players ?c)" using get_player_SomeD [OF that(1)] by (simp add: c)
    show "registry_ok (drop_vote (code r) (put_room ?c m))" using c(1) m by simp
    show "get_room (drop_vote (code r) (put_room ?c m)) (code ?c) = Some ?c" by simp
  qed
  have ok: "registry_ok (drop_vote (code r) (put_room ?c m))" using c(1) m by simp
  show ?thesis
    using Some ok kick assms
    by (cases "get_player r (vk_target_id vk)") (auto simp: disconnect_from_vote_def Let_def gp)
qed (use assms in \<open>simp add: disconnect_from_vote_def\<close>)

lemma schedule_host_reassignment_kept: "room_inv r \<Longrightarrow> room_kept r (schedule_host_reassignment e i r)"
proof (cases "get_player r i")
  case (Some p)
  assume inv: "room_inv r"
  let ?r1 = "snd (create_task (now e + 3) (ReassignHost i) (cancel_if_pending (host_reassign_task p) r))"
  have k: "room_kept r ?r1" using room_kept_task [OF room_kept_cancel [OF room_kept_refl [OF inv]]] .
  then have "room_inv ?r1" by (simp add: room_kept_def)
  then have "room_kept ?r1 (upd_player i (\<lambda>q. q\<lparr>host_reassign_task := Some (next_oid r)\<rparr>) ?r1)"
    by (rule room_kept_upd_player) (simp add: same_role_def)
  moreover have "schedule_host_reassignment e i r = upd_player i (\<lambda>q. q\<lparr>host_reassign_task := Some (next_oid r)\<rparr>) ?r1"
    using Some by (simp add: schedule_host_reassignment_def create_task_def cancel_if_pending_eq)
  ultimately show ?thesis using room_kept_trans [OF k] by simp
qed (simp add: schedule_host_reassignment_def room_kept_def)

lemma schedule_cleanup_kept: "room_inv r \<Longrightarrow> room_kept r (schedule_cleanup e i r)"
proof -
  assume inv: "room_inv r"
  let ?r1 = "snd (create_task (now e + 120) (CleanupPlayer i) r)"
  have k: "room_kept r ?r1" using room_kept_task [OF room_kept_refl [OF inv]] .
  then have "room_inv ?r1" by (simp add: room_kept_def)
  then have "room_kept ?r1 (upd_player i (\<lambda>q. q\<lparr>cleanup_task := Some (next_oid r)\<rparr>) ?r1)"
    by (rule room_kept_upd_player) (simp add: same_role_def)
  moreover have "schedule_cleanup e i r = upd_player i (\<lambda>q. q\<lparr>cleanup_task := Some (next_oid r)\<rparr>) ?r1"
    by (simp add: schedule_cleanup_def create_task_def)
  ultimately show ?thesis using room_kept_trans [OF k] by simp
qed

lemma disconnect_in_game_inv:
  assumes "room_inv r"
  shows "\<exists>r' outs. disconnect_in_game e ge r i = Inr (r', outs) \<and> room_kept r r'"
proof -
  obtain r' outs where "end_game_insufficient_players e r = (r', outs)" by fastforce
  with end_game_insufficient_players_inv [OF this] assms
  have eg: "\<exists>r' outs. end_game_insufficient_players e r = (r', outs) \<and> room_kept r r'"
    by (auto intro: room_kept_people)
  have et: "\<exists>r' outs. end_turn e r reason = Inr (r', outs) \<and> room_kept r r'" for reason
    using end_turn_inv [OF assms, of e reason] by (auto intro: room_kept_people)
  show ?thesis
    using eg et room_kept_refl [OF assms] by (auto simp: disconnect_in_game_def)
qed

lemma room_kept_inv: "room_kept r r' \<Longrightarrow> room_inv r'"
  by (simp add: room_kept_def)

lemma after_disconnect_ok:
  assumes "registry_ok m" and "get_room m (code r) = Some r"
  shows "\<exists>m' outs. after_disconnect e ge m r i = Inr (m', outs) \<and> registry_ok m'"
proof -
  note inv = registry_okD(4) [OF assms]
  define r1 where "r1 = (if host_id r = i \<and> list_ex is_connected (players r) then schedule_host_reassignment e i r else r)"
  have k1: "room_kept r r1" using schedule_host_reassignment_kept [OF inv] room_kept_refl [OF inv] by (simp add: r1_def)
  define r2 where "r2 = schedule_cleanup e i r1"
  have k2: "room_kept r r2"
    unfolding r2_def by (rule room_kept_trans [OF k1 schedule_cleanup_kept [OF room_kept_inv [OF k1]]])
  obtain r3 outs where r3: "disconnect_in_game (later_draws e) ge r2 i = Inr (r3, outs)" "room_kept r2 r3"
    using disconnect_in_game_inv [OF room_kept_inv [OF k2]] by blast
  have ok3: "registry_ok (put_room r3 m)" by (rule put_room_room_kept [OF assms room_kept_trans [OF k2 r3(2)]])
  have okd: "registry_ok (fst (delete_room e m (code r)))" using delete_room_ok [OF assms] by blast
  show ?thesis
  proof (cases "host_id r = i \<and> \<not> list_ex is_connected (players r) \<and> (state r = LOBBY \<or> state r = GAME_OVER)")
    case True
    then have "after_disconnect e ge m r i = Inr (fst (delete_room e m (code r)), snd (delete_room e m (code r)))"
      by (simp add: after_disconnect_def)
    with okd show ?thesis by blast
  next
    case False
    then have "after_disconnect e ge m r i = Inr (put_room r3 m, broadcast_room e r2 (player_list_in r2) @ outs)"
      using r3(1) by (auto simp: after_disconnect_def Let_def r1_def [symmetric] r2_def [symmetric])
    with ok3 show ?thesis by blast
  qed
qed

lemma mark_disconnected_role: "same_role p (mark_disconnected e p)"
  by (simp add: same_role_def mark_disconnected_def)

lemma handle_disconnect_found:
  assumes "registry_ok m" and "find_room_by_player m i = (m, Some r)" and "get_room m (code r) = Some r" and "get_player r i = Some p"
  shows "\<exists>m' outs. handle_disconnect e ge m i = Inr (m', outs) \<and> registry_ok m'"
proof -
  let ?r = "upd_player i (mark_disconnected e) r"
  have "registry_ok (put_room ?r m)" by (rule put_room_roles [OF assms(1,3) mark_disconnected_role])
  then obtain m1 o1 where v: "disconnect_from_vote e ge m ?r i = Inr (m1, o1)" "registry_ok m1"
    using disconnect_from_vote_ok by blast
  show ?thesis
  proof (cases "get_room m1 (code r)")
    case (Some r1)
    then have "get_room m1 (code r1) = Some r1" using registry_okD(2) [OF v(2)] by simp
    then obtain m2 o2 where "after_disconnect e ge m1 r1 i = Inr (m2, o2)" "registry_ok m2"
      using after_disconnect_ok [OF v(2)] by blast
    with v Some assms show ?thesis by (simp add: handle_disconnect_def)
  qed (use v assms in \<open>simp add: handle_disconnect_def\<close>)
qed

subsection \<open>Join requests\<close>

lemma drop_join_request_ok:
  assumes "registry_ok m"
  shows "registry_ok (drop_join_request req rid m)"
proof -
  let ?m = "m\<lparr>pending_join_requests := AList.delete rid (pending_join_requests m), ws_to_pending_request := ws\<rparr>"
  have ok: "registry_ok ?m" for ws
    using assms registry_okD(7) [OF assms] set_delete_subset [of rid "pending_join_requests m"]
    by (auto intro!: registry_ok_joins)
  show ?thesis
  proof (cases "get_room m (jr_room_code req)")
    case (Some r)
    then have "get_room m (code r) = Some r" "room_inv r" using registry_okD(2,4) [OF assms Some] by simp_all
    with ok Some show ?thesis
      by (auto simp: drop_join_request_def Let_def intro!: put_room_room_kept [of _ r] room_kept_refl)
  qed (use ok in \<open>simp add: drop_join_request_def Let_def\<close>)
qed

lemma handle_join_request_timeout_ok: "registry_ok m \<Longrightarrow> registry_ok (fst (handle_join_request_timeout e m rid))"
  by (simp add: handle_join_request_timeout_def drop_join_request_ok Let_def split: option.split)

lemma cancel_request_timeout_ok:
  assumes "registry_ok m"
  shows "registry_ok (cancel_request_timeout req m)"
proof (cases "get_room m (jr_room_code req)")
  case (Some r)
  then have "get_room m (code r) = Some r" using registry_okD(2) [OF assms Some] by simp
  with put_room_cancelled(1) [OF assms this] Some show ?thesis by (simp add: cancel_request_timeout_def)
qed (use assms in \<open>simp add: cancel_request_timeout_def\<close>)

lemma cancel_pending_join_request_ok:
  assumes "registry_ok m"
  shows "registry_ok (fst (cancel_pending_join_request e m ident))"
proof -
  let ?m = "case ident of ById _ \<Rightarrow> m | BySocket ws \<Rightarrow> m\<lparr>ws_to_pending_request := (ws_to_pending_request m)(ws := None)\<rparr>"
  have ok: "registry_ok ?m" using assms by (simp split: join_identifier.split)
  show ?thesis
    using ok drop_join_request_ok [OF cancel_request_timeout_ok [OF ok]]
    by (cases "find_join_request m ident") (auto simp: cancel_pending_join_request_def Let_def)
qed

lemma handle_disconnect_ok:
  assumes "registry_ok m"
  shows "\<exists>m' outs. handle_disconnect e ge m i = Inr (m', outs) \<and> registry_ok m'"
proof (cases rule: find_room_cases [OF assms, of i, case_names none found])
  case none
  then have "handle_disconnect e ge m i = Inr (cancel_pending_join_request e m (ById i))"
    by (simp add: handle_disconnect_def)
  with cancel_pending_join_request_ok [OF assms, of e "ById i"] show ?thesis
    by (cases "cancel_pending_join_request e m (ById i)") simp
next
  case (found r p)
  show ?thesis by (rule handle_disconnect_found [OF assms found(1,2,4)])
qed

lemma enter_room_ok:
  assumes "registry_ok m" and "get_room m (code r) = Some r" and "fresh_id (pid p) m" and "valid_length (pname p)"
    and "if is_spectator p then spectator_count r < 50 else active_count r < 12"
    and "enter_room p ws r m = (m', r')"
  shows "registry_ok m' \<and> room_inv r' \<and> get_room m' (code r') = Some r' \<and> code r' = code r"
proof -
  have r': "r' = add_player p r" and m': "m' = (register_player (pid p) (code r) (put_room r' m))\<lparr>ws_to_player := (ws_to_player m)(ws \<mapsto> (pid p, code r))\<rparr>"
    using assms(6) by (auto simp: enter_room_def Let_def register_player_def)
  have "pid p \<notin> known_ids r" using assms(2,3) by (auto simp: fresh_id_def)
  then have inv: "room_inv r'" unfolding r' by (rule room_inv_add [OF registry_okD(4) [OF assms(1,2)] _ assms(4,5)])
  then have "registry_ok (register_player (pid p) (code r) (put_room r' m))"
    using assms(1-3) by (intro put_room_added [of m r' r]) (simp_all add: r' add_player_def)
  with inv show ?thesis by (simp add: m' r' add_player_def)
qed

lemma request_to_join_ok:
  assumes "registry_ok m" and "get_room m (code r) = Some r" and "valid_length name"
  shows "registry_ok (fst (request_to_join e m r name ws av))"
proof -
  note inv = registry_okD(4) [OF assms(1,2)]
  have put: "registry_ok (put_room ((snd (create_task d k r))\<lparr>room_join_requests := a\<rparr>) m)" for d k a
    using put_room_room_kept [OF assms(1,2)] room_kept_task [OF room_kept_refl [OF inv], of d k] by simp
  have upd: "registry_ok ((put_room ((snd (create_task d k r))\<lparr>room_join_requests := a\<rparr>) m)
      \<lparr>pending_join_requests := AList.update rid req (pending_join_requests m)\<rparr>)"
    if "jr_name req = name" for d k a rid req
    using set_update_subset [of rid req "pending_join_requests m"] registry_okD(7) [OF assms(1)] assms(3) that
    by (intro registry_ok_joins [OF put]) auto
  show ?thesis
    using assms(1) upd by (auto simp: request_to_join_def Let_def create_task_def split: option.split)
qed

text \<open>The capacity checks imply the bounds of the invariant.\<close>

lemma capacity:
  "\<not> spectators_full r \<longleftrightarrow> spectator_count r < 50"
  "room_inv r \<Longrightarrow> \<not> players_full r \<Longrightarrow> active_count r < 12"
  by (auto simp: spectators_full_def players_full_def MAX_PLAYERS_HARD_CAP_def)

lemma join_room_local_ok:
  assumes "registry_ok m" and "get_room m (code r) = Some r" and "valid_length name" and "fresh_id (uuid e 0) m"
  shows "registry_ok (fst (join_room_local e m r name ws av sp pw))"
proof -
  let ?p = "(new_player (uuid e 0) name)\<lparr>websocket := Some ws, avatar := av, is_spectator := sp\<rparr>"
  obtain m1 r1 where en: "enter_room ?p ws r m = (m1, r1)" by fastforce
  have "registry_ok m1" if "if sp then \<not> spectators_full r else \<not> players_full r"
    using enter_room_ok [OF assms(1,2) _ _ _ en] assms(3,4) that capacity registry_okD(4) [OF assms(1,2)]
    by (auto simp: new_player_def split: if_splits)
  then show ?thesis
    using assms(1) request_to_join_ok [OF assms(1-3)] en by (auto simp: join_room_local_def Let_def)
qed

text \<open>Settling a join request leaves every room but for its tasks and requests.\<close>

definition bookkeeping :: "room \<Rightarrow> room \<Rightarrow> bool" where
  "bookkeeping r r' \<longleftrightarrow> (\<exists>ls js. r' = r\<lparr>loop_tasks := ls, room_join_requests := js\<rparr>)"

lemma bookkeepingI: "r' = r\<lparr>loop_tasks := ls, room_join_requests := js\<rparr> \<Longrightarrow> bookkeeping r r'"
  unfolding bookkeeping_def by blast

lemma bookkeeping_refl: "bookkeeping r r"
  by (rule bookkeepingI [where ls = "loop_tasks r" and js = "room_join_requests r"]) simp

lemma bookkeeping_trans: "bookkeeping r s \<Longrightarrow> bookkeeping s t \<Longrightarrow> bookkeeping r t"
  by (auto simp: bookkeeping_def) (metis (no_types, lifting) room.update_convs)

lemma drop_join_request_room:
  assumes "registry_ok m"
  shows "rel_option bookkeeping (get_room m c) (get_room (drop_join_request req rid m) c)"
proof (cases "get_room m (jr_room_code req)")
  case (Some r)
  let ?r = "r\<lparr>room_join_requests := AList.delete rid (room_join_requests r)\<rparr>"
  have "bookkeeping r ?r" by (rule bookkeepingI [where ls = "loop_tasks r"]) simp
  with Some registry_okD(2) [OF assms Some] show ?thesis
    by (cases "get_room m c") (auto simp: drop_join_request_def Let_def bookkeeping_refl)
qed (simp add: drop_join_request_def Let_def option.rel_refl bookkeeping_refl)

lemma cancel_request_timeout_room:
  assumes "registry_ok m"
  shows "rel_option bookkeeping (get_room m c) (get_room (cancel_request_timeout req m) c)"
proof (cases "get_room m (jr_room_code req)")
  case (Some r)
  have "bookkeeping r (cancel_if_pending t r)" for t
    by (rule bookkeepingI [where js = "room_join_requests r"]) (simp add: cancel_if_pending_eq)
  with Some registry_okD(2) [OF assms Some] show ?thesis
    by (cases "get_room m c") (auto simp: cancel_request_timeout_def bookkeeping_refl cancel_if_pending_eq)
qed (simp add: cancel_request_timeout_def option.rel_refl bookkeeping_refl)

lemma settled_room:
  assumes "registry_ok m"
  shows "rel_option bookkeeping (get_room m c) (get_room (drop_join_request req rid (cancel_request_timeout req m)) c)"
proof (cases "get_room m c")
  case None
  with cancel_request_timeout_room [OF assms, of c req] drop_join_request_room [OF cancel_request_timeout_ok [OF assms, of req], of c req rid]
  show ?thesis by simp
next
  case (Some r)
  with cancel_request_timeout_room [OF assms, of c req] obtain s where s: "get_room (cancel_request_timeout req m) c = Some s" "bookkeeping r s"
    by (auto simp: option_rel_Some1)
  with drop_join_request_room [OF cancel_request_timeout_ok [OF assms, of req], of c req rid] obtain t where
    "get_room (drop_join_request req rid (cancel_request_timeout req m)) c = Some t" "bookkeeping s t"
    by (auto simp: option_rel_Some1)
  with s Some bookkeeping_trans show ?thesis by simp
qed

lemma bookkeeping_facts:
  assumes "bookkeeping r r'"
  shows "known_ids r' = known_ids r" "spectator_count r' = spectator_count r" "active_count r' = active_count r" "code r' = code r"
  using assms by (auto simp: bookkeeping_def known_ids_def spectator_count_def active_count_def)

lemma accept_join_request_ok:
  assumes "registry_ok m" and "get_room m (code r) = Some r" and "fresh_id (uuid e 0) m" and "valid_length (jr_name req)"
    and "if sp then spectator_count r < 50 else active_count r < 12"
  shows "registry_ok (fst (accept_join_request e m req rid sp r))"
proof -
  let ?p = "(new_player (uuid e 0) (jr_name req))\<lparr>websocket := Some (jr_websocket req), avatar := jr_avatar req, is_spectator := sp\<rparr>"
  obtain m1 r1 where en: "enter_room ?p (jr_websocket req) r m = (m1, r1)" by fastforce
  have "fresh_id (pid ?p) m" "valid_length (pname ?p)" "if is_spectator ?p then spectator_count r < 50 else active_count r < 12"
    using assms(3-5) by (simp_all add: new_player_def)
  note ok = enter_room_ok [OF assms(1,2) this en, THEN conjunct1] enter_room_ok [OF assms(1,2) this en, THEN conjunct2, THEN conjunct1]
    enter_room_ok [OF assms(1,2) this en, THEN conjunct2, THEN conjunct2, THEN conjunct1]
  have "room_kept r1 ((cancel_if_pending (insufficient_players_task r1) r1)\<lparr>insufficient_players_task := None\<rparr>)"
    using room_kept_cancel [OF room_kept_refl [OF ok(2)]] by simp
  with put_room_room_kept [OF ok(1,3)] room_kept_refl [OF ok(2)] en show ?thesis
    by (simp add: accept_join_request_def Let_def)
qed

lemma respond_join_request_ok:
  assumes "registry_ok m" and "fresh_id (uuid e 0) m"
  shows "registry_ok (fst (respond_join_request e m h rid act))"
proof (cases "map_of (pending_join_requests m) rid")
  case (Some req)
  let ?s = "drop_join_request req rid (cancel_request_timeout req m)"
  have ok: "registry_ok ?s" by (rule drop_join_request_ok [OF cancel_request_timeout_ok [OF assms(1)]])
  have name: "valid_length (jr_name req)" using registry_okD(7) [OF assms(1) map_of_SomeD [OF Some]] .
  have fresh: "fresh_id (uuid e 0) ?s"
    unfolding fresh_id_def
  proof (intro allI impI)
    fix c r' assume r': "get_room ?s c = Some r'"
    with settled_room [OF assms(1), of c req rid] obtain r where "get_room m c = Some r" "bookkeeping r r'"
      by (auto simp: option_rel_Some2)
    with assms(2) bookkeeping_facts show "uuid e 0 \<notin> known_ids r'" by (auto simp: fresh_id_def)
  qed
  show ?thesis
  proof (cases "get_room m (jr_room_code req)")
    case (Some r)
    with settled_room [OF assms(1), of "jr_room_code req" req rid] obtain r' where
      r': "get_room ?s (jr_room_code req) = Some r'" "bookkeeping r r'" by (auto simp: option_rel_Some1)
    note inv = registry_okD(4) [OF assms(1) Some]
    have acc: "registry_ok (fst (accept_join_request e ?s req rid sp r'))"
      if "if sp then \<not> spectators_full r else \<not> players_full r" for sp
      using that r' bookkeeping_facts [OF r'(2)] capacity [of r] inv registry_okD(2) [OF ok r'(1)] registry_okD(2) [OF assms(1) Some]
      by (intro accept_join_request_ok [OF ok _ fresh name]) (auto split: if_splits)
    show ?thesis
      using \<open>map_of (pending_join_requests m) rid = Some req\<close> Some r'(1) acc [of True] acc [of False] ok assms(1)
      by (simp add: respond_join_request_def Let_def)
  qed (use Some assms in \<open>simp add: respond_join_request_def\<close>)
qed (use assms in \<open>simp add: respond_join_request_def\<close>)

end
