(* ===== verification/Lobby_Invariant.thy ===== *)
theory Lobby_Invariant
  imports Presence_Invariant
begin

text \<open>
  Host changes, reconnection, the requests of spectators, the lobby and room creation keep the
  registry invariant.
\<close>

subsection \<open>Host and reconnection\<close>

lemma put_room_host:
  assumes "registry_ok m" and "get_room m (code r) = Some r" and "h \<in> set (player_ids r)"
  shows "registry_ok (put_room (r\<lparr>host_id := h\<rparr>) m)"
  using room_inv_host [OF registry_okD(4) [OF assms(1,2)] assms(3)] assms
  by (intro put_room_ok [of m _ r]) simp_all

lemma reassign_host_if_disconnected_ok:
  assumes "registry_ok m"
  shows "registry_ok (fst (reassign_host_if_disconnected e m c h))"
proof (cases "get_room m c")
  case (Some r)
  then have r: "get_room m (code r) = Some r" using registry_okD(2) [OF assms Some] by simp
  have "registry_ok (fst (delete_room e m (code r)))" using delete_room_ok [OF assms r] by blast
  moreover have "registry_ok (put_room (r\<lparr>host_id := pid p\<rparr>) m)" if "p \<in> set (connected_candidates r)" for p
    using put_room_host [OF assms r] that connected_candidates_members [of r] by auto
  ultimately show ?thesis
    using Some assms by (cases "connected_candidates r") (auto simp: reassign_host_if_disconnected_def Let_def)
qed (use assms in \<open>simp add: reassign_host_if_disconnected_def\<close>)

lemma restore_connection_role: "same_role p (restore_connection ws av p)"
  by (simp add: same_role_def restore_connection_def)

lemma clear_timers_kept:
  assumes "room_inv r"
  shows "room_kept r (clear_timers i p r)"
proof -
  have step: "room_kept s (upd_player i f (cancel_if_pending t s))" if "room_inv s" "\<And>p. same_role p (f p)" for s t f
    using that room_kept_cancel [OF room_kept_refl [OF that(1)], of t]
    by (blast intro: room_kept_trans room_kept_upd_player room_kept_inv)
  let ?r1 = "if pending r (cleanup_task p) then upd_player i (\<lambda>q. q\<lparr>cleanup_task := None\<rparr>) (cancel_if_pending (cleanup_task p) r) else r"
  have k1: "room_kept r ?r1"
    using step [OF assms, of "\<lambda>q. q\<lparr>cleanup_task := None\<rparr>" "cleanup_task p"] room_kept_refl [OF assms] by (simp add: same_role_def)
  have "room_kept ?r1 (upd_player i (\<lambda>q. q\<lparr>host_reassign_task := None\<rparr>) (cancel_if_pending (host_reassign_task p) ?r1))"
    by (rule step [OF room_kept_inv [OF k1]]) (simp add: same_role_def)
  from room_kept_trans [OF k1 this] k1 show ?thesis unfolding clear_timers_def Let_def by (simp only: if_split) simp
qed

lemma reconnect_player_ok:
  assumes "registry_ok m" and "get_room m (code r) = Some r"
  shows "registry_ok (fst (reconnect_player e m r name ws av))"
proof (cases "find_returning r name")
  case (Some p)
  define r1 where "r1 = upd_player (pid p) (restore_connection ws av) (clear_timers (pid p) p r)"
  note k0 = clear_timers_kept [OF registry_okD(4) [OF assms], of "pid p" p]
  have k1: "room_kept r r1"
    unfolding r1_def by (rule room_kept_trans [OF k0 room_kept_upd_player [OF room_kept_inv [OF k0] restore_connection_role]])
  have "room_kept r ((cancel_if_pending t r1)\<lparr>insufficient_players_task := None\<rparr>)" for t
    using room_kept_cancel [OF k1] by simp
  with put_room_room_kept [OF assms] k1 Some show ?thesis
    by (simp add: reconnect_player_def Let_def r1_def [symmetric])
qed (use assms in \<open>simp add: reconnect_player_def\<close>)

subsection \<open>Requests of spectators\<close>

text \<open>A room with other role requests, and the registry's requests changed in step.\<close>

lemma put_room_requests:
  assumes "registry_ok m" and "get_room m (code r) = Some r" and "room_inv r'" and "code r' = code r" and "is_proxy r' = is_proxy r"
    and "player_ids r' = player_ids r" and "distinct (map fst P)"
    and "\<And>rid q. (rid, q) \<in> set P \<Longrightarrow>
      if sr_room_code q = code r then (rid, q) \<in> set (room_role_requests r') else (rid, q) \<in> set (pending_role_requests m)"
  shows "registry_ok ((put_room r' m)\<lparr>pending_role_requests := P\<rparr>)"
proof (rule replace_room_ok [OF assms(1) _ assms(3)])
  show "get_room m (code r') = Some r" using assms(2,4) by simp
  show "\<not> is_proxy r'" using assms(5) registry_okD(3) [OF assms(1,2)] by simp
  show "player_to_room ((put_room r' m)\<lparr>pending_role_requests := P\<rparr>) i = Some (code r') \<longleftrightarrow> i \<in> set (player_ids r')" for i
    using registry_okD(5) [OF assms(1), of i "code r"] assms(2,4,6) by simp
  show "valid_length (jr_name q)" if "(rid, q) \<in> set (pending_join_requests ((put_room r' m)\<lparr>pending_role_requests := P\<rparr>))" for rid q
    using registry_okD(7) [OF assms(1), of rid q] that by simp
qed (use assms in \<open>simp_all add: put_room_def\<close>)

lemma roles_inv_update:
  assumes "roles_inv r" and "sr_player_id q \<notin> (\<lambda>q. sr_player_id (snd q)) ` set (room_role_requests r)"
    and "list_all (\<lambda>p. pid p = sr_player_id q \<longrightarrow> is_spectator p) (players r)"
  shows "roles_inv (r\<lparr>room_role_requests := AList.update rid q (room_role_requests r)\<rparr>)"
  using assms distinct_update_values [of sr_player_id "room_role_requests r" q rid] set_update_subset [of rid q "room_role_requests r"]
  by (fastforce simp: roles_inv_def list_all_iff)

lemma roles_inv_delete: "roles_inv r \<Longrightarrow> roles_inv (r\<lparr>room_role_requests := AList.delete rid (room_role_requests r)\<rparr>)"
  using set_delete_subset [of rid "room_role_requests r"]
  by (fastforce simp: roles_inv_def list_all_iff AList.delete_eq distinct_map_filter)

lemma room_inv_roles: "room_inv r \<Longrightarrow> roles_inv (r\<lparr>room_role_requests := q\<rparr>) \<Longrightarrow> room_inv (r\<lparr>room_role_requests := q\<rparr>)"
  by (auto simp: room_inv_defs people_inv_def active_count_def spectator_count_def split: option.splits)

lemma request_become_player_ok:
  assumes "registry_ok m"
  shows "registry_ok (fst (request_become_player e m i))"
proof (cases rule: find_room_cases [OF assms, of i, case_names none found])
  case (found r p)
  let ?f = "\<lambda>q. q\<lparr>become_player_requests_count := become_player_requests_count q + 1\<rparr>"
  let ?r2 = "snd (create_task (now e + 45) (ExpireRoleRequest (uuid e 0) i) (upd_player i ?f r))"
  let ?q = "\<lparr>sr_request_id = uuid e 0, sr_room_code = code r, sr_player_id = i, sr_name = pname p,
             sr_avatar = avatar p, sr_created_at = now e, sr_timeout_task = Some (next_oid r)\<rparr>"
  let ?r3 = "?r2\<lparr>room_role_requests := AList.update (uuid e 0) ?q (room_role_requests ?r2)\<rparr>"
  let ?P = "AList.update (uuid e 0) ?q (pending_role_requests m)"
  have k: "room_kept r ?r2"
    by (rule room_kept_task [OF room_kept_upd_player [OF found(3)]]) (simp add: same_role_def)
  have ok: "registry_ok ((put_room ?r3 m)\<lparr>pending_role_requests := ?P\<rparr>)"
    if sp: "is_spectator p" and new: "\<not> list_ex (\<lambda>(rid, q). sr_player_id q = i) (room_role_requests r)"
  proof -
    have only: "is_spectator q" if "q \<in> set (players r)" "pid q = i" for q
      using that get_player_mem [of r q] found(3,4) sp by (simp add: room_inv_def people_inv_def)
    have "roles_inv ?r2" using room_kept_inv [OF k] by (simp only: room_inv_def people_inv_def)
    moreover have "room_role_requests ?r2 = room_role_requests r" using k by (simp only: room_kept_def)
    then have "sr_player_id ?q \<notin> (\<lambda>q. sr_player_id (snd q)) ` set (room_role_requests ?r2)"
      using new by (auto simp: list_ex_iff)
    moreover have "list_all (\<lambda>p. pid p = sr_player_id ?q \<longrightarrow> is_spectator p) (players ?r2)"
      using only by (simp add: create_task_def upd_player_def map_where_def list_all_iff ball_Un)
    ultimately have "roles_inv ?r3" by (rule roles_inv_update)
    then have inv: "room_inv ?r3" by (rule room_inv_roles [OF room_kept_inv [OF k]])
    have roles: "if sr_room_code q = code r then (rid, q) \<in> set (room_role_requests ?r3) else (rid, q) \<in> set (pending_role_requests m)"
      if rq: "(rid, q) \<in> set ?P" for rid q
    proof (cases "(rid, q) = (uuid e 0, ?q)")
      case False
      then have old: "(rid, q) \<in> set (pending_role_requests m)" and ne: "rid \<noteq> uuid e 0"
        using rq set_update_subset [of "uuid e 0" ?q "pending_role_requests m"] update_other_key [OF registry_okD(8) [OF assms]] by auto
      from registry_okD(6) [OF assms old] found(2) k old update_keeps [OF _ ne] show ?thesis
        by (auto simp: room_kept_def)
    qed (use update_mem in auto)
    have "code ?r3 = code r" "is_proxy ?r3 = is_proxy r" "player_ids ?r3 = player_ids r" using k by (simp_all add: room_kept_def)
    moreover have "distinct (map fst ?P)" by (rule distinct_update [OF registry_okD(8) [OF assms]])
    ultimately show ?thesis using roles by (rule put_room_requests [OF assms found(2) inv])
  qed
  show ?thesis
    using found(1,4) ok assms
    by (cases "players_full r"; cases "is_connected p"; cases "is_spectator p"; cases "become_player_requests_count p \<ge> 2";
        cases "list_ex (\<lambda>(rid, q). sr_player_id q = i) (room_role_requests r)")
       (simp_all add: request_become_player_def Let_def create_task_def upd_player_def)
qed (use assms in \<open>simp add: request_become_player_def\<close>)

lemma drop_role_request_ok:
  assumes "registry_ok m" and "get_room m (code r) = Some r" and "room_kept r s" and "drop_role_request rid s m = (m', r')"
  shows "registry_ok m'" "get_room m' (code r') = Some r'" "code r' = code r"
    "r' = s\<lparr>room_role_requests := AList.delete rid (room_role_requests s)\<rparr>"
proof -
  let ?P = "AList.delete rid (pending_role_requests m)"
  have m': "m' = (put_room r' m)\<lparr>pending_role_requests := ?P\<rparr>"
    and r': "r' = s\<lparr>room_role_requests := AList.delete rid (room_role_requests s)\<rparr>"
    using assms(4) by (auto simp: drop_role_request_def Let_def)
  have "roles_inv r'" unfolding r' using room_kept_inv [OF assms(3)] by (intro roles_inv_delete) (simp add: room_inv_def people_inv_def)
  then have inv: "room_inv r'" unfolding r' by (rule room_inv_roles [OF room_kept_inv [OF assms(3)]])
  have f: "code r' = code r" "is_proxy r' = is_proxy r" "player_ids r' = player_ids r"
    using assms(3) by (simp_all add: r' room_kept_def)
  have d: "distinct (map fst ?P)" by (rule distinct_delete [OF registry_okD(8) [OF assms(1)]])
  have roles: "if sr_room_code q = code r then (k, q) \<in> set (room_role_requests r') else (k, q) \<in> set (pending_role_requests m)"
    if kq: "(k, q) \<in> set ?P" for k q
  proof -
    have old: "(k, q) \<in> set (pending_role_requests m)" and ne: "k \<noteq> rid"
      using kq set_delete_subset [of rid "pending_role_requests m"] delete_removes [of rid q "pending_role_requests m"] by auto
    from registry_okD(6) [OF assms(1) old] assms(2,3) delete_keeps [OF _ ne] old show ?thesis
      by (auto simp: r' room_kept_def)
  qed
  show "registry_ok m'" unfolding m' using f d roles by (rule put_room_requests [OF assms(1,2) inv])
  show "get_room m' (code r') = Some r'" by (simp add: m')
qed (use assms(3,4) in \<open>auto simp: drop_role_request_def Let_def room_kept_def\<close>)

lemma expire_role_request_ok:
  assumes "registry_ok m"
  shows "registry_ok (fst (expire_role_request e m c rid i))"
proof (cases "get_room m c")
  case (Some r)
  then have r: "get_room m (code r) = Some r" "room_inv r" using registry_okD(2,4) [OF assms Some] by simp_all
  obtain m' r' where d: "drop_role_request rid r m = (m', r')" by fastforce
  from drop_role_request_ok(1) [OF assms r(1) room_kept_refl [OF r(2)] d] Some d show ?thesis
    by (simp add: expire_role_request_def)
qed (use assms in \<open>simp add: expire_role_request_def\<close>)

lemma cancel_spectator_role_request_ok:
  assumes "registry_ok m"
  shows "registry_ok (fst (cancel_spectator_role_request e m i rq))"
proof (cases rule: find_room_cases [OF assms, of i, case_names none found])
  case (found r p)
  have "registry_ok (fst (drop_role_request rid (cancel_if_pending t r) m))" for rid t
    using drop_role_request_ok(1) [OF assms found(2) room_kept_cancel [OF room_kept_refl [OF found(3)]] prod.collapse [symmetric]] .
  with found(1) assms show ?thesis
    by (auto simp: cancel_spectator_role_request_def Let_def case_prod_beta split: option.split)
qed (use assms in \<open>simp add: cancel_spectator_role_request_def\<close>)

text \<open>A spectator becomes a player.\<close>

lemma promote_simps [simp]:
  "pid (promote p) = pid p" "pname (promote p) = pname p" "\<not> is_spectator (promote p)" "\<not> has_guessed (promote p)"
  by (simp_all add: promote_def)

lemma promote_counts:
  "distinct (map pid ps) \<Longrightarrow>
   length (filter is_active (map_where (\<lambda>p. pid p = i) promote ps)) \<le> Suc (length (filter is_active ps))"
  "length (filter is_spectator (map_where (\<lambda>p. pid p = i) promote ps)) \<le> length (filter is_spectator ps)"
proof (induction ps)
  case (Cons p ps)
  { case 1
    have "map_where (\<lambda>q. pid q = i) promote ps = ps" if "pid p = i"
      using that 1 by (auto simp: map_where_def image_iff intro!: map_idI)
    with 1 Cons show ?case by (auto simp: is_active_def)
  next
    case 2
    with Cons show ?case by auto }
qed simp_all

lemma room_inv_promote:
  assumes inv: "room_inv r" and sp: "\<And>p. p \<in> set (players r) \<Longrightarrow> pid p = i \<Longrightarrow> is_spectator p" and "active_count r < 12"
    and norole: "i \<notin> (\<lambda>q. sr_player_id (snd q)) ` set (room_role_requests r)"
  shows "room_inv (upd_player i promote r)"
proof -
  let ?r = "upd_player i promote r"
  have ids: "player_ids ?r = player_ids r" by (rule player_ids_upd_player) simp
  have c: "active_count ?r \<le> 12" "spectator_count ?r \<le> 50"
    using promote_counts [where ps = "players r" and i = i] inv assms(3)
    by (auto simp: active_count_def spectator_count_def upd_player_def room_inv_def people_inv_def)
  have "list_all (\<lambda>p. valid_length (pname p)) (players ?r)"
    using inv by (simp add: room_inv_def people_inv_def upd_player_def map_where_def list_all_iff ball_Un)
  moreover have "roles_inv ?r"
    using inv norole by (simp add: room_inv_def people_inv_def roles_inv_def upd_player_def map_where_def list_all_iff ball_Un)
  ultimately have p: "people_inv ?r"
    using inv ids c by (simp add: room_inv_def people_inv_def) (simp add: upd_player_def)
  have "turn_ok ?r ts" if "turn_ok r ts" for ts
    using that sp by (auto simp: turn_ok_def upd_player_def map_where_def list_all_iff ball_Un)
  then have "turn_inv ?r" using inv by (auto simp: room_inv_def turn_inv_def upd_player_def split: option.splits)
  with p inv show ?thesis by (simp add: room_inv_def round_inv_def upd_player_def)
qed

lemma role_request_dropped:
  assumes "roles_inv r" and "(rid, q) \<in> set (room_role_requests r)"
  shows "sr_player_id q \<notin> (\<lambda>q. sr_player_id (snd q)) ` set (AList.delete rid (room_role_requests r))"
proof
  assume "sr_player_id q \<in> (\<lambda>q. sr_player_id (snd q)) ` set (AList.delete rid (room_role_requests r))"
  then obtain k q' where q': "(k, q') \<in> set (AList.delete rid (room_role_requests r))" "sr_player_id q' = sr_player_id q" by auto
  then have "(k, q') \<in> set (room_role_requests r)" "k \<noteq> rid"
    using set_delete_subset [of rid "room_role_requests r"] delete_removes [of rid q' "room_role_requests r"] by auto
  moreover have "inj_on (\<lambda>q. sr_player_id (snd q)) (set (room_role_requests r))"
    using assms(1) by (simp add: roles_inv_def distinct_map)
  ultimately show False using assms(2) q'(2) by (auto dest!: inj_onD [of _ _ "(k, q')" "(rid, q)"])
qed

lemma respond_spectator_role_request_ok:
  assumes "registry_ok m"
  shows "registry_ok (fst (respond_spectator_role_request e m h rid act))"
proof (cases "map_of (pending_role_requests m) rid")
  case (Some req)
  then have mem: "(rid, req) \<in> set (pending_role_requests m)" by (rule map_of_SomeD)
  then obtain r where r: "get_room m (sr_room_code req) = Some r" "(rid, req) \<in> set (room_role_requests r)"
    using registry_okD(6) [OF assms] by blast
  then have g: "get_room m (code r) = Some r" and inv: "room_inv r" using registry_okD(2,4) [OF assms r(1)] by simp_all
  let ?s = "cancel_if_pending (sr_timeout_task req) r"
  have k: "room_kept r ?s" by (rule room_kept_cancel [OF room_kept_refl [OF inv]])
  obtain m1 r1 where d: "drop_role_request rid ?s m = (m1, r1)" by fastforce
  note ok = drop_role_request_ok [OF assms g k d]
  have inv1: "room_inv r1" using registry_okD(4) [OF ok(1,2)] .
  have roles: "roles_inv r" using inv by (simp add: room_inv_def people_inv_def)
  have norole: "sr_player_id req \<notin> (\<lambda>q. sr_player_id (snd q)) ` set (room_role_requests r1)"
    using role_request_dropped [OF roles r(2)] ok(4) by (simp add: cancel_if_pending_eq)
  have sp: "is_spectator p" if "p \<in> set (players r1)" "pid p = sr_player_id req" for p
    using that roles r(2) by (force simp: ok(4) cancel_if_pending_eq roles_inv_def list_all_iff)
  have "room_kept r1 (upd_player (sr_player_id req) promote r1)" if "\<not> players_full r1"
    using room_inv_promote [OF inv1 sp capacity(2) [OF inv1 that] norole] player_ids_upd_player [of promote]
    by (simp add: room_kept_def) (simp add: upd_player_def)
  then have "registry_ok (put_room (upd_player (sr_player_id req) promote r1) m1)" if "\<not> players_full r1"
    using that by (blast intro: put_room_room_kept [OF ok(1,2)])
  then show ?thesis
    using Some r(1) d ok(1) assms
    by (auto simp: respond_spectator_role_request_def Let_def split: option.split)
qed (use assms in \<open>simp add: respond_spectator_role_request_def\<close>)

subsection \<open>The lobby\<close>

lemma length_py_strip: "length (py_strip s) \<le> length s"
  unfolding py_strip_def
  by (metis length_dropWhile_le length_rev order_trans)

lemma sanitize_words_shape:
  "w \<in> set (sanitize_words seen ws) \<Longrightarrow> w \<noteq> [] \<and> length w \<le> 40 \<and> py_lower w \<notin> set seen"
proof (induction seen ws arbitrary: w rule: sanitize_words.induct)
  case (2 seen v ws)
  have "length (py_strip (take 40 v)) \<le> 40" using length_py_strip [of "take 40 v"] by simp
  show ?case
  proof (cases "py_strip (take 40 v) \<noteq> [] \<and> py_lower (py_strip (take 40 v)) \<notin> set seen")
    case True
    then have "w = py_strip (take 40 v) \<or> w \<in> set (sanitize_words (py_lower (py_strip (take 40 v)) # seen) ws)"
      using 2(3) by (simp add: Let_def)
    with 2(1) [OF refl True, of w] True \<open>length (py_strip (take 40 v)) \<le> 40\<close> show ?thesis by auto
  next
    case False
    then have "w \<in> set (sanitize_words seen ws)" using 2(3) by (auto simp: Let_def)
    with 2(2) [OF refl False, of w] show ?thesis by simp
  qed
qed simp

lemma sanitize_words_distinct: "distinct (map py_lower (sanitize_words seen ws))"
  by (induction seen ws rule: sanitize_words.induct) (auto simp: Let_def dest: sanitize_words_shape)

lemma distinct_map_take: "distinct (map f xs) \<Longrightarrow> distinct (map f (take n xs))"
  by (simp add: take_map [symmetric])

lemma apply_settings_ok:
  assumes "config_ok c" and "int_setting_ok s ''num_rounds'' 2 10" and "int_setting_ok s ''turn_duration'' 30 180"
    and "int_setting_ok s ''max_players'' 2 12"
  shows "config_ok (apply_settings s c)"
proof -
  have int: "lo \<le> int_setting s key v \<and> int_setting s key v \<le> hi" if "int_setting_ok s key lo hi" "lo \<le> v" "v \<le> hi" for key lo hi v
    using that by (auto simp: int_setting_ok_def int_setting_def split: option.splits)
  have words: "length ws \<le> 500 \<and> distinct (map py_lower ws) \<and> list_all (\<lambda>w. w \<noteq> [] \<and> length w \<le> 40) ws"
    if "ws = take 500 (sanitize_words [] l)" for ws l
    using that sanitize_words_distinct [of "[]" l] sanitize_words_shape [of _ "[]" l] by (auto simp: distinct_map_take list_all_iff dest: in_set_takeD)
  show ?thesis
    using assms int [OF assms(2), of "num_rounds c"] int [OF assms(3), of "turn_duration c"] int [OF assms(4), of "max_players c"]
      words [OF refl]
    by (auto simp: config_ok_def apply_settings_def split: option.split)
qed

lemma lobby_no_turn: "room_inv r \<Longrightarrow> state r \<noteq> PLAYING \<Longrightarrow> turn r = None"
  by (cases "turn r") (auto simp: room_inv_def turn_inv_def)

lemma update_settings_ok:
  assumes "registry_ok m"
  shows "registry_ok (fst (update_settings e m i s))"
proof (cases rule: find_room_cases [OF assms, of i, case_names none found])
  case (found r p)
  have "registry_ok (put_room (r\<lparr>config := apply_settings s (config r)\<rparr>) m)"
    if "state r = LOBBY" "config_ok (apply_settings s (config r))"
  proof -
    have "turn r = None" using lobby_no_turn [OF found(3)] that by simp
    then have "room_inv (r\<lparr>config := apply_settings s (config r)\<rparr>)"
      using found(3) that by (auto simp: room_inv_defs people_inv_def roles_inv_def active_count_def spectator_count_def config_ok_def)
    then show ?thesis using assms found by (intro put_room_ok [of m _ r]) simp_all
  qed
  moreover have "config_ok (config r)" using found(3) by (simp add: room_inv_def people_inv_def)
  ultimately show ?thesis
    using found(1) assms apply_settings_ok [of "config r" s] by (auto simp: update_settings_def Let_def)
qed (use assms in \<open>simp add: update_settings_def\<close>)

lemma rematch_inv:
  assumes "room_inv r"
  shows "room_inv ((upd_players reset_player r)
      \<lparr>current_round := 0, drawer_index := 0, used_words := {}, word_pool := [], turn := None, state := LOBBY\<rparr>)" (is "room_inv ?r")
proof -
  have "people_kept r (upd_players reset_player r)"
    by (rule people_kept_upd_players) (simp add: same_seat_def reset_player_def)
  from people_kept_inv [OF this] have "people_inv ?r"
    using assms by (simp add: room_inv_def people_inv_def roles_inv_def active_count_def spectator_count_def)
  with assms show ?thesis by (simp add: room_inv_def turn_inv_def round_inv_def people_inv_def config_ok_def)
qed

lemma handle_rematch_ok:
  assumes "registry_ok m"
  shows "registry_ok (fst (handle_rematch e m i))"
proof (cases rule: find_room_cases [OF assms, of i, case_names none found])
  case (found r p)
  let ?r = "(upd_players reset_player r)
      \<lparr>current_round := 0, drawer_index := 0, used_words := {}, word_pool := [], turn := None, state := LOBBY\<rparr>"
  have "room_kept r ?r"
    using rematch_inv [OF found(3)] by (simp add: room_kept_def) (simp add: upd_players_def reset_player_def)
  with put_room_room_kept [OF assms found(2)] found(1) assms show ?thesis
    by (simp add: handle_rematch_def Let_def)
qed (use assms in \<open>simp add: handle_rematch_def\<close>)

lemma transfer_host_ok:
  assumes "registry_ok m"
  shows "registry_ok (fst (transfer_host e m h t))"
proof (cases rule: find_room_cases [OF assms, of h, case_names none found])
  case (found r p)
  have "registry_ok (put_room (r\<lparr>host_id := t\<rparr>) m)" if "get_player r t \<noteq> None"
    using put_room_host [OF assms found(2)] that by (simp only: get_player_None_iff not_not)
  with found(1) assms show ?thesis by (auto simp: transfer_host_def Let_def split: option.split)
qed (use assms in \<open>simp add: transfer_host_def\<close>)

lemma kick_player_ok:
  assumes "registry_ok m"
  shows "registry_ok (fst (kick_player e m h t))"
proof (cases rule: find_room_cases [OF assms, of h, case_names none found])
  case (found r p)
  have "registry_ok (put_room (remove_player t r) (pop_player t m))" if "get_player r t \<noteq> None" "t \<noteq> host_id r"
  proof (rule put_room_removed [OF assms])
    show "get_room m (code (remove_player t r)) = Some r" using found(2) by (simp add: remove_player_def)
    show "room_inv (remove_player t r)" using room_inv_remove_same [OF found(3)] that(2) by simp
    show "set (player_ids (remove_player t r)) = set (player_ids r) - {t}" by (rule ids_remove)
    show "t \<in> set (player_ids r)" using that(1) by (simp only: get_player_None_iff not_not)
  qed (simp_all add: remove_player_def)
  with found(1) assms show ?thesis by (auto simp: kick_player_def Let_def pop_player_put split: option.split)
qed (use assms in \<open>simp add: kick_player_def\<close>)

lemma leave_room_ok:
  assumes "registry_ok m"
  shows "registry_ok (fst (leave_room e m i))"
proof (cases rule: find_room_cases [OF assms, of i, case_names none found])
  case (found r p)
  have i: "i \<in> set (player_ids r)" using found(4) get_player_None_iff [of r i] by auto
  let ?r1 = "remove_player i r"
  have "registry_ok (put_room r2 (pop_player i m))"
    if "r2 = (if host_id r = i then ?r1\<lparr>host_id := pid f\<rparr> else ?r1)" "players ?r1 = f # fs" for r2 f fs
  proof (rule put_room_removed [OF assms])
    have "pid f \<in> set (player_ids ?r1)" using that(2) by simp
    then show "room_inv r2"
      using that(1) room_inv_remove [OF found(3), of "pid f" i] room_inv_remove_same [OF found(3), of i] by simp
    show "get_room m (code r2) = Some r" using found(2) that(1) by (simp add: remove_player_def)
    show "set (player_ids r2) = set (player_ids r) - {i}" using ids_remove [of i r] that(1) by simp
  qed (use i that(1) in \<open>simp_all add: remove_player_def\<close>)
  moreover have "code ?r1 = code r" by (simp add: remove_player_def)
  moreover note removal_ok(1) [OF assms found(2) i, of e]
  ultimately show ?thesis
    using found(1) assms
    by (cases "players ?r1") (auto simp: leave_room_def Let_def pop_player_put split: prod.split)
qed (use assms in \<open>simp add: leave_room_def\<close>)

lemma toggle_ready_ok:
  assumes "registry_ok m"
  shows "registry_ok (fst (toggle_ready e m i))"
proof (cases rule: find_room_cases [OF assms, of i, case_names none found])
  case (found r p)
  have "registry_ok (put_room (upd_player i (\<lambda>q. q\<lparr>is_ready := \<not> is_ready q\<rparr>) r) m)"
    by (rule put_room_roles [OF assms found(2)]) (simp add: same_role_def)
  with found(1,4) assms show ?thesis by (simp add: toggle_ready_def Let_def)
qed (use assms in \<open>simp add: toggle_ready_def\<close>)

lemma update_profile_ok:
  assumes "registry_ok m"
  shows "registry_ok (fst (update_profile e m i name av))"
proof (cases rule: find_room_cases [OF assms, of i, case_names none found])
  case (found r p)
  let ?f = "\<lambda>n q. q\<lparr>pname := (if name = None then pname q else n), avatar := (if av = None then avatar q else av)\<rparr>"
  have "registry_ok (put_room (upd_player i (?f n) r) m)" if "name = None \<or> valid_length n" for n
    by (rule put_room_roles [OF assms found(2)]) (use that in \<open>auto simp: same_role_def\<close>)
  with found(1,4) assms show ?thesis
    by (cases name) (simp_all add: update_profile_def Let_def valid_length_def)
qed (use assms in \<open>simp add: update_profile_def\<close>)

subsection \<open>Starting a game\<close>

text \<open>The room \<open>start_game\<close> leaves behind is ready for its first turn.\<close>

definition ready_for_turn :: "room \<Rightarrow> bool" where
  "ready_for_turn r \<longleftrightarrow> room_inv r \<and> turn r = None \<and> current_round r \<le> num_rounds (config r)
     \<and> drawer_index r < length (players r)"

definition started :: "room \<Rightarrow> room" where
  "started r =
     (let r1 = (upd_players prepare_player r)\<lparr>state := WORD_SELECTION, current_round := 1\<rparr>
      in case List.find (\<lambda>k. connected_active (players r1 ! k)) [0..<length (players r1)] of
           None \<Rightarrow> r1 | Some k \<Rightarrow> r1\<lparr>drawer_index := k\<rparr>)"

lemma started_ready:
  assumes "room_inv r" and "state r = LOBBY"
  shows "ready_for_turn (started r)" "room_kept r (started r)"
proof -
  let ?r = "\<lambda>k. (upd_players prepare_player r)\<lparr>state := WORD_SELECTION, current_round := 1, drawer_index := k\<rparr>"
  have t: "turn r = None" using lobby_no_turn [OF assms(1)] assms(2) by simp
  have "people_kept r (?r k)" for k
    using people_kept_upd_players [of prepare_player r] by (simp add: same_seat_def prepare_player_def)
  then have pk: "people_inv (?r k)" "people_kept r (?r k)" for k
    using people_kept_inv [of r "?r k"] assms(1) by (simp_all add: room_inv_def)
  have inv: "room_inv (?r k)" for k
    using pk(1) [of k] t assms(1)
    by (simp add: room_inv_def turn_inv_def round_inv_def upd_players_def people_inv_def config_ok_def)
  have "players r \<noteq> []" using assms(1) by (auto simp: room_inv_def people_inv_def)
  moreover have "drawer_index r = 0" using assms by (simp add: room_inv_def round_inv_def)
  moreover have "k < length (players r)" if "List.find P [0..<length (players r)] = Some k" for P k
    using find_Some_mem [OF that] by simp
  ultimately have "\<exists>k. started r = ?r k \<and> k < length (players r)"
    by (cases "List.find (\<lambda>k. connected_active (map prepare_player (players r) ! k)) [0..<length (players r)]")
       (auto simp: started_def Let_def upd_players_def intro: exI [of _ 0])
  then obtain k where k: "started r = ?r k" "k < length (players r)" by blast
  show "ready_for_turn (started r)"
    using inv [of k] k t assms(1)
    by (simp add: ready_for_turn_def upd_players_def) (simp add: room_inv_def people_inv_def config_ok_def)
  show "room_kept r (started r)" using room_kept_people [OF pk(2) inv, of k] k by simp
qed

lemma start_game_ok:
  assumes "registry_ok m"
  obtains (error) err where "start_game e m i = Inr (m, [], Error err)"
  | (started) r outs msg where "start_game e m i = Inr (put_room (started r) m, outs, msg)" "\<not> is_error msg"
      "registry_ok (put_room (started r) m)" "ready_for_turn (started r)" "code (started r) = code r"
      "player_to_room m i = Some (code r)" "get_room m (code r) = Some r"
proof (cases rule: find_room_cases [OF assms, of i, case_names none found])
  case (found r p)
  show thesis
  proof (cases "host_id r = i \<and> state r = LOBBY \<and> \<not> active_count r < 2")
    case True
    note st = started_ready [OF found(3), of]
    have rd: "ready_for_turn (started r)" "room_kept r (started r)" using st True by simp_all
    then have ok: "registry_ok (put_room (started r) m)" using put_room_room_kept [OF assms found(2)] by blast
    have "py_nth (players (started r)) (drawer_index (started r)) = Inr (players (started r) ! drawer_index (started r))"
      using rd(1) by (simp add: py_nth_def ready_for_turn_def)
    with True found(1) have "\<exists>outs msg. start_game e m i = Inr (put_room (started r) m, outs, msg) \<and> \<not> is_error msg"
      by (simp add: start_game_def started_def Let_def is_error_def)
    with ok rd found(2,5) that(2) [of r] show thesis by (auto simp: room_kept_def)
  next
    case False
    with found(1) have "start_game e m i = Inr (m, [], Error (if host_id r \<noteq> i then PERMISSION_DENIED
        else if state r \<noteq> LOBBY then GAME_NOT_ACTIVE else INSUFFICIENT_PLAYERS))"
      by (simp add: start_game_def)
    then show thesis by (rule that(1))
  qed
qed (use that(1) in \<open>simp add: start_game_def\<close>)

lemma start_turn_ready:
  assumes "ready_for_turn r"
  shows "\<exists>r' outs. start_turn e r = Inr (r', outs) \<and> room_inv r' \<and> people_kept r r'"
proof -
  obtain r' outs where "start_turn e r = Inr (r', outs)"
    using start_turn_total [of r e] assms by (auto simp: ready_for_turn_def)
  with start_turn_inv [of r e r' outs] assms show ?thesis by (auto simp: ready_for_turn_def)
qed

lemma start_game_request_ok:
  assumes "registry_ok m"
  shows "\<exists>m' outs. start_game_request e f m i = Inr (m', outs) \<and> registry_ok m'"
proof (cases rule: start_game_ok [OF assms, of e i, case_names error started])
  case (started r outs msg)
  let ?m = "put_room (started r) m"
  have "find_room_by_player ?m i = (?m, Some (started r))"
    using find_room_by_player_ok [OF started(3), of i] started(5,6) by simp
  moreover obtain r' outs' where "start_turn e (started r) = Inr (r', outs')" "room_inv r'" "people_kept (started r) r'"
    using start_turn_ready [OF started(4)] by blast
  moreover have "registry_ok (put_room r' ?m)"
    using put_room_kept [OF started(3) _ calculation(3,4)] by simp
  ultimately show ?thesis using started(1,2) by (simp add: start_game_request_def with_room_def)
qed (use assms in \<open>simp add: start_game_request_def is_error_def\<close>)

lemma forwarded_start_game_ok:
  assumes "registry_ok m" and "player_to_room m i = Some c"
  shows "\<exists>m' outs. forwarded_start_game e m c i = Inr (m', outs) \<and> registry_ok m'"
proof (cases rule: start_game_ok [OF assms(1), of e i, case_names error started])
  case (started r outs msg)
  let ?m = "put_room (started r) m"
  obtain r' outs' where "start_turn e (started r) = Inr (r', outs')" "room_inv r'" "people_kept (started r) r'"
    using start_turn_ready [OF started(4)] by blast
  moreover have "registry_ok (put_room r' ?m)"
    using put_room_kept [OF started(3) _ calculation(2,3)] by simp
  ultimately show ?thesis
    using started(1,2,5,6) assms(2) by (simp add: forwarded_start_game_def in_this_room_def)
qed (use assms in \<open>simp add: forwarded_start_game_def is_error_def\<close>)

subsection \<open>New rooms and remote players\<close>

lemma config_ok_new: "config_ok (default_config\<lparr>password := pw\<rparr>)"
  "2 \<le> k \<Longrightarrow> k \<le> 12 \<Longrightarrow> config_ok (default_config\<lparr>password := pw, max_players := k\<rparr>)"
  by (simp_all add: config_ok_def default_config_def)

lemma new_room_inv:
  assumes "config_ok cfg" and "valid_length (pname p)" and "\<not> is_spectator p"
  shows "room_inv (add_player p (new_room c (pid p) cfg))"
  using assms
  by (simp add: room_inv_defs people_inv_def roles_inv_def add_player_def new_room_def active_count_def spectator_count_def is_active_def
      config_ok_def)

lemma generate_room_code_fresh:
  assumes "generate_room_code e m k = Some c"
  shows "get_room m c = None"
  by (rule generate_room_code.raw_induct [OF _ assms, of "\<lambda>e m k c. get_room m c = None"])
     (auto simp: Let_def split: if_splits)

end
