(* ===== verification/Dispatch_Invariant.thy ===== *)
theory Dispatch_Invariant
  imports Lobby_Invariant
begin

text \<open>
  The message dispatchers keep the registry invariant, and the only message whose handling can raise
  is the choice of a word.
\<close>

subsection \<open>Entering the registry\<close>

lemma create_room_ok:
  assumes "registry_ok m" and "fresh_id (uuid e 0) m" and "create_room e m name ws av pw mp = Some (m', outs, msg)"
  shows "registry_ok m'"
proof (cases "worker_draining e \<or> \<not> valid_name name")
  case False
  then obtain c where c: "generate_room_code e m 0 = Some c" using assms(3) by (auto simp: create_room_def split: option.splits)
  let ?p = "(new_player (uuid e 0) name)\<lparr>websocket := Some ws, avatar := av\<rparr>"
  let ?cfg = "case mp of None \<Rightarrow> default_config\<lparr>password := clean_password pw\<rparr>
      | Some k \<Rightarrow> if 2 \<le> k \<and> k \<le> 12 then default_config\<lparr>password := clean_password pw, max_players := k\<rparr>
                  else default_config\<lparr>password := clean_password pw\<rparr>"
  let ?r = "add_player ?p (new_room c (uuid e 0) ?cfg)"
  have "config_ok ?cfg" using config_ok_new by (auto split: option.split)
  then have inv: "room_inv ?r" using new_room_inv [of ?cfg ?p c] False by (simp add: valid_name_iff new_player_def)
  have "get_room m (code ?r) = None" using generate_room_code_fresh [OF c] by (simp add: add_player_def new_room_def)
  then have "registry_ok (register_player (uuid e 0) (code ?r) (put_room ?r m))"
    by (rule put_room_new [OF assms(1) _ inv _ _ assms(2)]) (simp_all add: add_player_def new_room_def new_player_def)
  moreover have "m' = register_player (uuid e 0) (code ?r) (put_room ?r m)"
    using assms(3) False c by (auto simp: create_room_def Let_def add_player_def new_room_def)
  ultimately show ?thesis by simp
qed (use assms in \<open>auto simp: create_room_def split: if_splits\<close>)

lemma rpc_join_room_ok:
  assumes "registry_ok m" and "fresh_id (jrpc_player_id q) m" and "valid_name (jrpc_player_name q)"
  shows "registry_ok (fst (rpc_join_room e m q))"
proof (cases "get_room m (jrpc_room_code q)")
  case (Some r)
  then have r: "get_room m (code r) = Some r" "room_inv r" using registry_okD(2,4) [OF assms(1) Some] by simp_all
  let ?p = "(new_player (jrpc_player_id q) (jrpc_player_name q))
      \<lparr>avatar := jrpc_avatar q, is_spectator := jrpc_as_spectator q, is_connected := True\<rparr>"
  have "registry_ok (register_player (pid ?p) (code r) (put_room (add_player ?p r) m))"
    if "if jrpc_as_spectator q then \<not> spectators_full r else \<not> players_full r"
  proof -
    have "pid ?p \<notin> known_ids r" using assms(2) r(1) by (auto simp: fresh_id_def new_player_def)
    moreover have "if is_spectator ?p then spectator_count r < 50 else active_count r < 12"
      using that capacity [of r] r(2) by (auto split: if_splits)
    ultimately have "room_inv (add_player ?p r)"
      using assms(3) by (intro room_inv_add [OF r(2)]) (simp_all add: valid_name_iff new_player_def)
    then show ?thesis
      using assms(1,2) r by (intro put_room_added [of m _ r]) (simp_all add: add_player_def new_player_def)
  qed
  with Some assms(1) show ?thesis by (cases "jrpc_as_spectator q") (simp_all add: rpc_join_room_def Let_def)
qed (use assms in \<open>simp add: rpc_join_room_def\<close>)

subsection \<open>Dispatching\<close>

text \<open>What holds of a handled message: the invariant, or an exception of a word selection.\<close>

definition handled :: "client_msg \<Rightarrow> (manager \<times> out list) res \<Rightarrow> bool" where
  "handled msg res \<longleftrightarrow>
     (case res of Inl err \<Rightarrow> err = IndexError \<and> (\<exists>w. msg = CmSelectWord w) | Inr (m, outs) \<Rightarrow> registry_ok m)"

lemma handled_Inr [simp]: "handled msg (Inr x) = registry_ok (fst x)"
  by (simp add: handled_def split_beta)

lemma handled_ex: "\<exists>m' outs. res = Inr (m', outs) \<and> registry_ok m' \<Longrightarrow> handled msg res"
  by auto

lemma answered_fst [simp]: "fst (answered f x) = fst x"
  by (simp add: answered_def split_beta)

lemma vote_answered_ok:
  "\<exists>m' outs reply. res = Inr (m', outs, reply) \<and> registry_ok m' \<Longrightarrow> handled msg (vote_answered f res)"
  by (auto simp: vote_answered_def)

lemma handle_word_selection_error: "handle_word_selection e r i w = Inl err \<Longrightarrow> err = IndexError"
  by (auto simp: handle_word_selection_def py_nth_def split: if_splits option.splits)

lemma select_word_handled:
  assumes "registry_ok m"
  shows "handled (CmSelectWord w) (with_room m i (\<lambda>r. handle_word_selection e r i w))"
proof (cases "with_room m i (\<lambda>r. handle_word_selection e r i w)")
  case (Inl err)
  then show ?thesis
    by (auto simp: handled_def with_room_def res_bind_def split: prod.splits option.splits sum.splits dest: handle_word_selection_error)
qed (use word_op.with_room_ok [OF assms] in auto)

lemmas room_op_handled =
  guess_op.with_room_total chat_op.with_room_total reaction_op.with_room_total typing_op.with_room_total
  end_now_op.with_room_total tell_op.with_room_total

lemma tell_room_handled: "registry_ok m \<Longrightarrow> handled msg (tell_room e m i allowed t)"
  unfolding tell_room_def by (rule handled_ex) (rule tell_op.with_room_total)

lemma end_game_request_handled: "registry_ok m \<Longrightarrow> handled msg (end_game_request e m ws i)"
  unfolding end_game_request_def by (rule handled_ex) (rule end_now_op.with_room_total)

lemmas manager_ok =
  update_settings_ok kick_player_ok transfer_host_ok respond_join_request_ok request_become_player_ok
  respond_spectator_role_request_ok cancel_spectator_role_request_ok leave_room_ok toggle_ready_ok update_profile_ok
  handle_rematch_ok mgr_remove_player_ok

lemma local_message_handled:
  assumes "registry_ok m" and "fresh_id (uuid e 0) m"
  shows "handled msg (local_message e m ws i msg)"
  using assms
  by (cases msg)
     (simp_all add: local_message_def manager_ok tell_room_handled select_word_handled end_game_request_handled
       handled_ex [OF start_game_request_ok] handled_ex [OF room_op_handled(1)] handled_ex [OF room_op_handled(2)]
       handled_ex [OF room_op_handled(3)] handled_ex [OF room_op_handled(4)]
       vote_answered_ok [OF start_vote_kick_ok] vote_answered_ok [OF cast_vote_kick_ok])

lemma dispatch_message_handled:
  assumes "registry_ok m" and "fresh_id (uuid e 0) m"
  shows "handled msg (dispatch_message e m ws i msg)"
  using assms
  by (cases msg)
     (simp_all add: dispatch_message_def manager_ok tell_room_handled select_word_handled end_game_request_handled
       handled_ex [OF start_game_request_ok] handled_ex [OF room_op_handled(1)] handled_ex [OF room_op_handled(2)]
       handled_ex [OF room_op_handled(3)] handled_ex [OF room_op_handled(4)] handled_ex [OF handle_disconnect_ok]
       vote_answered_ok [OF start_vote_kick_ok] vote_answered_ok [OF cast_vote_kick_ok])

text \<open>A forwarded message acts on the room it names, which is the sender's room.\<close>

lemma forwarded_handled:
  assumes ok: "registry_ok m" and fresh: "fresh_id (uuid e 0) m"
  shows "handled msg (handle_forwarded_message e m c i msg)"
proof (cases "c = [] \<or> i = [] \<or> get_room m c = None \<or> get_player (the (get_room m c)) i = None")
  case False
  then obtain r p where r: "get_room m c = Some r" "get_player r i = Some p" by auto
  then have g: "get_room m (code r) = Some r" and c: "code r = c" using registry_okD(2) [OF ok r(1)] by simp_all
  have idx: "player_to_room m i = Some c"
    using registry_okD(5) [OF ok, of i c] r get_player_None_iff [of r i] by auto
  have sel: "handled (CmSelectWord w) (in_this_room m r (handle_word_selection e r i w))" for w
  proof (cases "in_this_room m r (handle_word_selection e r i w)")
    case (Inl err)
    then show ?thesis
      by (auto simp: handled_def in_this_room_def res_bind_def split: sum.splits prod.splits dest: handle_word_selection_error)
  qed (use word_op.in_this_room_ok [OF ok g] in auto)
  have now: "handled msg' (in_this_room m r (Inr (end_game_now e r)))" if "host_id r = i" for msg'
    using end_now_op.in_this_room_total [OF ok g, of i e] that by (intro handled_ex) simp
  show ?thesis
    using False r ok fresh sel now
    by (cases msg)
       (simp_all add: handle_forwarded_message_def manager_ok handled_ex [OF guess_op.in_this_room_total [OF ok g]]
         handled_ex [OF chat_op.in_this_room_total [OF ok g]] handled_ex [OF forwarded_start_game_ok [OF ok idx]])
qed (use ok in \<open>auto simp: handle_forwarded_message_def split: option.split\<close>)

end
