(* ===== verification/Server.thy ===== *)
theory Server
  imports Connections Dispatch_Invariant
begin

text \<open>
  A worker as a transition system: connections and streams that open, send and close, scheduled
  tasks that run when they are due, and calls from other workers. Every state it can reach
  satisfies the registry invariant.

  The system covers a worker that owns its rooms: a step that would join a room of another worker
  or adopt a snapshot is excluded by \<open>home_only\<close>. A new player's id differs from all ids the
  registry knows (\<open>fresh_id\<close>): this is what the code relies on \<open>uuid4\<close> for.
\<close>

subsection \<open>Scheduled tasks\<close>

definition run_coroutine :: "env \<Rightarrow> manager \<Rightarrow> room \<Rightarrow> coroutine \<Rightarrow> (manager \<times> out list) res" where
  "run_coroutine e m r k =
     (case k of
        AutoSelect d \<Rightarrow> in_this_room m r (auto_select e r d)
      | RevealHint40 oid \<Rightarrow> in_this_room m r (reveal_hint e r oid)
      | RevealHint70 oid \<Rightarrow> in_this_room m r (reveal_hint e r oid)
      | TurnTimer oid \<Rightarrow> in_this_room m r (turn_timer e r oid)
      | EndAfterWait \<Rightarrow> in_this_room m r (Inr (end_after_wait e r))
      | CleanupPlayer i \<Rightarrow> Inr (permanently_remove_player e m i)
      | ReassignHost i \<Rightarrow> Inr (reassign_host_if_disconnected e m (code r) i)
      | JoinRequestTimeout rid \<Rightarrow> Inr (handle_join_request_timeout e m rid)
      | ExpireRoleRequest rid i \<Rightarrow> Inr (expire_role_request e m (code r) rid i)
      | VoteTimeout i \<Rightarrow> Inr (handle_vote_kick_timeout e m (code r) i))"

text \<open>
  A task stays pending while its coroutine runs and is done afterwards, also when it raises. A
  coroutine that cancels its own task runs on: none of its later calls suspends.
\<close>

definition finish_task :: "string \<Rightarrow> task \<Rightarrow> manager \<Rightarrow> manager" where
  "finish_task c t m = (case get_room m c of None \<Rightarrow> m | Some r \<Rightarrow> put_room (cancel_task t r) m)"

definition run_task :: "env \<Rightarrow> manager \<Rightarrow> string \<Rightarrow> task \<Rightarrow> (manager \<times> out list) option" where
  "run_task e m c t =
     (case get_room m c of
        None \<Rightarrow> None
      | Some r \<Rightarrow>
          (case map_of (loop_tasks r) t of
             None \<Rightarrow> None
           | Some (due, k) \<Rightarrow>
               if now e < due then None
               else Some (case run_coroutine e m r k of
                            Inl _ \<Rightarrow> (finish_task c t m, [])
                          | Inr (m', outs) \<Rightarrow> (finish_task c t m', outs))))"

subsection \<open>The transition system\<close>

record world =
  mgr :: manager
  conns :: "websocket \<rightharpoonup> connection"
  streams :: "nat \<rightharpoonup> stream"

definition empty_world :: world where
  "empty_world = \<lparr>mgr = new_manager, conns = Map.empty, streams = Map.empty\<rparr>"

datatype (plugins only: code) event =
    Accept websocket
  | Receive websocket frame
  | Close websocket
  | StreamOpen nat
  | StreamReceive nat string string "client_input option"
  | StreamClose nat
  | TaskDue string task
  | FromRedis redis_data

definition home_only :: "env \<Rightarrow> answers \<Rightarrow> bool" where
  "home_only e a \<longleftrightarrow> \<not> redis_enabled e \<or> list_all (\<lambda>w. w = None) (owners a) \<and> saved a = None"

definition rpc_allowed :: "manager \<Rightarrow> redis_data \<Rightarrow> bool" where
  "rpc_allowed m d =
     (case d of RedisRpc (RpcJoinRoom q) \<Rightarrow> fresh_id (jrpc_player_id q) m \<and> valid_name (jrpc_player_name q) | _ \<Rightarrow> True)"

text \<open>One step in the environment \<open>e\<close>.\<close>

inductive step_in :: "env \<Rightarrow> world \<Rightarrow> event \<Rightarrow> out list \<Rightarrow> world \<Rightarrow> bool" for e where
  accept: "conns w ws = None \<Longrightarrow> step_in e w (Accept ws) [] (w\<lparr>conns := (conns w)(ws \<mapsto> no_identity)\<rparr>)"
| receive: "conns w ws = Some k \<Longrightarrow> home_only e a \<Longrightarrow> fresh_id (uuid e 0) (mgr w) \<Longrightarrow>
    ws_receive e a (mgr w) ws k fr = Some (m', k', outs) \<Longrightarrow>
    step_in e w (Receive ws fr) outs (w\<lparr>mgr := m', conns := (conns w)(ws \<mapsto> k')\<rparr>)"
| close: "conns w ws = Some k \<Longrightarrow> ws_close e a (mgr w) ws k = (m', outs) \<Longrightarrow>
    step_in e w (Close ws) outs (w\<lparr>mgr := m', conns := (conns w)(ws := None)\<rparr>)"
| stream_open: "streams w q = None \<Longrightarrow> step_in e w (StreamOpen q) [] (w\<lparr>streams := (streams w)(q \<mapsto> new_stream q n)\<rparr>)"
| stream_receive: "streams w q = Some s \<Longrightarrow> home_only e a \<Longrightarrow> fresh_id (uuid e 0) (mgr w) \<Longrightarrow>
    grpc_receive e a (mgr w) s i c inp = Some (m', s', outs) \<Longrightarrow>
    step_in e w (StreamReceive q i c inp) outs (w\<lparr>mgr := m', streams := (streams w)(q \<mapsto> s')\<rparr>)"
| stream_close: "streams w q = Some s \<Longrightarrow> cleanup_stream e (mgr w) s = (m', s', outs) \<Longrightarrow>
    step_in e w (StreamClose q) outs (w\<lparr>mgr := m', streams := (streams w)(q := None)\<rparr>)"
| task_due: "run_task e (mgr w) c t = Some (m', outs) \<Longrightarrow> step_in e w (TaskDue c t) outs (w\<lparr>mgr := m'\<rparr>)"
| redis: "rpc_allowed (mgr w) d \<Longrightarrow> fresh_id (uuid e 0) (mgr w) \<Longrightarrow> handle_redis_message e (mgr w) d = Inr (m', outs) \<Longrightarrow>
    step_in e w (FromRedis d) outs (w\<lparr>mgr := m'\<rparr>)"

inductive_cases step_inE: "step_in e w ev outs w'"

definition world_step :: "world \<Rightarrow> event \<Rightarrow> out list \<Rightarrow> world \<Rightarrow> bool" where
  "world_step w ev outs w' \<longleftrightarrow> (\<exists>e. step_in e w ev outs w')"

lemma world_stepI: "step_in e w ev outs w' \<Longrightarrow> world_step w ev outs w'"
  by (auto simp: world_step_def)

subsection \<open>Reachable states of a transition system\<close>

inductive reachable :: "('s \<Rightarrow> bool) \<Rightarrow> ('s \<Rightarrow> 'l \<Rightarrow> 'o \<Rightarrow> 's \<Rightarrow> bool) \<Rightarrow> 's \<Rightarrow> bool" for init step where
  start: "init s \<Longrightarrow> reachable init step s"
| next_state: "reachable init step s \<Longrightarrow> step s l outs s' \<Longrightarrow> reachable init step s'"

locale inductive_invariant =
  fixes init :: "'s \<Rightarrow> bool" and step :: "'s \<Rightarrow> 'l \<Rightarrow> 'o \<Rightarrow> 's \<Rightarrow> bool" and inv :: "'s \<Rightarrow> bool"
  assumes init_inv: "init s \<Longrightarrow> inv s"
    and step_inv: "inv s \<Longrightarrow> step s l outs s' \<Longrightarrow> inv s'"
begin

lemma reachable_inv: "reachable init step s \<Longrightarrow> inv s"
  by (induction rule: reachable.induct) (auto intro: init_inv step_inv)

end

definition reachable_world :: "world \<Rightarrow> bool" where
  "reachable_world = reachable (\<lambda>w. w = empty_world) world_step"

lemma reachable_world_start: "reachable_world empty_world"
  by (simp add: reachable_world_def reachable.start)

lemma reachable_world_step: "reachable_world w \<Longrightarrow> world_step w ev outs w' \<Longrightarrow> reachable_world w'"
  unfolding reachable_world_def by (rule reachable.next_state)

subsection \<open>The invariant is inductive\<close>

lemma home_join_elsewhere:
  "home_only e a \<Longrightarrow> join_elsewhere e m name c ws av sp pw (owners a) (rpc_reply a) (saved a) = (m, [], Error ROOM_NOT_FOUND)"
proof -
  assume h: "home_only e a"
  have "List.find (\<lambda>w. w \<noteq> None) (take 5 (owners a)) = None" if "redis_enabled e"
    using h that by (auto simp: home_only_def find_None_iff list_all_iff dest: in_set_takeD)
  with h show ?thesis by (cases "redis_enabled e") (simp_all add: join_elsewhere_def home_only_def)
qed

lemma join_room_ok:
  assumes "registry_ok m" and "home_only e a" and "fresh_id (uuid e 0) m"
  shows "registry_ok (fst (join_room e m name c ws av sp pw (owners a) (rpc_reply a) (saved a)))"
proof (cases "get_room m c")
  case (Some r)
  then have "get_room m (code r) = Some r" using registry_okD(2) [OF assms(1) Some] by simp
  from join_room_local_ok [OF assms(1) this _ assms(3)] Some assms show ?thesis
    by (simp add: join_room_def home_join_elsewhere valid_name_iff)
qed (use assms in \<open>simp add: join_room_def home_join_elsewhere\<close>)

lemma handle_reconnect_ok:
  assumes "registry_ok m" and "home_only e a"
  shows "registry_ok (fst (handle_reconnect e m name c ws av (saved a)))"
proof (cases "get_room m c")
  case (Some r)
  then have "get_room m (code r) = Some r" using registry_okD(2) [OF assms(1) Some] by simp
  from reconnect_player_ok [OF assms(1) this] Some show ?thesis by (simp add: handle_reconnect_def)
qed (use assms in \<open>auto simp: handle_reconnect_def home_only_def\<close>)

lemma not_proxy: "registry_ok m \<Longrightarrow> \<not> is_proxy_connection m c"
  using registry_okD(3) [of m] by (auto simp: is_proxy_connection_def split: option.splits if_splits)

lemma ws_game_message_ok:
  assumes "registry_ok m" and "fresh_id (uuid e 0) m"
  shows "registry_ok (fst (ws_game_message e a m ws k msg))"
proof -
  have "handled msg (local_message e m ws i msg)" for i using local_message_handled [OF assms] .
  then have "registry_ok m'" if "local_message e m ws i msg = Inr (m', outs)" for i m' outs
    using that by (metis fst_conv handled_Inr)
  then show ?thesis
    using assms not_proxy [OF assms(1)]
    by (auto simp: ws_game_message_def handle_local_message_def Let_def res_bind_def split: option.split sum.split)
qed

lemma ws_receive_ok:
  assumes "registry_ok m" and "home_only e a" and "fresh_id (uuid e 0) m" and "ws_receive e a m ws k fr = Some (m', k', outs)"
  shows "registry_ok m'"
proof (cases fr)
  case (Parsed inp)
  show ?thesis
  proof (cases inp)
    case (InCreateRoom name av pw mp)
    with assms Parsed create_room_ok [OF assms(1,3)] show ?thesis
      by (auto simp: ws_receive_def ws_input_def split: option.splits)
  next
    case (InJoinRoom name c av sp pw)
    with assms Parsed join_room_ok [OF assms(1-3), of name c ws av sp pw] show ?thesis
      by (auto simp: ws_receive_def ws_input_def split: prod.splits)
  next
    case (InReconnect name c av)
    with assms Parsed handle_reconnect_ok [OF assms(1,2), of name c ws av] show ?thesis
      by (auto simp: ws_receive_def ws_input_def split: prod.splits)
  next
    case (InCancelJoinRequest q)
    with assms Parsed cancel_pending_join_request_ok [OF assms(1), of e "join_ident ws q"] show ?thesis
      by (auto simp: ws_receive_def ws_input_def split: prod.splits)
  next
    case (InGame msg)
    with assms Parsed ws_game_message_ok [OF assms(1,3), of a ws k msg] show ?thesis
      by (auto simp: ws_receive_def ws_input_def)
  qed (use assms Parsed in \<open>simp add: ws_receive_def ws_input_def\<close>)
qed (use assms in \<open>simp_all add: ws_receive_def\<close>)

lemma ws_close_ok:
  assumes "registry_ok m"
  shows "registry_ok (fst (ws_close e a m ws k))"
proof -
  have d: "registry_ok (fst res)" if "registry_ok n" "handle_disconnect e True n i = Inr res" for n i res
    using handle_disconnect_ok [OF that(1), of e True i] that(2) by auto
  show ?thesis
    using assms not_proxy d [of "m\<lparr>ws_to_player := (ws_to_player m)(ws := None)\<rparr>"] cancel_pending_join_request_ok [OF assms, of e "BySocket ws"]
    by (cases "conn_player (identify m ws k)")
       (auto simp: ws_close_def Let_def split: sum.split prod.split)
qed

lemma ensure_transport_mgr: "ensure_transport m s i c = (m', s', t) \<Longrightarrow> \<exists>f. m' = m\<lparr>ws_player_id := f\<rparr>"
  by (cases "map_of (transports s) i") (auto simp: ensure_transport_def Let_def intro: exI [of _ "ws_player_id m"])

lemma fresh_id_frame [simp]: "fresh_id i (m\<lparr>ws_player_id := f\<rparr>) = fresh_id i m"
  by (simp add: fresh_id_def)

lemma identity_reply_ok: "registry_ok (fst res) \<Longrightarrow> registry_ok (fst (identity_reply s t res))"
  by (auto simp: identity_reply_def rebind_transport_def Let_def split: prod.split option.split)

lemma dispatch_input_ok:
  assumes "registry_ok m" and "home_only e a" and "fresh_id (uuid e 0) m"
    and "dispatch_input e a m s t i c inp = Some (Inr (m', s', outs, result))"
  shows "registry_ok m'"
proof (cases inp)
  case (InCreateRoom name av pw mp)
  then obtain res where "create_room e m name t av pw mp = Some res" "identity_reply s t res = (m', s', outs, result)"
    using assms(4) by (auto simp: dispatch_input_def)
  with create_room_ok [OF assms(1,3)] identity_reply_ok [of res s t] show ?thesis by (cases res) auto
next
  case (InJoinRoom name rc av sp pw)
  with assms(4) identity_reply_ok [OF join_room_ok [OF assms(1-3)], of s t] show ?thesis
    by (auto simp: dispatch_input_def) (metis fst_conv)+
next
  case (InReconnect name rc av)
  with assms(4) identity_reply_ok [OF handle_reconnect_ok [OF assms(1,2)], of s t] show ?thesis
    by (auto simp: dispatch_input_def) (metis fst_conv)+
next
  case (InCancelJoinRequest q)
  with assms cancel_pending_join_request_ok [OF assms(1), of e "join_ident t q"] show ?thesis
    by (auto simp: dispatch_input_def split: prod.splits)
next
  case (InGame msg)
  with assms(4) obtain outs' where "dispatch_message e m t i msg = Inr (m', outs')"
    by (auto simp: dispatch_input_def res_bind_Inr_iff)
  with dispatch_message_handled [OF assms(1,3), of msg t i] show ?thesis by simp
qed (use assms in \<open>simp add: dispatch_input_def\<close>)

lemma grpc_receive_ok:
  assumes "registry_ok m" and "home_only e a" and "fresh_id (uuid e 0) m"
    and "grpc_receive e a m s i c inp = Some (m', s', outs)"
  shows "registry_ok m'"
proof (cases inp)
  case (Some input)
  obtain m1 s1 t where en: "ensure_transport m s i c = (m1, s1, t)" by (cases "ensure_transport m s i c")
  with ensure_transport_mgr [OF this] assms(1,3) have ok: "registry_ok m1" "fresh_id (uuid e 0) m1" by auto
  show ?thesis
    using assms(4) Some en ok dispatch_input_ok [OF ok(1) assms(2) ok(2)]
    by (auto simp: grpc_receive_def split: option.splits sum.splits)
qed (use assms in \<open>simp add: grpc_receive_def\<close>)

lemma cleanup_players_ok: "registry_ok m \<Longrightarrow> registry_ok (fst (cleanup_players e m is))"
proof (induction e m "is" rule: cleanup_players.induct)
  case (2 e m i "is")
  from handle_disconnect_ok [OF 2(3), of e True i] obtain m' outs where
    "handle_disconnect e True m i = Inr (m', outs)" "registry_ok m'" by blast
  with 2(2) [OF this(1) refl] show ?case by (simp add: split_beta)
qed simp

lemma run_coroutine_ok:
  assumes "registry_ok m" and "get_room m (code r) = Some r" and "run_coroutine e m r k = Inr (m', outs)"
  shows "registry_ok m'"
  using assms(3) hint_op.in_this_room_ok [OF assms(1,2)] timer_op.in_this_room_ok [OF assms(1,2)]
    after_wait_op.in_this_room_ok [OF assms(1,2)] auto_select_op.in_this_room_ok [OF assms(1,2)]
    permanently_remove_player_ok [OF assms(1), of e] reassign_host_if_disconnected_ok [OF assms(1), of e "code r"]
    handle_join_request_timeout_ok [OF assms(1), of e] expire_role_request_ok [OF assms(1), of e "code r"]
    handle_vote_kick_timeout_ok [OF assms(1), of e "code r"]
  by (cases k) (auto simp: run_coroutine_def dest!: arg_cong [of _ _ fst])

lemma finish_task_ok:
  assumes "registry_ok m"
  shows "registry_ok (finish_task c t m)"
proof (cases "get_room m c")
  case (Some r)
  then have "get_room m (code r) = Some r" "room_inv r" using registry_okD(2,4) [OF assms Some] by simp_all
  with put_room_room_kept [OF assms, of r "cancel_task t r"] room_kept_refl [of r] Some show ?thesis
    by (simp add: finish_task_def cancel_task_def)
qed (use assms in \<open>simp add: finish_task_def\<close>)

lemma run_task_ok:
  assumes "registry_ok m" and "run_task e m c t = Some (m', outs)"
  shows "registry_ok m'"
proof -
  obtain r where r: "get_room m c = Some r" using assms(2) by (auto simp: run_task_def split: option.splits)
  then have g: "get_room m (code r) = Some r" using registry_okD(2) [OF assms(1) r] by simp
  show ?thesis
    using assms r run_coroutine_ok [OF assms(1) g] finish_task_ok
    by (auto simp: run_task_def split: option.splits if_splits sum.splits)
qed

lemma handle_redis_message_ok:
  assumes "registry_ok m" and "rpc_allowed m d" and "fresh_id (uuid e 0) m" and "handle_redis_message e m d = Inr (m', outs)"
  shows "registry_ok m'"
proof (cases d)
  case (RedisRpc q)
  show ?thesis
  proof (cases q)
    case (RpcJoinRoom j)
    with assms RedisRpc rpc_join_room_ok [OF assms(1), of j e] show ?thesis
      by (auto simp: handle_redis_message_def handle_rpc_def handle_rpc_join_def rpc_allowed_def split: prod.splits)
  next
    case (RpcForwardMessage c i msg)
    with assms RedisRpc forwarded_handled [OF assms(1,3), of msg c i] show ?thesis
      by (simp add: handle_redis_message_def handle_rpc_def)
  next
    case (RpcPlayerDisconnected c i)
    with assms RedisRpc handle_disconnect_ok [OF assms(1), of e True i] show ?thesis
      by (auto simp: handle_redis_message_def handle_rpc_def handle_remote_disconnect_def split: if_splits option.splits)
  qed
qed (use assms in \<open>simp add: handle_redis_message_def\<close>)

lemma step_in_ok:
  assumes "registry_ok (mgr w)" and "step_in e w ev outs w'"
  shows "registry_ok (mgr w')"
  using assms(2,1)
proof (cases rule: step_in.cases)
  case (close ws k a m')
  with assms(1) ws_close_ok [OF assms(1), of e a ws k] show ?thesis by simp
next
  case (stream_close q s m' s')
  with assms(1) cleanup_players_ok [OF assms(1), of e "map fst (transports s)"] show ?thesis
    by (auto simp: cleanup_stream_def split: prod.splits)
qed (auto intro: ws_receive_ok grpc_receive_ok run_task_ok handle_redis_message_ok)

interpretation worker: inductive_invariant "\<lambda>w. w = empty_world" world_step "\<lambda>w. registry_ok (mgr w)"
proof
  show "registry_ok (mgr w)" if "w = empty_world" for w using that new_manager_ok by (simp add: empty_world_def)
  show "registry_ok (mgr w')" if "registry_ok (mgr w)" "world_step w ev outs w'" for w ev outs w'
    using that step_in_ok by (auto simp: world_step_def)
qed

subsection \<open>Properties of every reachable state\<close>

lemma reachable_ok: "reachable_world w \<Longrightarrow> registry_ok (mgr w)"
  unfolding reachable_world_def by (rule worker.reachable_inv)

text \<open>A reachable state with one room, for the witnesses: a client connects and creates a room.\<close>

definition lone_env :: env where
  "lone_env = \<lparr>now = 0, draws = (\<lambda>_. []), redis_enabled = False, worker_draining = False, uuid = (\<lambda>_. ''u1'')\<rparr>"

definition lone_answers :: answers where
  "lone_answers = \<lparr>owners = [], room_worker = None, rpc_reply = None, saved = None\<rparr>"

definition lone_room :: room where
  "lone_room = add_player ((new_player ''u1'' ''Ann'')\<lparr>websocket := Some (WebSocket 0), avatar := None\<rparr>)
     (new_room ''AAAAAA'' ''u1'' default_config)"

lemma lone_room_created:
  "create_room lone_env new_manager ''Ann'' (WebSocket 0) None None None =
     Some (register_player ''u1'' ''AAAAAA'' (put_room lone_room new_manager), [],
           RoomCreated ''AAAAAA'' ''u1''
             (map (serialize_player (register_player ''u1'' ''AAAAAA'' (put_room lone_room new_manager))) (players lone_room))
             (serialize_config (config lone_room)))"
proof -
  have "generate_room_code lone_env new_manager 0 = Some ''AAAAAA''"
    by (subst generate_room_code.simps)
       (simp add: lone_env_def new_manager_def get_room_def random_choices_def code_alphabet_def draw_def upt_rec)
  then show ?thesis
    by (simp add: create_room_def lone_env_def valid_name_def clean_password_def lone_room_def Let_def default_config_def)
qed

lemma lone_world:
  "\<exists>w. reachable_world w \<and> get_room (mgr w) ''AAAAAA'' = Some lone_room \<and> player_to_room (mgr w) ''u1'' = Some ''AAAAAA''"
proof -
  let ?w1 = "empty_world\<lparr>conns := [WebSocket 0 \<mapsto> no_identity]\<rparr>"
  have r1: "reachable_world ?w1"
    by (rule reachable_world_step [OF reachable_world_start, of "Accept (WebSocket 0)" "[]"])
       (use world_stepI [OF step_in.accept [of empty_world "WebSocket 0"]] in \<open>simp add: empty_world_def\<close>)
  let ?m = "register_player ''u1'' ''AAAAAA'' (put_room lone_room new_manager)"
  obtain k outs where rcv: "ws_receive lone_env lone_answers new_manager (WebSocket 0) no_identity
      (Parsed (InCreateRoom ''Ann'' None None None)) = Some (?m, k, outs)"
    by (simp add: ws_receive_def ws_input_def lone_room_created)
  have "world_step ?w1 (Receive (WebSocket 0) (Parsed (InCreateRoom ''Ann'' None None None))) outs
      (?w1\<lparr>mgr := ?m, conns := (conns ?w1)(WebSocket 0 \<mapsto> k)\<rparr>)"
    by (rule world_stepI, rule step_in.receive [of _ _ no_identity lone_env lone_answers])
       (use rcv in \<open>simp_all add: empty_world_def home_only_def lone_env_def fresh_id_def new_manager_def get_room_def\<close>)
  from reachable_world_step [OF r1 this] show ?thesis
    by (intro exI [of _ "?w1\<lparr>mgr := ?m, conns := (conns ?w1)(WebSocket 0 \<mapsto> k)\<rparr>"])
       (simp add: lone_room_def add_player_def new_room_def register_player_def)
qed



text \<open>
  C2 (invariant). In every reachable state the player index and the rooms agree: a player is indexed
  under a code exactly if the room of that code has the player. So nobody is in two rooms, and looking
  a player up finds the room that has the player and changes nothing.
\<close>

theorem reachable_index_agrees:
  assumes "reachable_world w"
  shows "(player_to_room (mgr w) i = Some c \<longleftrightarrow> (\<exists>r. get_room (mgr w) c = Some r \<and> i \<in> set (player_ids r)))
    \<and> find_room_by_player (mgr w) i = (mgr w, case player_to_room (mgr w) i of None \<Rightarrow> None | Some c \<Rightarrow> get_room (mgr w) c)"
  using registry_okD(5) [OF reachable_ok [OF assms], of i c] find_room_by_player_ok [OF reachable_ok [OF assms], of i]
  by simp

theorem reachable_index_agrees_witness:
  "\<exists>w. reachable_world w \<and> player_to_room (mgr w) ''u1'' = Some ''AAAAAA''
     \<and> find_room_by_player (mgr w) ''u1'' = (mgr w, Some lone_room)"
proof -
  obtain w where w: "reachable_world w" "get_room (mgr w) ''AAAAAA'' = Some lone_room" "player_to_room (mgr w) ''u1'' = Some ''AAAAAA''"
    using lone_world by blast
  with reachable_index_agrees [OF w(1), of "''u1''" "''AAAAAA''"] show ?thesis by auto
qed

text \<open>
  C4 (safety). In every reachable state a turn runs only while its room is playing. Nobody is counted
  as a guesser twice, the drawer is never among the guessers, the guessers still in the room are
  active players marked as having guessed, and the hint shows only characters of the word.
\<close>

theorem reachable_turns_consistent:
  assumes "reachable_world w" and "get_room (mgr w) c = Some r"
  shows "case turn r of
      None \<Rightarrow> True
    | Some ts \<Rightarrow> state r = PLAYING \<and> distinct (guess_order ts) \<and> drawer_id ts \<notin> set (guess_order ts)
        \<and> masks (hint ts) (word ts) \<and> current_round r \<le> num_rounds (config r)
        \<and> list_all (\<lambda>p. pid p \<notin> set (guess_order ts) \<or> has_guessed p \<and> is_active p) (players r)"
  using registry_okD(4) [OF reachable_ok [OF assms(1)] assms(2)]
  by (auto simp: room_inv_defs is_active_def list_all_iff split: option.split)

theorem reachable_turns_consistent_witness:
  "\<exists>w. reachable_world w \<and> get_room (mgr w) ''AAAAAA'' = Some lone_room
     \<and> (case turn lone_room of None \<Rightarrow> True | Some ts \<Rightarrow> state lone_room = PLAYING)"
proof -
  obtain w where w: "reachable_world w" "get_room (mgr w) ''AAAAAA'' = Some lone_room" using lone_world by blast
  with reachable_turns_consistent [OF w] show ?thesis by (auto split: option.splits)
qed



end
