(* ===== verification/Registry_Facts.thy ===== *)
theory Registry_Facts
  imports Server
begin

text \<open>
  Functional properties of the room manager: room codes, votes, the powers of the host, returning
  players and the replacement of a host who is gone.
\<close>

subsection \<open>A manager with one room\<close>

definition single_manager :: "room \<Rightarrow> manager" where
  "single_manager r = new_manager\<lparr>rooms := [(code r, r)],
     player_to_room := (\<lambda>i. if i \<in> set (player_ids r) then Some (code r) else None)\<rparr>"

lemma get_room_single: "get_room (single_manager r) c = (if c = code r then Some r else None)"
  by (simp add: single_manager_def get_room_def)

lemma single_manager_ok: "room_inv r \<Longrightarrow> \<not> is_proxy r \<Longrightarrow> registry_ok (single_manager r)"
  by (auto simp: registry_ok_def get_room_single) (auto simp: single_manager_def new_manager_def split: if_splits)

text \<open>Three connected players in the lobby, the first of them the host.\<close>

definition trio :: room where
  "trio = (new_room ''R'' ''a'' default_config)\<lparr>players := [
     (new_player ''a'' ''Ann'')\<lparr>websocket := Some (WebSocket 1)\<rparr>,
     (new_player ''b'' ''Bob'')\<lparr>websocket := Some (WebSocket 2)\<rparr>,
     (new_player ''c'' ''Cat'')\<lparr>websocket := Some (WebSocket 3)\<rparr>]\<rparr>"

lemma trio_inv: "room_inv trio"
  by (simp add: trio_def room_inv_defs people_inv_def roles_inv_def valid_length_def new_room_def new_player_def active_count_def
      spectator_count_def is_active_def config_ok_def default_config_def)

lemma trio_ok: "registry_ok (single_manager trio)"
  by (rule single_manager_ok [OF trio_inv]) (simp add: trio_def new_room_def)

lemmas trio_simps = trio_def new_room_def new_player_def get_player_def single_manager_def new_manager_def get_room_def

lemma put_room_same: "registry_ok m \<Longrightarrow> get_room m c = Some r \<Longrightarrow> put_room r m = m"
  using registry_okD(2) [of m c r] by (simp add: put_room_def get_room_def update_triv)

subsection \<open>Room codes\<close>

lemma generate_room_code_first:
  assumes "get_room m (random_choices (draws e (k + n)) code_alphabet 6) = None"
  shows "\<exists>c. generate_room_code e m k = Some c"
  using assms
proof (induction n arbitrary: k)
  case 0
  then show ?case by (subst generate_room_code.simps) (simp add: Let_def)
next
  case (Suc n)
  then obtain c where "generate_room_code e m (Suc k) = Some c" by fastforce
  then show ?case by (subst generate_room_code.simps) (simp add: Let_def)
qed

lemma generate_room_code_shape:
  assumes "generate_room_code e m k = Some c"
  shows "get_room m c = None \<and> (\<exists>j. c = random_choices (draws e j) code_alphabet 6)"
  by (rule generate_room_code.raw_induct [OF _ assms, of "\<lambda>e m k c. get_room m c = None \<and> (\<exists>j. c = random_choices (draws e j) code_alphabet 6)"])
     (auto simp: Let_def split: if_splits)

lemma random_choices_shape: "xs \<noteq> [] \<Longrightarrow> length (random_choices rs xs k) = k \<and> set (random_choices rs xs k) \<subseteq> set xs"
  by (auto simp: random_choices_def)

text \<open>
  C33 (termination). The loop of \<open>_generate_room_code\<close> returns exactly if some attempt draws a code no
  room has; the code it returns is six upper-case letters or digits and is not in use.
\<close>

theorem room_code_generation:
  "((\<exists>c. generate_room_code e m 0 = Some c) \<longleftrightarrow> (\<exists>k. get_room m (random_choices (draws e k) code_alphabet 6) = None))
   \<and> (case generate_room_code e m 0 of
        None \<Rightarrow> True
      | Some c \<Rightarrow> get_room m c = None \<and> length c = 6 \<and> set c \<subseteq> set ''ABCDEFGHIJKLMNOPQRSTUVWXYZ0123456789'')"
proof -
  have ne: "code_alphabet \<noteq> []" by (simp add: code_alphabet_def)
  have "get_room m c = None \<and> length c = 6 \<and> set c \<subseteq> set ''ABCDEFGHIJKLMNOPQRSTUVWXYZ0123456789''"
    if "generate_room_code e m 0 = Some c" for c
    using generate_room_code_shape [OF that] random_choices_shape [OF ne]
    unfolding code_alphabet_def [symmetric] by auto
  moreover have "(\<exists>c. generate_room_code e m 0 = Some c) \<longleftrightarrow> (\<exists>k. get_room m (random_choices (draws e k) code_alphabet 6) = None)"
    using generate_room_code_first [of m e 0] by (auto dest: generate_room_code_shape)
  ultimately show ?thesis by (auto split: option.split)
qed

subsection \<open>Votes\<close>

lemma majority_iff: "majority n \<le> k \<longleftrightarrow> n < 2 * k"
  by (auto simp: majority_def)

text \<open>The votes after a voter has cast one.\<close>

definition votes_after :: "vote_kick_state \<Rightarrow> string \<Rightarrow> bool \<Rightarrow> string set" where
  "votes_after vk i v = (if v then insert i (vk_votes vk) else vk_votes vk - {i})"

lemma kicked_from_index:
  assumes "execute_vote_kick_passed e ge m r target = Inr (m', outs)"
  shows "player_to_room m' (pid target) = None"
  using assms by (auto simp: execute_vote_kick_passed_def res_bind_Inr_iff pop_player_def)


definition open_vote :: vote_kick_state where
  "open_vote = \<lparr>vk_target_id = ''c'', vk_target_name = ''Cat'', vk_initiator_id = ''a'', vk_initiator_name = ''Ann'',
     vk_room_code = ''R'', vk_votes = {''a''}, vk_timeout_task = None, vk_created_at = 0\<rparr>"


subsection \<open>The host\<close>

text \<open>The messages that only the host of a room may send.\<close>

definition host_only :: "client_msg \<Rightarrow> bool" where
  "host_only msg =
     (case msg of CmUpdateSettings _ \<Rightarrow> True | CmStartGame \<Rightarrow> True | CmKickPlayer _ \<Rightarrow> True | CmTransferHost _ \<Rightarrow> True
      | CmRespondJoinRequest _ _ \<Rightarrow> True | CmRespondSpectatorRole _ _ \<Rightarrow> True | CmRematch \<Rightarrow> True | CmEndGameNow \<Rightarrow> True
      | _ \<Rightarrow> False)"

lemma host_elsewhere:
  assumes "registry_ok m" and "player_to_room m i = Some c" and "get_room m c = Some r" and "host_id r \<noteq> i" and "get_room m d = Some s"
  shows "host_id s \<noteq> i"
proof
  assume h: "host_id s = i"
  have "host_id s \<in> set (player_ids s)" using registry_okD(4) [OF assms(1,5)] by (simp add: room_inv_def people_inv_def)
  with h assms(5) have "player_to_room m i = Some d" using registry_okD(5) [OF assms(1)] by blast
  with assms h show False by simp
qed

lemma not_host_refused:
  assumes "registry_ok m" and "player_to_room m i = Some c" and "get_room m c = Some r" and "host_id r \<noteq> i"
  shows "\<exists>err. respond_join_request e m i q act = (m, [], Error err)"
    "\<exists>err. respond_spectator_role_request e m i q act = (m, [], Error err)"
proof -
  note other = host_elsewhere [OF assms]
  show "\<exists>err. respond_join_request e m i q act = (m, [], Error err)"
    using other by (auto simp: respond_join_request_def split: option.split)
  show "\<exists>err. respond_spectator_role_request e m i q act = (m, [], Error err)"
    using other by (auto simp: respond_spectator_role_request_def split: option.split)
qed

text \<open>
  C10 (safety). A player who is not the host of its room cannot change the settings, start, end or
  restart a game, kick anybody, hand the host role on, or answer join and role requests of any room:
  over a browser socket and over the gateway the only effect is an error sent back to the sender.
\<close>

theorem only_the_host:
  assumes "registry_ok m" and "player_to_room m i = Some c" and "get_room m c = Some r" and "host_id r \<noteq> i" and "host_only msg"
  shows "\<exists>err. local_message e m ws i msg = Inr (m, reply ws (Error err)) \<and> dispatch_message e m ws i msg = Inr (m, reply ws (Error err))"
proof -
  have f: "find_room_by_player m i = (m, Some r)" using find_room_by_player_ok [OF assms(1), of i] assms(2,3) by simp
  note put = put_room_same [OF assms(1,3)]
  note ref = not_host_refused [OF assms(1-4), of e]
  note disp = local_message_def dispatch_message_def answered_def reply_error_def is_error_def
  show ?thesis
  proof (cases msg)
    case (CmRespondJoinRequest q act)
    obtain err where "respond_join_request e m i q act = (m, [], Error err)" using ref(1) by blast
    with CmRespondJoinRequest show ?thesis by (auto simp: disp)
  next
    case (CmRespondSpectatorRole q act)
    obtain err where "respond_spectator_role_request e m i q act = (m, [], Error err)" using ref(2) by blast
    with CmRespondSpectatorRole show ?thesis by (auto simp: disp)
  qed (use assms(4,5) f put in \<open>auto simp: disp host_only_def update_settings_def start_game_request_def start_game_def
        kick_player_def transfer_host_def handle_rematch_def end_game_request_def with_room_def\<close>)
qed

theorem only_the_host_witness:
  "\<exists>err. local_message lone_env (single_manager trio) (WebSocket 2) ''b'' CmStartGame
       = Inr (single_manager trio, reply (WebSocket 2) (Error err))"
proof -
  have "player_to_room (single_manager trio) ''b'' = Some ''R''" "get_room (single_manager trio) ''R'' = Some trio"
    "host_id trio \<noteq> ''b''" "host_only CmStartGame"
    by (simp_all add: trio_simps host_only_def)
  from only_the_host [OF trio_ok this] show ?thesis by blast
qed

text \<open>
  C20 (functional). When the host of a room is gone and its grace period is over, the first connected
  active player becomes host, or the first connected spectator if no active player is connected;
  nothing else of the room changes. If nobody is connected, a room in the lobby or after its game is
  deleted, and a room with a running game is kept.
\<close>

theorem host_reassignment:
  assumes "registry_ok m" and "get_room m c = Some r" and "get_player r (host_id r) = Some h" and "\<not> is_connected h"
  shows "get_room (fst (reassign_host_if_disconnected e m c (host_id r))) c =
    (case List.find connected_active (players r) of
       Some p \<Rightarrow> Some (r\<lparr>host_id := pid p\<rparr>)
     | None \<Rightarrow>
         (case List.find is_connected (players r) of
            Some p \<Rightarrow> Some (r\<lparr>host_id := pid p\<rparr>)
          | None \<Rightarrow> if state r = LOBBY \<or> state r = GAME_OVER then None else Some r))"
proof -
  have c: "code r = c" using registry_okD(2) [OF assms(1,2)] .
  have hd: "List.find P xs = (case filter P xs of [] \<Rightarrow> None | x # _ \<Rightarrow> Some x)" for P and xs :: "player list"
    by (induction xs) auto
  show ?thesis
    using assms(2-4) c
    by (auto simp: reassign_host_if_disconnected_def connected_candidates_def hd Let_def get_room_delete split: list.split)
qed

theorem host_reassignment_witness:
  "get_room (fst (reassign_host_if_disconnected lone_env
       (single_manager (upd_player ''a'' (mark_disconnected lone_env) trio)) ''R'' ''a'')) ''R''
   = Some ((upd_player ''a'' (mark_disconnected lone_env) trio)\<lparr>host_id := ''b''\<rparr>)"
proof -
  let ?r = "upd_player ''a'' (mark_disconnected lone_env) trio"
  let ?a = "mark_disconnected lone_env ((new_player ''a'' ''Ann'')\<lparr>websocket := Some (WebSocket 1)\<rparr>)"
  have ok: "registry_ok (single_manager ?r)"
    by (rule single_manager_ok [OF room_inv_upd_player [OF trio_inv mark_disconnected_role]])
       (simp add: trio_def new_room_def upd_player_def)
  have "get_room (single_manager ?r) ''R'' = Some ?r" "get_player ?r (host_id ?r) = Some ?a" "\<not> is_connected ?a" "host_id ?r = ''a''"
    by (simp_all add: get_room_single get_player_def trio_def new_room_def new_player_def upd_player_def mark_disconnected_def)
  moreover have "List.find connected_active (players ?r) = Some ((new_player ''b'' ''Bob'')\<lparr>websocket := Some (WebSocket 2)\<rparr>)"
    by (simp add: trio_def new_room_def new_player_def upd_player_def mark_disconnected_def connected_active_def)
  ultimately show ?thesis using host_reassignment [OF ok, of "''R''" ?r ?a lone_env] by (simp add: new_player_def)
qed

subsection \<open>Coming back\<close>



text \<open>
  A disconnection reported twice schedules two removals, and a reconnection cancels
  only the second: in a lobby of three, Bob is disconnected twice and comes back, yet a removal of Bob
  is still pending, and when it runs it removes the connected Bob from the room.
\<close>

theorem second_removal_survives_reconnect:
  "\<exists>m1 o1 m2 o2 m3 o3 reply r p.
     handle_disconnect lone_env True (single_manager trio) ''b'' = Inr (m1, o1)
   \<and> handle_disconnect lone_env True m1 ''b'' = Inr (m2, o2)
   \<and> handle_reconnect lone_env m2 ''Bob'' ''R'' (WebSocket 4) None None = (m3, o3, reply)
   \<and> get_room m3 ''R'' = Some r \<and> get_player r ''b'' = Some p \<and> is_connected p
   \<and> map_of (loop_tasks r) 0 = Some (120, CleanupPlayer ''b'')
   \<and> player_to_room (fst (permanently_remove_player lone_env m3 ''b'')) ''b'' = None"
proof -
  let ?r1 = "schedule_cleanup lone_env ''b'' (upd_player ''b'' (mark_disconnected lone_env) trio)"
  let ?m1 = "put_room ?r1 (single_manager trio)"
  let ?r2 = "schedule_cleanup lone_env ''b'' (upd_player ''b'' (mark_disconnected lone_env) ?r1)"
  note s = handle_disconnect_def find_room_by_player_def disconnect_from_vote_def after_disconnect_def disconnect_in_game_def in_game_def
    schedule_cleanup_def upd_player_def create_task_def mark_disconnected_def lone_env_def Let_def later_draws_def
  have 1: "\<exists>o1. handle_disconnect lone_env True (single_manager trio) ''b'' = Inr (?m1, o1)"
    by (simp add: s trio_simps put_room_def)
  have 2: "\<exists>o2. handle_disconnect lone_env True ?m1 ''b'' = Inr (put_room ?r2 ?m1, o2)"
    by (simp add: s trio_simps put_room_def)
  let ?b = "(mark_disconnected lone_env ((new_player ''b'' ''Bob'')\<lparr>websocket := Some (WebSocket 2)\<rparr>))\<lparr>cleanup_task := Some 1\<rparr>"
  let ?r3 = "upd_player ''b'' (restore_connection (WebSocket 4) None) (clear_timers ''b'' ?b ?r2)"
  let ?m3 = "put_room ?r3 (put_room ?r2 ?m1)"
  note t = clear_timers_def restore_connection_def pending_def task_done_def cancel_if_pending_eq truthy_def
  have 3: "\<exists>o3 reply. handle_reconnect lone_env (put_room ?r2 ?m1) ''Bob'' ''R'' (WebSocket 4) None None = (?m3, o3, reply)"
    by (simp add: handle_reconnect_def reconnect_player_def find_returning_def s t trio_simps put_room_def)
  have 4: "\<exists>r p. get_room ?m3 ''R'' = Some r \<and> get_player r ''b'' = Some p \<and> is_connected p
      \<and> map_of (loop_tasks r) 0 = Some (120, CleanupPlayer ''b'')"
    by (simp add: s t trio_simps put_room_def)
  have "player_to_room (fst (permanently_remove_player lone_env ?m3 ''b'')) ''b'' = None"
    by (simp add: permanently_remove_player_def remove_player_def pop_player_def in_game_def connected_candidates_def s t trio_simps put_room_def)
  with 1 2 3 4 show ?thesis by blast
qed

subsection \<open>A game without a drawer\<close>

text \<open>The trio in its third turn: Cat, the last player, is choosing a word.\<close>

definition choosing :: room where
  "choosing = trio\<lparr>state := WORD_SELECTION, current_round := 1, drawer_index := 2, pending_word_choices := Some [''cat''],
     loop_tasks := [(0, 15, AutoSelect ''c'')], next_oid := 1, auto_select_task := Some 0\<rparr>"

text \<open>
  Voting the drawer out while it chooses a word stalls the game: the drawer index
  stays beyond the player list, so every selection of a word, the automatic one included, raises
  \<open>IndexError\<close>, and the only scheduled task of the room is that automatic selection.
\<close>

theorem kicking_choosing_drawer_stalls_game:
  "\<exists>r' outs. kick_from_room e ge choosing (players choosing ! 2) = Inr (r', outs)
     \<and> state r' = WORD_SELECTION \<and> connected_active_count r' = 2 \<and> turn r' = None
     \<and> loop_tasks r' = [(0, 15, AutoSelect ''c'')]
     \<and> handle_word_selection e' r' i w = Inl IndexError \<and> auto_select e' r' ''c'' = Inl IndexError"
proof -
  let ?r = "remove_player ''c'' choosing"
  have "\<exists>outs. kick_from_room e ge choosing (players choosing ! 2) = Inr (?r, outs)"
    by (simp add: kick_from_room_def choosing_def trio_def new_room_def new_player_def Let_def remove_player_def in_game_def
        connected_active_count_def connected_active_def everybody_guessed_def)
  moreover have "state ?r = WORD_SELECTION" "connected_active_count ?r = 2" "turn ?r = None"
    "loop_tasks ?r = [(0, 15, AutoSelect ''c'')]" "handle_word_selection e' ?r i w = Inl IndexError" "auto_select e' ?r ''c'' = Inl IndexError"
    by (simp_all add: choosing_def trio_def new_room_def new_player_def remove_player_def connected_active_count_def connected_active_def
        handle_word_selection_def auto_select_def py_nth_def random_choice_def)
  ultimately show ?thesis by blast
qed

end
