(* ===== verification/Dispatch_Facts.thy ===== *)
theory Dispatch_Facts
  imports Registry_Facts
begin

text \<open>
  How the three dispatchers of client messages compare: the browser sockets of
  \<open>backend/ws_handler.py\<close>, the gateway streams of \<open>backend/grpc_server.py\<close> and the messages another
  worker forwards to \<open>backend/room_manager.py\<close>.
\<close>

subsection \<open>Browser and gateway\<close>

text \<open>The effect of a handler on the manager, without its output.\<close>

definition effect :: "(manager \<times> out list) res \<Rightarrow> manager res" where
  "effect res = res_bind res (\<lambda>(m, outs). Inr m)"

lemma effect_Inr [simp]: "effect (Inr (m, outs)) = Inr m"
  by (simp add: effect_def)

definition canvas_msg :: "client_msg \<Rightarrow> bool" where
  "canvas_msg msg = (case msg of CmStroke _ \<Rightarrow> True | CmFill _ \<Rightarrow> True | CmClearCanvas \<Rightarrow> True | _ \<Rightarrow> False)"

definition role_msg :: "client_msg \<Rightarrow> bool" where
  "role_msg msg =
     (case msg of CmRequestBecomePlayer \<Rightarrow> True | CmRespondSpectatorRole _ _ \<Rightarrow> True | CmCancelSpectatorRole _ \<Rightarrow> True | _ \<Rightarrow> False)"

definition leaves :: "client_msg \<Rightarrow> bool" where
  "leaves msg = (msg = CmClientDisconnected \<or> msg = CmLeaveRoom True)"

lemma effect_tell_room: "effect (tell_room e m i allowed msg) = Inr (case find_room_by_player m i of (m', None) \<Rightarrow> m' | (m', Some r) \<Rightarrow> put_room r m')"
  by (auto simp: tell_room_def with_room_def split: prod.split option.split)

lemma effect_answered [simp]: "effect (Inr (answered f x)) = Inr (fst x)"
  by (auto simp: answered_def split: prod.split)

lemma tell_room_drawer:
  "drawing i r \<Longrightarrow> find_room_by_player m i = (m', Some r) \<Longrightarrow> tell_room e m i (drawing i) msg = tell_room e m i anybody msg"
  by (simp add: tell_room_def with_room_def anybody_def)



text \<open>
  The gateway's dispatcher lets anybody draw: a stroke of a player who is not the
  drawer is ignored over a browser socket and broadcast to the room over the gateway.
\<close>

theorem gateway_lets_anyone_draw:
  assumes "find_room_by_player m i = (m', Some r)" and "\<not> drawing i r"
  shows "local_message e m ws i (CmStroke d) = Inr (put_room r m', [])
    \<and> dispatch_message e m ws i (CmStroke d) = Inr (put_room r m', broadcast_room e r (Stroke d))"
  using assms by (simp add: local_message_def dispatch_message_def tell_room_def with_room_def anybody_def)

theorem gateway_lets_anyone_draw_witness:
  "\<exists>m. dispatch_message lone_env (single_manager trio) (VirtualTransport 2 0) ''b'' (CmStroke JNull) = Inr (m, broadcast_room lone_env trio (Stroke JNull))"
proof -
  have "find_room_by_player (single_manager trio) ''b'' = (single_manager trio, Some trio)" "\<not> drawing ''b'' trio"
    using find_room_by_player_ok [OF trio_ok, of "''b''"] by (simp_all add: trio_simps drawing_def)
  from gateway_lets_anyone_draw [OF this, of lone_env "VirtualTransport 2 0" "JNull"] show ?thesis by blast
qed

subsection \<open>Forwarded messages\<close>

text \<open>The messages a worker handles when another worker forwards them, except leaving.\<close>

definition forwardable :: "client_msg \<Rightarrow> bool" where
  "forwardable msg =
     (case msg of CmHighlighter _ \<Rightarrow> False | CmShape _ \<Rightarrow> False | CmUndo _ \<Rightarrow> False | CmVoteKick _ \<Rightarrow> False
      | CmVoteKickCast _ \<Rightarrow> False | CmTransferHost _ \<Rightarrow> False | CmLeaveRoom _ \<Rightarrow> False | CmClientDisconnected \<Rightarrow> False
      | CmUnknown _ \<Rightarrow> False | _ \<Rightarrow> True)"

lemma effect_in_this_room: "effect (in_this_room m r res) = res_bind res (\<lambda>(r', outs). Inr (put_room r' m))"
  by (cases res) (auto simp: in_this_room_def effect_def split: prod.split)

lemma effect_with_room:
  "find_room_by_player m i = (m, Some r) \<Longrightarrow> effect (with_room m i f) = res_bind (f r) (\<lambda>(r', outs). Inr (put_room r' m))"
  by (cases "f r") (auto simp: with_room_def effect_def split: prod.split)

lemma effect_bind_outs: "effect (res_bind res (\<lambda>(m, outs2). Inr (m, outs @ outs2))) = effect res"
  by (cases res) (auto simp: effect_def split: prod.split)

lemma effect_end_game_request:
  assumes "find_room_by_player m i = (m, Some r)" and "put_room r m = m"
  shows "effect (end_game_request e m ws i) =
    Inr (if host_id r = i then put_room (fst (end_game_now e r)) m else m)"
  using assms by (simp add: end_game_request_def effect_with_room split: prod.split)

lemma forwarded_start_game_effect:
  assumes "registry_ok m" and "player_to_room m i = Some c"
  shows "effect (forwarded_start_game e m c i) = effect (start_game_request e f m i)"
proof (cases rule: start_game_ok [OF assms(1), of e i, case_names error started])
  case (error err)
  then show ?thesis by (simp add: forwarded_start_game_def start_game_request_def is_error_def)
next
  case (started r outs msg)
  then have c: "code r = c" using assms(2) by simp
  let ?m = "put_room (Lobby_Invariant.started r) m"
  have "find_room_by_player ?m i = (?m, Some (Lobby_Invariant.started r))"
    using find_room_by_player_ok [OF started(3), of i] assms(2) c started(5) by simp
  with started c show ?thesis
    by (simp add: forwarded_start_game_def start_game_request_def effect_bind_outs effect_in_this_room effect_with_room)
qed



subsection \<open>The transport of an accepted player\<close>

text \<open>
  When a host behind the gateway accepts a join request, the stream registers the id
  of the accepted player, which is in the answer to the host, with the host's transport: the next
  message of that player is handled, and answered, over the host's transport.
\<close>

theorem accepted_player_gets_host_transport:
  assumes "map_of (transports s) i = Some t" and "respond_join_request e m i q act = (m', outs, JoinRequestResolved q st d (Some j))"
    and "j \<noteq> []" and "j \<noteq> i"
  shows "\<exists>s' outs'. grpc_receive e a m s i c (Some (InGame (CmRespondJoinRequest q act))) = Some (m', s', outs')
    \<and> map_of (transports s') j = Some t \<and> snd (snd (ensure_transport m' s' j c')) = t"
  using assms
  by (simp add: grpc_receive_def ensure_transport_def dispatch_input_def dispatch_message_def game_result_def answered_def
      track_result_def result_player_def result_room_def set_room_attr_def update_conv' Let_def)

definition knocking :: pending_join_request where
  "knocking = \<lparr>jr_request_id = ''q'', jr_room_code = ''R'', jr_name = ''Dan'', jr_avatar = None,
     jr_websocket = VirtualTransport 9 0, jr_created_at = 0, jr_timeout_task = None\<rparr>"

theorem accepted_player_gets_host_transport_witness:
  "\<exists>m' s' outs'. grpc_receive lone_env lone_answers ((single_manager trio)\<lparr>pending_join_requests := [(''q'', knocking)]\<rparr>)
       ((new_stream 0 5)\<lparr>transports := [(''a'', VirtualTransport 1 0), (''pending-d'', VirtualTransport 9 0)]\<rparr>)
       ''a'' ''R'' (Some (InGame (CmRespondJoinRequest ''q'' ''accept''))) = Some (m', s', outs')
     \<and> map_of (transports s') ''u1'' = Some (VirtualTransport 1 0)"
proof -
  let ?m = "(single_manager trio)\<lparr>pending_join_requests := [(''q'', knocking)]\<rparr>"
  let ?s = "(new_stream 0 5)\<lparr>transports := [(''a'', VirtualTransport 1 0), (''pending-d'', VirtualTransport 9 0)]\<rparr>"
  have "\<exists>m' outs. respond_join_request lone_env ?m ''a'' ''q'' ''accept'' = (m', outs, JoinRequestResolved ''q'' AcceptedPlayer None (Some ''u1''))"
    by (simp add: respond_join_request_def knocking_def trio_simps Let_def players_full_def active_count_def is_active_def default_config_def
        MAX_PLAYERS_HARD_CAP_def drop_join_request_def cancel_request_timeout_def put_room_def cancel_if_pending_eq accept_join_request_def
        lone_env_def split: prod.split)
  then obtain m' outs where run: "respond_join_request lone_env ?m ''a'' ''q'' ''accept'' = (m', outs, JoinRequestResolved ''q'' AcceptedPlayer None (Some ''u1''))"
    by blast
  have "map_of (transports ?s) ''a'' = Some (VirtualTransport 1 0)" by (simp add: new_stream_def)
  from accepted_player_gets_host_transport [OF this run] show ?thesis by fastforce
qed

end
