(* ===== verification/Game_Progress.thy ===== *)
theory Game_Progress
  imports Registry_Facts
begin

text \<open>
  A running game always moves on: in every state it owns a scheduled task that will move it on (the
  automatic word selection, or the timer of the turn), whatever the players do meanwhile, and after a
  bounded number of these timeouts it is over. The players' guesses and word selections and all tasks
  of the turn engine may come in any order; joining, leaving and disconnecting are left out, because
  they change who draws.
\<close>

subsection \<open>Play\<close>

definition engine_task :: "env \<Rightarrow> room \<Rightarrow> coroutine \<Rightarrow> (room \<times> out list) res option" where
  "engine_task e r k =
     (case k of
        AutoSelect d \<Rightarrow> Some (auto_select e r d)
      | RevealHint40 oid \<Rightarrow> Some (reveal_hint e r oid)
      | RevealHint70 oid \<Rightarrow> Some (reveal_hint e r oid)
      | TurnTimer oid \<Rightarrow> Some (turn_timer e r oid)
      | _ \<Rightarrow> None)"

text \<open>The task that moves the game on.\<close>

definition own_task :: "room \<Rightarrow> task option" where
  "own_task r =
     (case state r of
        WORD_SELECTION \<Rightarrow> auto_select_task r
      | PLAYING \<Rightarrow> (case turn r of None \<Rightarrow> None | Some ts \<Rightarrow> timer_task ts)
      | _ \<Rightarrow> None)"

text \<open>A step of play; the label says whether it is a timeout, that is, the own task running when due.\<close>

inductive play :: "bool \<Rightarrow> room \<Rightarrow> room \<Rightarrow> bool" where
  guess: "handle_guess e r i guessed = Inr (r', outs) \<Longrightarrow> play False r r'"
| select: "handle_word_selection e r i w = Inr (r', outs) \<Longrightarrow> play False r r'"
| task: "map_of (loop_tasks r) t = Some (due, k) \<Longrightarrow> due \<le> now e \<Longrightarrow> engine_task e r k = Some (Inr (r', outs)) \<Longrightarrow>
    play (own_task r = Some t) r (cancel_task t r')"

text \<open>A sequence of steps with its number of timeouts.\<close>

inductive plays :: "nat \<Rightarrow> room \<Rightarrow> room \<Rightarrow> bool" where
  start: "plays 0 r r"
| step: "plays n r s \<Longrightarrow> play b s t \<Longrightarrow> plays (n + of_bool b) r t"

subsection \<open>A live game\<close>

definition selecting :: "room \<Rightarrow> bool" where
  "selecting r \<longleftrightarrow> state r = WORD_SELECTION \<and> turn r = None \<and> current_round r \<le> num_rounds (config r)
     \<and> (\<exists>ws. pending_word_choices r = Some ws \<and> ws \<noteq> [])
     \<and> (\<exists>t due. auto_select_task r = Some t \<and> (t, due, AutoSelect (pid (players r ! drawer_index r))) \<in> set (loop_tasks r))"

definition playing :: "room \<Rightarrow> bool" where
  "playing r \<longleftrightarrow> state r = PLAYING
     \<and> (\<exists>ts t due. turn r = Some ts \<and> timer_task ts = Some t \<and> (t, due, TurnTimer (turn_oid ts)) \<in> set (loop_tasks r))"

definition over :: "room \<Rightarrow> bool" where
  "over r \<longleftrightarrow> state r = GAME_OVER \<and> turn r = None \<and> pending_word_choices r = None"

definition live_game :: "room \<Rightarrow> bool" where
  "live_game r \<longleftrightarrow> room_inv r \<and> tasks_ok r \<and> 2 \<le> connected_active_count r \<and> drawer_index r < length (players r)
     \<and> (selecting r \<or> playing r \<or> over r)"

text \<open>The turns left, the present one included, and the timeouts left.\<close>

definition turns_left :: "room \<Rightarrow> nat" where
  "turns_left r = nat (num_rounds (config r) - current_round r) * length (players r) + (length (players r) - drawer_index r)"

definition timeouts_left :: "room \<Rightarrow> nat" where
  "timeouts_left r =
     (case state r of WORD_SELECTION \<Rightarrow> 2 * turns_left r | PLAYING \<Rightarrow> 2 * turns_left r - 1 | _ \<Rightarrow> 0)"

lemma turns_left_pos: "drawer_index r < length (players r) \<Longrightarrow> 0 < turns_left r"
  by (simp add: turns_left_def)

lemma turns_left_next:
  assumes "next_turn_spec r = Some (j, rd)" and "drawer_index r < length (players r)" and "current_round r \<le> num_rounds (config r)"
  shows "turns_left (r\<lparr>drawer_index := j, current_round := rd\<rparr>) < turns_left r"
proof -
  note sp = next_turn_spec_Some [OF assms(1)]
  show ?thesis
  proof (cases "rd = current_round r")
    case True
    with sp assms(2) show ?thesis by (auto simp: turns_left_def)
  next
    case False
    define left where "left = nat (num_rounds (config r) - rd)"
    have "nat (num_rounds (config r) - current_round r) = Suc left" using sp False by (auto simp: left_def)
    with assms(2) show ?thesis by (simp add: turns_left_def left_def)
  qed
qed

text \<open>The own task is newer than all tasks of an earlier state.\<close>

definition newer_task :: "nat \<Rightarrow> room \<Rightarrow> bool" where
  "newer_task n r \<longleftrightarrow> (case own_task r of None \<Rightarrow> True | Some t \<Rightarrow> n \<le> t)"

lemma start_turn_live:
  assumes "room_inv r" and "tasks_ok r" and "turn r = None" and "current_round r \<le> num_rounds (config r)"
    and "2 \<le> connected_active_count r" and "drawer_index r < length (players r)" and "start_turn e r = Inr (r', outs)"
  shows "live_game r' \<and> timeouts_left r' = 2 * turns_left r \<and> newer_task (next_oid r) r'"
proof -
  from assms(7) obtain drawer packs choices where
    d: "py_nth (players r) (drawer_index r) = Inr drawer" and pk: "draw_word_pack_choices (draws e) r 3 3 = (packs, choices)" and
    r': "r' = r\<lparr>pending_word_choices := Some (concat (map pack_words packs)), pending_packs := Some packs,
            state := WORD_SELECTION,
            loop_tasks := loop_tasks r @ [(next_oid r, now e + 15, AutoSelect (pid drawer))],
            next_oid := next_oid r + 1, auto_select_task := Some (next_oid r)\<rparr>"
    by (rule start_turn_InrE)
  have drawer: "drawer = players r ! drawer_index r" using d assms(6) by (simp add: py_nth_def)
  note facts = draw_word_pack_choices_facts [OF pk]
  then obtain p where "p \<in> set packs" "pack_words p \<noteq> []" by (cases packs) auto
  then have ne: "concat (map pack_words packs) \<noteq> []" by auto
  note inv = start_turn_inv [OF assms(1,3,7,4)]
  have "connected_active_count r' = connected_active_count r" using inv people_kept_counts(1) by blast
  moreover have "tasks_ok r'" using assms(2) by (auto simp: r' tasks_ok_def)
  moreover have "selecting r'" using assms(3,4) ne by (auto simp: selecting_def r' drawer)
  ultimately have "live_game r'" using inv assms(5,6) by (simp add: live_game_def) (simp add: r')
  then show ?thesis by (simp add: r' timeouts_left_def turns_left_def newer_task_def own_task_def)
qed

lemma finish_game_live:
  assumes "people_inv r" and "tasks_ok r" and "turn r = None" and "pending_word_choices r = None" and "0 \<le> current_round r"
    and "2 \<le> connected_active_count r" and "drawer_index r < length (players r)" and "finish_game e r = (r', outs)"
  shows "live_game r' \<and> timeouts_left r' = 0 \<and> newer_task n r'"
proof -
  have "r' = fst (finish_game e r)" using assms(8) by simp
  then have r': "r' = (r\<lparr>state := GAME_OVER\<rparr>)\<lparr>players :=
      map (\<lambda>p. if is_active p then session_update (top_score (r\<lparr>state := GAME_OVER\<rparr>)) p else p) (players r)\<rparr>"
    by (simp add: finish_game_eq build_game_over_room)
  note inv = finish_game_inv [OF assms(1,3,4,5,8)]
  have "connected_active_count r' = connected_active_count r" using inv people_kept_counts(1) by blast
  moreover have "tasks_ok r'" using assms(2) by (simp add: r' tasks_ok_def)
  moreover have "over r'" using assms(3,4) by (simp add: over_def r')
  ultimately have "live_game r'" using inv assms(6,7) by (simp add: live_game_def) (simp add: r')
  then show ?thesis by (simp add: r' timeouts_left_def newer_task_def own_task_def)
qed

lemma advance_live:
  assumes "room_inv r" and "tasks_ok r" and "turn r = None" and "pending_word_choices r = None" and "state r \<noteq> LOBBY"
    and "current_round r \<le> num_rounds (config r)" and "2 \<le> connected_active_count r" and "drawer_index r < length (players r)"
    and "advance_turn_or_round e r = Inr (r', outs)"
  shows "live_game r' \<and> timeouts_left r' + 2 \<le> 2 * turns_left r \<and> newer_task (next_oid r) r'"
proof (cases rule: advance_cases [OF assms(6), of e, case_names waiting over turn])
  case waiting
  then show ?thesis using assms(7) by simp
next
  case over
  let ?r = "r\<lparr>drawer_index := 0, current_round := current_round r + 1\<rparr>"
  have k: "people_kept r ?r" by (simp add: people_kept_players)
  have pi: "people_inv ?r" using people_kept_inv [OF k] assms(1) by (simp add: room_inv_def)
  have rd: "0 \<le> current_round ?r" using assms(1) by (simp add: room_inv_def round_inv_def)
  have cac: "2 \<le> connected_active_count ?r" using people_kept_counts(1) [OF k] assms(7) by simp
  have fg: "finish_game e ?r = (r', outs)" using over(3) assms(9) by simp
  have "tasks_ok ?r" using assms(2) by (simp add: tasks_ok_def)
  from finish_game_live [OF pi this _ _ rd cac _ fg, of "next_oid r"] assms(3,4,8) turns_left_pos [OF assms(8)]
  show ?thesis by (cases "players r") auto
next
  case (turn j rd s outs')
  let ?r = "r\<lparr>drawer_index := j, current_round := rd\<rparr>"
  note sp = next_turn_spec_Some [OF turn(2)]
  have k: "people_kept r ?r" by (simp add: people_kept_players)
  have inv: "room_inv ?r" using people_kept_inv [OF k] assms(1,3,5,6) sp by (auto simp: room_inv_defs)
  have tk: "tasks_ok ?r" using assms(2) by (simp add: tasks_ok_def)
  have rd: "current_round ?r \<le> num_rounds (config ?r)" using sp assms(6) by auto
  have cac: "2 \<le> connected_active_count ?r" using people_kept_counts(1) [OF k] assms(7) by simp
  have run: "start_turn e ?r = Inr (r', outs)" using turn(3,4) assms(9) by simp
  from start_turn_live [OF inv tk _ rd cac _ run] assms(3) sp turns_left_next [OF turn(2) assms(8,6)]
  show ?thesis by simp
qed

lemma end_turn_live:
  assumes "room_inv r" and "tasks_ok r" and "2 \<le> connected_active_count r" and "drawer_index r < length (players r)"
    and "turn r = Some ts" and "end_turn e r reason = Inr (r', outs)"
  shows "live_game r' \<and> timeouts_left r' < timeouts_left r \<and> newer_task (next_oid r) r'"
proof -
  let ?r1 = "cancel_turn_tasks ts r"
  have inv1: "room_inv ?r1" and k1: "people_kept r ?r1" and t1: "tasks_ok ?r1"
    using assms(1,2) by (simp_all add: cancel_turn_tasks_eq) (auto simp: tasks_ok_def distinct_map_filter)
  have ok: "distinct (guess_order ts)" "drawer_id ts \<notin> set (guess_order ts)" "pending_word_choices r = None" "state r = PLAYING"
    using assms(1,5) by (simp_all add: room_inv_def turn_inv_def turn_ok_def)
  obtain r2 payload where run: "(if reason \<noteq> DRAWER_DISCONNECTED then score_turn e ts ?r1 else Inr (?r1, [])) = Inr (r2, payload)"
    and sc: "scored ?r1 payload r2"
    using score_turn_scored [OF ok(1,2), of ?r1 e] room_inv_duration [OF inv1]
    by (cases "reason = DRAWER_DISCONNECTED") auto
  have k2: "people_kept r r2" using people_kept_trans [OF k1 scored_people_kept [OF sc]] .
  then have len: "length (players r2) = length (players r)" by (auto simp: people_kept_def dest: list_all2_lengthD)
  from sc have f: "state r2 = state r" "pending_word_choices r2 = None" "current_round r2 = current_round r"
    "config r2 = config r" "drawer_index r2 = drawer_index r" "next_oid r2 = next_oid r" "loop_tasks r2 = loop_tasks ?r1" "next_oid r2 = next_oid ?r1"
    using ok(3) by (auto simp: scored_iff cancel_turn_tasks_eq)
  let ?r3 = "r2\<lparr>turn := None\<rparr>"
  have k3: "people_kept r ?r3" using k2 by simp
  have inv3: "room_inv ?r3"
    using people_kept_inv [OF k3] assms(1) f ok(4) by (simp add: room_inv_def turn_inv_def round_inv_def)
  have rounds: "current_round ?r3 \<le> num_rounds (config ?r3)" using room_inv_rounds [OF assms(1)] assms(5) f by simp
  have cac: "2 \<le> connected_active_count ?r3" using people_kept_counts(1) [OF k3] assms(3) by simp
  obtain outs' where adv: "advance_turn_or_round e ?r3 = Inr (r', outs')"
    using assms(5,6) run by (auto simp: end_turn_def Let_def res_bind_Inr_iff)
  have t3: "tasks_ok ?r3" using f(7,8) t1 by (simp add: tasks_ok_def)
  have "live_game r' \<and> timeouts_left r' + 2 \<le> 2 * turns_left ?r3 \<and> newer_task (next_oid ?r3) r'"
    by (rule advance_live [OF inv3 t3 _ _ _ rounds cac _ adv]) (use f ok(4) len assms(4) in simp_all)
  moreover have "turns_left ?r3 = turns_left r" using f len by (simp add: turns_left_def)
  ultimately show ?thesis using f(6) ok(4) by (auto simp: timeouts_left_def)
qed

subsection \<open>Steps of play\<close>

text \<open>A step moves a live game on, or leaves its own task and its timeouts as they are.\<close>

definition moved_on :: "room \<Rightarrow> room \<Rightarrow> bool" where
  "moved_on r r' \<longleftrightarrow> live_game r' \<and> timeouts_left r' < timeouts_left r \<and> newer_task (next_oid r) r'"

definition stayed :: "room \<Rightarrow> room \<Rightarrow> bool" where
  "stayed r r' \<longleftrightarrow> live_game r' \<and> timeouts_left r' = timeouts_left r \<and> own_task r' = own_task r"

lemma stayed_refl: "live_game r \<Longrightarrow> stayed r r"
  by (simp add: stayed_def)

lemma live_game_pending:
  "live_game r \<Longrightarrow> pending_word_choices r \<noteq> None \<Longrightarrow> selecting r"
  by (auto simp: live_game_def playing_def over_def room_inv_def turn_inv_def)

lemma begin_playing_moves:
  assumes "live_game r" and "selecting r"
  shows "moved_on r (fst (begin_playing e r drawer w ws))"
proof -
  let ?b = "fst (begin_playing e r drawer w ws)"
  note b = begin_playing_room [of e r drawer w ws]
  have inv: "room_inv ?b \<and> people_kept r ?b"
    by (rule begin_playing_inv [OF _ _ refl]) (use assms in \<open>auto simp: live_game_def selecting_def\<close>)
  have "tasks_ok ?b" using assms(1) by (auto simp: b live_game_def tasks_ok_def distinct_map_filter)
  moreover have "connected_active_count ?b = connected_active_count r" using inv people_kept_counts(1) by blast
  moreover have "playing ?b" by (auto simp: b playing_def turn_of_word_def)
  ultimately have "live_game ?b" using inv assms(1) by (simp add: live_game_def) (simp add: b)
  moreover have "timeouts_left ?b < timeouts_left r"
    using assms turns_left_pos [of r] by (simp add: b timeouts_left_def turns_left_def live_game_def selecting_def)
  moreover have "newer_task (next_oid r) ?b" by (simp add: b newer_task_def own_task_def turn_of_word_def)
  ultimately show ?thesis by (simp add: moved_on_def)
qed

lemma selection_moves:
  assumes "live_game r" and "handle_word_selection e r i w = Inr (r', outs)"
  shows "r' = r \<or> moved_on r r'"
proof -
  have "drawer_index r < length (players r)" using assms(1) by (simp add: live_game_def)
  then show ?thesis
  proof (cases rule: handle_word_selection_cases [of r e i w, case_names ignored chosen])
    case (chosen ws)
    then have "selecting r" using live_game_pending [OF assms(1)] by simp
    moreover have "r' = fst (begin_playing e r (players r ! drawer_index r) w ws)" using chosen(4) assms(2) by (metis Inr_inject fst_conv)
    ultimately show ?thesis using begin_playing_moves [OF assms(1), of e "players r ! drawer_index r" w ws] by simp
  qed (use assms in simp)
qed

lemma auto_select_moves:
  assumes "live_game r" and "auto_select e r d = Inr (r', outs)"
  shows "r' = r \<or> moved_on r r'"
proof (cases "r' = r")
  case False
  with assms(2) obtain w where "handle_word_selection e r d w = Inr (r', outs)"
    by (auto simp: auto_select_def res_bind_Inr_iff split: option.splits if_splits)
  with selection_moves [OF assms(1) this] show ?thesis by simp
qed simp

lemma own_auto_select_moves:
  assumes "live_game r" and "selecting r"
  shows "\<exists>r' outs. auto_select e r (pid (players r ! drawer_index r)) = Inr (r', outs) \<and> moved_on r r'"
proof -
  obtain ws where ws: "pending_word_choices r = Some ws" "ws \<noteq> []" using assms(2) by (auto simp: selecting_def)
  obtain w where w: "random_choice (draws e 0) ws = Inr w" using random_choice_ex [OF ws(2)] by blast
  then have "w \<in> set ws" by (rule random_choice_in)
  with ws w assms have "auto_select e r (pid (players r ! drawer_index r)) = Inr (begin_playing e r (players r ! drawer_index r) w ws)"
    by (simp add: auto_select_def handle_word_selection_def py_nth_def selecting_def live_game_def)
  with begin_playing_moves [OF assms, of e "players r ! drawer_index r" w ws] show ?thesis
    by (cases "begin_playing e r (players r ! drawer_index r) w ws") simp
qed

lemma end_turn_moves:
  "live_game r \<Longrightarrow> turn r = Some ts \<Longrightarrow> end_turn e r reason = Inr (r', outs) \<Longrightarrow> moved_on r r'"
  using end_turn_live [of r ts e reason r' outs] by (simp add: live_game_def moved_on_def)

lemma turn_timer_moves:
  assumes "live_game r" and "turn_timer e r oid = Inr (r', outs)"
  shows "r' = r \<or> moved_on r r'"
  using assms end_turn_moves [OF assms(1)]
  by (auto simp: turn_timer_def turn_running_def split: if_splits option.splits)

lemma own_timer_moves:
  assumes "live_game r" and "playing r" and "turn r = Some ts"
  shows "\<exists>r' outs. turn_timer e r (turn_oid ts) = Inr (r', outs) \<and> moved_on r r'"
proof -
  have "room_inv r" using assms(1) by (simp add: live_game_def)
  from end_turn_inv [OF this, of e TIMER_EXPIRED] obtain r' outs where "end_turn e r TIMER_EXPIRED = Inr (r', outs)" by blast
  with end_turn_moves [OF assms(1,3) this] assms(2,3) show ?thesis
    by (simp add: turn_timer_def turn_running_def playing_def)
qed

lemma reveal_hint_stays:
  assumes "live_game r" and "reveal_hint e r oid = Inr (r', outs)"
  shows "stayed r r'"
proof -
  have inv: "room_inv r' \<and> people_kept r r'" using reveal_hint_inv [OF _ assms(2)] assms(1) by (simp add: live_game_def)
  show ?thesis
  proof (cases "r' = r")
    case True
    with assms(1) show ?thesis by (simp add: stayed_def)
  next
    case False
    then obtain ts h where ts: "turn r = Some ts" "turn_running r oid" "r' = r\<lparr>turn := Some (ts\<lparr>hint := h\<rparr>)\<rparr>"
      using assms(2) by (auto simp: reveal_hint_def res_bind_Inr_iff Let_def split: option.splits if_splits)
    have "connected_active_count r' = connected_active_count r" using inv people_kept_counts(1) by blast
    moreover have "playing r'" using assms(1) ts by (auto simp: live_game_def selecting_def playing_def over_def)
    ultimately have "live_game r'" using inv assms(1) by (simp add: live_game_def) (simp add: ts(3) tasks_ok_def)
    then show ?thesis using ts by (simp add: stayed_def timeouts_left_def turns_left_def own_task_def split: room_state.split)
  qed
qed

lemma guess_moves:
  assumes "live_game r" and "handle_guess e r i guessed = Inr (r', outs)"
  shows "stayed r r' \<or> moved_on r r'"
proof -
  have "room_inv r" using assms(1) by (simp add: live_game_def)
  then show ?thesis
  proof (cases rule: handle_guess_cases [of r e i guessed, case_names quiet right])
    case (quiet outs')
    then have "r' = r" using assms(2) by simp
    with assms(1) show ?thesis by (simp add: stayed_def)
  next
    case (right ts p r2)
    have own: "own_task r2 = own_task r" "timeouts_left r2 = timeouts_left r" "next_oid r2 = next_oid r" "turn r2 \<noteq> None"
      using right(1,2) by (simp_all add: right(5) own_task_def timeouts_left_def turns_left_def upd_player_def)
    have "connected_active_count r2 = connected_active_count r" using right(7) people_kept_counts(1) by blast
    moreover have "playing r2" using assms(1) right(1,2)
      by (auto simp: live_game_def selecting_def playing_def over_def right(5) upd_player_def)
    ultimately have live: "live_game r2"
      using right(6) assms(1) by (simp add: live_game_def) (simp add: right(5) tasks_ok_def upd_player_def)
    show ?thesis
    proof (cases "all_guessed r2 (drawer_id ts)")
      case False
      then have "r' = r2" using assms(2) right(8) by simp
      with live own show ?thesis by (simp add: stayed_def)
    next
      case True
      then obtain o' where "end_turn e r2 ALL_GUESSED = Inr (r', o')"
        using assms(2) right(8) by (auto simp: res_bind_Inr_iff)
      then have "moved_on r2 r'" using end_turn_moves [OF live] own(4) by auto
      with own show ?thesis by (simp add: moved_on_def)
    qed
  qed
qed

lemma cancel_task_live:
  assumes "live_game r" and "own_task r \<noteq> Some t"
  shows "stayed r (cancel_task t r)"
proof -
  have "selecting (cancel_task t r) \<or> playing (cancel_task t r) \<or> over (cancel_task t r)"
    using assms by (auto simp: live_game_def selecting_def playing_def over_def cancel_task_def own_task_def)
  then have "live_game (cancel_task t r)"
    using assms(1) cancel_task_ok [of r t] by (simp add: live_game_def) (simp add: cancel_task_def connected_active_count_def)
  then show ?thesis
    by (cases "state r") (simp_all add: stayed_def cancel_task_def timeouts_left_def turns_left_def own_task_def)
qed

lemma newer_task_keeps: "newer_task n r \<Longrightarrow> t < n \<Longrightarrow> own_task r \<noteq> Some t"
  by (auto simp: newer_task_def)

text \<open>The own task of a live game is pending and moves the game on when it runs.\<close>

lemma own_task_moves:
  assumes "live_game r" and "\<not> over r"
  obtains t due k where "own_task r = Some t" "map_of (loop_tasks r) t = Some (due, k)"
    "\<And>e. \<exists>r' outs. engine_task e r k = Some (Inr (r', outs)) \<and> moved_on r r'"
proof -
  have d: "distinct (map fst (loop_tasks r))" using assms(1) by (simp add: live_game_def tasks_ok_def)
  from assms consider "selecting r" | "playing r" by (auto simp: live_game_def)
  then show thesis
  proof cases
    case 1
    then obtain t due where t: "auto_select_task r = Some t" "(t, due, AutoSelect (pid (players r ! drawer_index r))) \<in> set (loop_tasks r)"
      by (auto simp: selecting_def)
    show thesis
    proof (rule that [of t due "AutoSelect (pid (players r ! drawer_index r))"])
      show "own_task r = Some t" using 1 t(1) by (simp add: selecting_def own_task_def)
      show "map_of (loop_tasks r) t = Some (due, AutoSelect (pid (players r ! drawer_index r)))" using d t(2) by simp
      show "\<exists>r' outs. engine_task e r (AutoSelect (pid (players r ! drawer_index r))) = Some (Inr (r', outs)) \<and> moved_on r r'" for e
        using own_auto_select_moves [OF assms(1) 1, of e] by (auto simp: engine_task_def)
    qed
  next
    case 2
    then obtain ts t due where t: "turn r = Some ts" "timer_task ts = Some t" "(t, due, TurnTimer (turn_oid ts)) \<in> set (loop_tasks r)"
      by (auto simp: playing_def)
    show thesis
    proof (rule that [of t due "TurnTimer (turn_oid ts)"])
      show "own_task r = Some t" using 2 t(1,2) by (simp add: playing_def own_task_def)
      show "map_of (loop_tasks r) t = Some (due, TurnTimer (turn_oid ts))" using d t(3) by simp
      show "\<exists>r' outs. engine_task e r (TurnTimer (turn_oid ts)) = Some (Inr (r', outs)) \<and> moved_on r r'" for e
        using own_timer_moves [OF assms(1) 2 t(1), of e] by (auto simp: engine_task_def)
    qed
  qed
qed

lemma engine_task_moves:
  assumes "live_game r" and "engine_task e r k = Some (Inr (r', outs))"
  shows "stayed r r' \<or> moved_on r r'"
proof -
  have "r' = r \<or> moved_on r r' \<or> stayed r r'"
    using assms(2) auto_select_moves [OF assms(1)] turn_timer_moves [OF assms(1)] reveal_hint_stays [OF assms(1)]
    by (cases k) (simp_all add: engine_task_def, blast+)
  then show ?thesis using stayed_refl [OF assms(1)] by auto
qed

lemma play_progress:
  assumes "play b r r'" and "live_game r"
  shows "live_game r' \<and> timeouts_left r' + of_bool b \<le> timeouts_left r"
  using assms(1)
proof cases
  case (guess e i guessed outs)
  from guess_moves [OF assms(2) guess(2)] guess(1) show ?thesis by (auto simp: stayed_def moved_on_def)
next
  case (select e i w outs)
  from selection_moves [OF assms(2) select(2)] select(1) assms(2) show ?thesis by (auto simp: moved_on_def)
next
  case (task t due k e r1 outs)
  have old: "t < next_oid r" using assms(2) map_of_SomeD [OF task(3)] by (auto simp: live_game_def tasks_ok_def)
  have moved: ?thesis if "moved_on r r1"
    using that newer_task_keeps [OF _ old, of r1] cancel_task_live [of r1 t] task(2) by (auto simp: moved_on_def stayed_def)
  show ?thesis
  proof (cases "own_task r = Some t")
    case True
    then have "\<not> over r" by (auto simp: over_def own_task_def)
    show ?thesis
    proof (cases rule: own_task_moves [OF assms(2) \<open>\<not> over r\<close>, case_names own])
      case (own t' due' k')
      with True task(3) have "k' = k" by simp
      with own(3) [of e] task(5) have "moved_on r r1" by auto
      then show ?thesis by (rule moved)
    qed
  next
    case False
    from engine_task_moves [OF assms(2) task(5)] show ?thesis
    proof
      assume "stayed r r1"
      with False cancel_task_live [of r1 t] task(1,2) show ?thesis by (simp add: stayed_def)
    qed (rule moved)
  qed
qed

lemma plays_progress:
  "plays n r r' \<Longrightarrow> live_game r \<Longrightarrow> live_game r' \<and> n + timeouts_left r' \<le> timeouts_left r"
  by (induction rule: plays.induct) (auto dest: play_progress)

lemma own_task_times_out:
  assumes "live_game r" and "state r \<noteq> GAME_OVER"
  shows "\<exists>t due k. own_task r = Some t \<and> map_of (loop_tasks r) t = Some (due, k) \<and> (\<forall>e::env. due \<le> now e \<longrightarrow> (\<exists>r'. play True r r'))"
proof -
  have "\<not> over r" using assms(2) by (simp add: over_def)
  show ?thesis
  proof (cases rule: own_task_moves [OF assms(1) \<open>\<not> over r\<close>, case_names own])
    case (own t due k)
    have "\<exists>r'. play True r r'" if "due \<le> now e" for e :: env
    proof -
      obtain r' outs where "engine_task e r k = Some (Inr (r', outs))" using own(3) [of e] by blast
      from play.task [OF own(2) that this] own(1) show ?thesis by auto
    qed
    with own(1,2) show ?thesis by blast
  qed
qed

subsection \<open>From the start to the end\<close>

lemma started_live:
  assumes "ready_for_turn s" and "tasks_ok s" and "current_round s = 1" and "2 \<le> connected_active_count s"
    and "start_turn e s = Inr (r1, outs)"
  shows "live_game r1 \<and> timeouts_left r1 \<le> 2 * nat (num_rounds (config s)) * length (players s)"
proof -
  note rd = assms(1) [unfolded ready_for_turn_def]
  have "1 \<le> num_rounds (config s)" using rd assms(3) by simp
  then have "nat (num_rounds (config s)) = Suc (nat (num_rounds (config s) - 1))" by arith
  then have "turns_left s \<le> nat (num_rounds (config s)) * length (players s)"
    using assms(3) by (simp add: turns_left_def)
  with start_turn_live [of s e r1 outs] rd assms show ?thesis by simp
qed

lemma started_frame:
  "loop_tasks (started r) = loop_tasks r" "next_oid (started r) = next_oid r" "config (started r) = config r"
  "length (players (started r)) = length (players r)" "current_round (started r) = 1" "state (started r) = WORD_SELECTION"
  by (simp_all add: started_def Let_def upd_players_def split: option.split)

lemma connected_active_started: "connected_active_count (started r) = connected_active_count r"
proof -
  have "filter connected_active (map prepare_player ps) = map prepare_player (filter connected_active ps)" for ps
    by (induction ps) (simp_all add: prepare_player_def connected_active_def)
  then show ?thesis by (simp add: started_def Let_def upd_players_def connected_active_count_def split: option.split)
qed

lemma started_request:
  assumes "registry_ok m" and "get_room m c = Some r" and "start_game_request e f m i = Inr (m1, outs)"
    and "get_room m1 c = Some r1" and "state r = LOBBY" and "state r1 \<noteq> LOBBY"
  shows "ready_for_turn (started r) \<and> (\<exists>outs. start_turn e (started r) = Inr (r1, outs))"
proof (cases rule: start_game_ok [OF assms(1), of e i, case_names error started])
  case (error err)
  then have "m1 = m" using assms(3) by (simp add: start_game_request_def is_error_def)
  with assms(2,4,5,6) show ?thesis by simp
next
  case (started s outs' msg)
  let ?m = "put_room (Lobby_Invariant.started s) m"
  have find: "find_room_by_player ?m i = (?m, Some (Lobby_Invariant.started s))"
    using find_room_by_player_ok [OF started(3), of i] started(5,6) by simp
  obtain s' outs'' where st: "start_turn e (Lobby_Invariant.started s) = Inr (s', outs'')" "people_kept (Lobby_Invariant.started s) s'"
    using start_turn_ready [OF started(4)] by blast
  then have m1: "m1 = put_room s' ?m" and code: "code s' = code s"
    using assms(3) started(1,2,5) find by (auto simp: start_game_request_def with_room_def people_kept_def)
  have "code r = c" using registry_okD(2) [OF assms(1,2)] .
  show ?thesis
  proof (cases "code s = c")
    case True
    then have "s = r" using started(7) assms(2) by simp
    moreover have "r1 = s'" using m1 code True assms(4) by simp
    ultimately show ?thesis using started(4) st(1) by blast
  next
    case False
    then have "r1 = r" using m1 code started(5) assms(2,4) by simp
    with assms(5,6) show ?thesis by simp
  qed
qed



end
