(* ===== verification/Registrations.thy ===== *)
theory Registrations
  imports Server
begin

text \<open>
  What the operations of a worker do to its registrations in Redis: the channels it listens to and the
  rooms it is registered for follow the rooms it has (\<open>follows\<close>). Every operation of the turn engine
  is \<open>calm\<close>: it registers nothing and keeps the code of its room.
\<close>

subsection \<open>What a handler's outputs do to the registrations\<close>

definition listens :: "out \<Rightarrow> string set \<Rightarrow> string set" where
  "listens o' S = (case o' of SubscribeRoom c \<Rightarrow> insert c S | UnsubscribeRoom c \<Rightarrow> S - {c} | _ \<Rightarrow> S)"

definition owns :: "out \<Rightarrow> string set \<Rightarrow> string set" where
  "owns o' S =
     (case o' of RegisterRoomWithTtl c \<Rightarrow> insert c S | RegisterRoomWorker c \<Rightarrow> insert c S
      | UnregisterRoomWithTtl c \<Rightarrow> S - {c} | RemoveRoomWorker c \<Rightarrow> S - {c} | SaveRoomSnapshot c sn \<Rightarrow> S - {c} | _ \<Rightarrow> S)"

definition quiet :: "out list \<Rightarrow> bool" where
  "quiet outs \<longleftrightarrow> (\<forall>o' \<in> set outs. \<forall>S. listens o' S = S \<and> owns o' S = S)"

lemma quiet_simps [simp]:
  "quiet []" "quiet (xs @ ys) \<longleftrightarrow> quiet xs \<and> quiet ys"
  "quiet (SendText ws l msg # xs) = quiet xs" "quiet (SendRoom ws c l msg # xs) = quiet xs"
  "quiet (PublishToRoom c msg # xs) = quiet xs" "quiet (SetRoomInfo c st n cfg h # xs) = quiet xs"
  "quiet (PublishRpc w q # xs) = quiet xs" "quiet (SetRpcResponse i msg # xs) = quiet xs"
  "quiet (CloseSocket ws # xs) = quiet xs" "quiet (PutError k c i err # xs) = quiet xs"
  by (auto simp: quiet_def listens_def owns_def)

lemma quiet_concat: "(\<And>x. x \<in> set xs \<Longrightarrow> quiet (f x)) \<Longrightarrow> quiet (concat (map f xs))"
  by (induction xs) auto

lemma quiet_map: "(\<And>x. quiet [f x]) \<Longrightarrow> quiet (map f xs)"
  by (auto simp: quiet_def)

lemma quiet_sends [simp]:
  "quiet (broadcast_room e r msg)" "quiet (send_to p msg)" "quiet (room_broadcast e m c msg)"
  "quiet (reply ws msg)" "quiet (reply_error ws msg)" "quiet (no_reply msg)"
proof -
  show b: "quiet (broadcast_room e r msg)" for e r
    by (auto simp: broadcast_room_def Let_def intro!: quiet_concat split: option.split)
  show "quiet (send_to p msg)" by (simp add: send_to_def split: option.split)
  show "quiet (room_broadcast e m c msg)" using b by (simp add: room_broadcast_def split: option.split)
  show "quiet (reply ws msg)" "quiet (reply_error ws msg)" "quiet (no_reply msg)"
    by (simp_all add: reply_def reply_error_def no_reply_def)
qed

lemma quiet_info [simp]: "quiet (set_room_info r # xs) = quiet xs"
  by (simp add: set_room_info_def)

lemma quiet_forward [simp]: "quiet (forward_requests p r)"
  by (auto simp: forward_requests_def intro!: quiet_map split: option.split prod.split)

subsection \<open>Operations on a room register nothing\<close>

definition calm :: "room \<Rightarrow> room \<times> out list \<Rightarrow> bool" where
  "calm r x \<longleftrightarrow> code (fst x) = code r \<and> quiet (snd x)"

definition calm_res :: "room \<Rightarrow> (room \<times> out list) res \<Rightarrow> bool" where
  "calm_res r x \<longleftrightarrow> (case x of Inl _ \<Rightarrow> True | Inr y \<Rightarrow> calm r y)"

lemma calm_simps [simp]:
  "calm r (r', outs) \<longleftrightarrow> code r' = code r \<and> quiet outs"
  "calm_res r (Inl err)" "calm_res r (Inr x) = calm r x"
  by (simp_all add: calm_def calm_res_def)

lemma calm_code: "calm r x \<Longrightarrow> code r = code r' \<Longrightarrow> calm r' x"
  by (simp add: calm_def)

lemma calm_res_bind: "(\<And>y. x = Inr y \<Longrightarrow> calm_res r (f y)) \<Longrightarrow> calm_res r (res_bind x f)"
  by (cases x) simp_all

lemma calm_res_prefix:
  "calm_res r2 x \<Longrightarrow> code r2 = code r \<Longrightarrow> quiet pre \<Longrightarrow> calm_res r (res_bind x (\<lambda>(r', outs). Inr (r', pre @ outs)))"
  by (cases x) auto

lemma code_task [simp]:
  "code (snd (create_task d k r)) = code r" "code (cancel_if_pending t r) = code r" "code (cancel_turn_tasks ts r) = code r"
  "code (upd_player i f r) = code r" "code (upd_players f r) = code r" "code (select_word r w) = code r"
  "code (remove_player i r) = code r" "code (add_player p r) = code r" "code (next_index r) = code r"
  by (simp_all add: create_task_def cancel_if_pending_eq cancel_turn_tasks_def upd_player_def upd_players_def
      select_word_def remove_player_def add_player_def next_index_def Let_def)

lemma start_turn_calm: "calm_res r (start_turn e r)"
  by (auto simp: start_turn_def create_task_def Let_def intro!: calm_res_bind split: prod.split)

lemma begin_playing_calm: "calm r (begin_playing e r d w pc)"
  by (simp add: begin_playing_def create_task_def Let_def)

lemma handle_word_selection_calm: "calm_res r (handle_word_selection e r i w)"
  by (auto simp: handle_word_selection_def Let_def intro!: calm_res_bind begin_playing_calm)

lemma auto_select_calm: "calm_res r (auto_select e r d)"
  by (auto simp: auto_select_def intro!: calm_res_bind handle_word_selection_calm split: option.split)

lemma end_game_calm:
  "calm r (end_game_insufficient_players e r)" "calm r (end_game_insufficient_players_immediate e r)"
  "calm r (end_after_wait e r)"
proof -
  show i: "calm r (end_game_insufficient_players_immediate e r)"
    by (auto simp: end_game_insufficient_players_immediate_def Let_def split: option.split)
  show "calm r (end_game_insufficient_players e r)"
    by (auto simp: end_game_insufficient_players_def create_task_def Let_def)
  show "calm r (end_after_wait e r)"
    using i by (auto simp: end_after_wait_def calm_def split: prod.split)
qed

lemma finish_game_calm: "calm r (finish_game e r)"
proof -
  have "code (fst (build_game_over_payload r)) = code r" for r
    by (simp add: build_game_over_payload_def Let_def)
  from this [of "r\<lparr>state := GAME_OVER\<rparr>"] show ?thesis
    by (auto simp: finish_game_def split: prod.split)
qed

lemma advance_calm: "calm_res r (advance_turn_or_round e r)"
proof -
  have skip: "code r2 = code r1" if "skip_to_drawer n r1 = Inr (r2, oc)" for n r1 r2 oc
    using arg_cong [OF skip_to_drawer_frame [OF that, THEN conjunct1], of code] by simp
  have "calm r (finish_game e r2)" "calm_res r (start_turn e r2)" if "code r2 = code r" for r2
    using finish_game_calm [of r2 e] start_turn_calm [of r2 e] that by (auto simp: calm_def calm_res_def split: sum.split)
  then show ?thesis
    by (auto simp: advance_turn_or_round_def Let_def end_game_calm dest!: skip intro!: calm_res_bind split: skip_outcome.split)
qed

lemma score_turn_code: "score_turn e ts r = Inr (r', payload) \<Longrightarrow> code r' = code r"
proof -
  have g: "score_guessers e ts n is acc = Inr (r', x) \<Longrightarrow> code r' = code (fst acc)" for n "is" acc r' x
  proof (induction e ts n "is" acc rule: score_guessers.induct)
    case (2 e ts n i "is" r gs payload)
    then show ?case by (fastforce simp: res_bind_Inr_iff Let_def split: option.splits)
  qed simp
  show "score_turn e ts r = Inr (r', payload) \<Longrightarrow> code r' = code r"
    by (auto simp: score_turn_def res_bind_Inr_iff Let_def dest!: g split: option.splits)
qed

lemma end_turn_calm: "calm_res r (end_turn e r reason)"
proof (cases "turn r")
  case (Some ts)
  have "calm_res r (res_bind (advance_turn_or_round e r3) (\<lambda>(r4, outs). Inr (r4, ended @ outs)))"
    if "code r3 = code r" "quiet ended" for r3 ended
    using that by (rule calm_res_prefix [OF advance_calm])
  then show ?thesis
    using Some
    by (cases "if reason \<noteq> DRAWER_DISCONNECTED then score_turn e ts (cancel_turn_tasks ts r) else Inr (cancel_turn_tasks ts r, [])")
       (auto simp: end_turn_def Let_def dest!: score_turn_code split: if_splits)
qed (simp add: end_turn_def)

lemma timers_calm: "calm_res r (turn_timer e r oid)" "calm_res r (reveal_hint e r oid)"
  by (auto simp: turn_timer_def reveal_hint_def Let_def end_turn_calm intro!: calm_res_bind split: option.split)

lemma handle_guess_calm: "calm_res r (handle_guess e r i text)"
proof -
  have "calm_res r (res_bind (end_turn e r2 ALL_GUESSED) (\<lambda>(r3, outs). Inr (r3, correct @ outs)))"
    if "code r2 = code r" "quiet correct" for r2 correct
    using that by (rule calm_res_prefix [OF end_turn_calm])
  then show ?thesis by (simp add: handle_guess_def Let_def split: option.split)
qed

lemma handle_chat_calm: "calm r (handle_chat e r i text)"
  by (simp add: handle_chat_def Let_def split: option.split)

lemma dispatch_calm:
  "calm r (chat_in_room e i t r)" "calm r (react_in_room e i em r)" "calm r (type_in_room e i b r)" "calm r (end_game_now e r)"
proof -
  show "calm r (chat_in_room e i t r)" by (simp add: chat_in_room_def handle_chat_calm split: option.split)
  show "calm r (react_in_room e i em r)" "calm r (type_in_room e i b r)"
    by (simp_all add: react_in_room_def type_in_room_def split: option.split)
  have "calm r (end_game_insufficient_players_immediate e r1)" if "code r1 = code r" for r1
    using end_game_calm(2) [of r1 e] that by (simp add: calm_def)
  then show "calm r (end_game_now e r)" by (simp add: end_game_now_def Let_def)
qed

subsection \<open>Operations of the manager\<close>

definition codes :: "manager \<Rightarrow> string set" where
  "codes m = fst ` set (rooms m)"

definition coded :: "manager \<Rightarrow> bool" where
  "coded m \<longleftrightarrow> (\<forall>(c, r) \<in> set (rooms m). code r = c)"

text \<open>The registrations follow the rooms; \<open>on\<close> says whether Redis is enabled.\<close>

definition follows :: "bool \<Rightarrow> manager \<Rightarrow> manager \<times> out list \<Rightarrow> bool" where
  "follows on m x \<longleftrightarrow> coded (fst x) \<and>
     (on \<longrightarrow> fold listens (snd x) (codes m) = codes (fst x) \<and> fold owns (snd x) (codes m) = codes (fst x))"

definition follows_res :: "bool \<Rightarrow> manager \<Rightarrow> (manager \<times> out list) res \<Rightarrow> bool" where
  "follows_res on m x \<longleftrightarrow> (case x of Inl _ \<Rightarrow> True | Inr y \<Rightarrow> follows on m y)"

lemma quiet_fold: "quiet outs \<Longrightarrow> fold listens outs S = S \<and> fold owns outs S = S"
  by (induction outs) (auto simp: quiet_def)

lemma follows_quiet: "coded m' \<Longrightarrow> codes m' = codes m \<Longrightarrow> quiet outs \<Longrightarrow> follows on m (m', outs)"
  by (simp add: follows_def quiet_fold)

lemma follows_trans: "follows on m (m1, o1) \<Longrightarrow> follows on m1 (m2, o2) \<Longrightarrow> follows on m (m2, o1 @ o2)"
  by (simp add: follows_def)

lemma follows_from: "codes m1 = codes m \<Longrightarrow> follows on m1 x \<Longrightarrow> follows on m x"
  by (simp add: follows_def)

lemma follows_res_simps [simp]: "follows_res on m (Inl err)" "follows_res on m (Inr x) = follows on m x"
  by (simp_all add: follows_res_def)

lemma follows_res_bind: "(\<And>y. x = Inr y \<Longrightarrow> follows_res on m (f y)) \<Longrightarrow> follows_res on m (res_bind x f)"
  by (cases x) simp_all

definition follows3 :: "bool \<Rightarrow> manager \<Rightarrow> manager \<times> out list \<times> message \<Rightarrow> bool" where
  "follows3 on m x \<longleftrightarrow> follows on m (fst x, fst (snd x))"

lemma follows3_simps [simp]: "follows3 on m (m', outs, msg) = follows on m (m', outs)"
  by (simp add: follows3_def)

lemma codes_simps [simp]:
  "codes (put_room r m) = insert (code r) (codes m)" "codes (pop_player i m) = codes m"
  "codes (register_player i c m) = codes m" "codes (drop_vote c m) = codes m"
  "codes (m\<lparr>player_to_room := f1\<rparr>) = codes m" "codes (m\<lparr>pending_join_requests := f2\<rparr>) = codes m"
  "codes (m\<lparr>pending_role_requests := f3\<rparr>) = codes m" "codes (m\<lparr>ws_to_pending_request := f4\<rparr>) = codes m"
  "codes (m\<lparr>ws_to_player := f5\<rparr>) = codes m" "codes (m\<lparr>active_vote_kicks := f6\<rparr>) = codes m"
  "codes (m\<lparr>vote_kick_cooldowns := f7\<rparr>) = codes m" "codes (m\<lparr>ws_player_id := f8\<rparr>) = codes m"
proof -
  show "codes (put_room r m) = insert (code r) (codes m)"
    by (simp add: codes_def put_room_def dom_update flip: dom_map_of_conv_image_fst) (simp add: update_conv' dom_map_of_conv_image_fst)
qed (simp_all add: codes_def pop_player_def register_player_def drop_vote_def)

lemma coded_simps [simp]:
  "coded (pop_player i m) = coded m" "coded (register_player i c m) = coded m" "coded (drop_vote c m) = coded m"
  "coded (m\<lparr>player_to_room := f1\<rparr>) = coded m" "coded (m\<lparr>pending_join_requests := f2\<rparr>) = coded m"
  "coded (m\<lparr>pending_role_requests := f3\<rparr>) = coded m" "coded (m\<lparr>ws_to_pending_request := f4\<rparr>) = coded m"
  "coded (m\<lparr>ws_to_player := f5\<rparr>) = coded m" "coded (m\<lparr>active_vote_kicks := f6\<rparr>) = coded m"
  "coded (m\<lparr>vote_kick_cooldowns := f7\<rparr>) = coded m" "coded (m\<lparr>ws_player_id := f8\<rparr>) = coded m"
  by (simp_all add: coded_def pop_player_def register_player_def drop_vote_def)

lemma coded_put [simp]: "coded m \<Longrightarrow> coded (put_room r m)"
  using set_update_subset [of "code r" r "rooms m"] by (auto simp: coded_def put_room_def)

lemma get_room_codes: "get_room m c = Some r \<Longrightarrow> coded m \<Longrightarrow> code r = c \<and> c \<in> codes m"
  by (force simp: get_room_def coded_def codes_def dest: map_of_SomeD)

lemma find_room_codes:
  assumes "find_room_by_player m i = (m', x)" and "coded m"
  shows "codes m' = codes m \<and> coded m' \<and> (\<forall>r. x = Some r \<longrightarrow> code r \<in> codes m)"
proof (cases "player_to_room m i")
  case None
  have "code r \<in> codes m" if "List.find (\<lambda>(c, r). get_player r i \<noteq> None) (rooms m) = Some (c, r)" for c r
  proof -
    from that have "(c, r) \<in> set (rooms m)" by (metis find_Some_iff nth_mem)
    with assms(2) show ?thesis by (force simp: coded_def codes_def)
  qed
  with None assms show ?thesis by (auto simp: find_room_by_player_def split: option.splits prod.splits)
qed (use assms in \<open>auto simp: find_room_by_player_def dest: get_room_codes\<close>)

lemma delete_room_follows:
  assumes "coded m"
  shows "follows (redis_enabled e) m (delete_room e m c)"
proof -
  have "fst ` set (AList.delete c (rooms m)) = codes m - {c}" by (auto simp: codes_def AList.delete_eq image_iff)
  moreover have "coded (m\<lparr>rooms := AList.delete c (rooms m)\<rparr>)"
    using assms set_delete_subset [of c "rooms m"] by (auto simp: coded_def)
  ultimately show ?thesis
    by (simp add: follows_def delete_room_def Let_def codes_def [of "m\<lparr>rooms := _\<rparr>"] listens_def owns_def report_worker_load_def)
qed

text \<open>An operation on the room of a player.\<close>

lemma in_this_room_follows:
  assumes "coded m" and "code r \<in> codes m" and "calm_res r x"
  shows "follows_res on m (in_this_room m r x)"
  using assms by (cases x) (auto simp: in_this_room_def insert_absorb intro!: follows_quiet)

lemma with_room_follows:
  assumes "coded m" and "\<And>r. calm_res r (f r)"
  shows "follows_res on m (with_room m i f)"
proof (cases "find_room_by_player m i")
  case (Pair m' x)
  note k = find_room_codes [OF Pair assms(1)]
  show ?thesis
  proof (cases x)
    case (Some r)
    have "follows_res on m' (in_this_room m' r (f r))" using k Some assms(2) by (intro in_this_room_follows) auto
    with Pair Some k show ?thesis
      by (auto simp: with_room_def in_this_room_def follows_res_def intro: follows_from split: sum.splits)
  qed (use Pair k in \<open>simp add: with_room_def follows_quiet\<close>)
qed

text \<open>Requests of the host and the players that answer with a message.\<close>



lemma lobby_follows:
  assumes "coded m"
  shows "follows3 on m (update_settings e m i s)" "follows3 on m (handle_rematch e m i)"
    "follows3 on m (transfer_host e m i t)" "follows3 on m (kick_player e m i t)"
    "follows3 on m (toggle_ready e m i)" "follows3 on m (update_profile e m i n av)"
proof -
  obtain m' x where fr: "find_room_by_player m i = (m', x)" by fastforce
  note k = find_room_codes [OF fr assms]
  show "follows3 on m (update_settings e m i s)" "follows3 on m (handle_rematch e m i)"
    "follows3 on m (transfer_host e m i t)" "follows3 on m (kick_player e m i t)"
    "follows3 on m (toggle_ready e m i)" "follows3 on m (update_profile e m i n av)"
    using k by (auto simp: fr update_settings_def handle_rematch_def transfer_host_def kick_player_def toggle_ready_def
        update_profile_def Let_def insert_absorb intro!: follows_quiet split: option.split)
qed

lemma leave_room_follows:
  assumes "coded m"
  shows "follows3 (redis_enabled e) m (leave_room e m i)"
proof -
  obtain m' x where fr: "find_room_by_player m i = (m', x)" by fastforce
  note k = find_room_codes [OF fr assms]
  have d: "follows (redis_enabled e) m (delete_room e (pop_player i (put_room (remove_player i r) m')) c)"
    if "x = Some r" for r c
    using k that by (intro follows_from [OF _ delete_room_follows]) (simp_all add: insert_absorb)
  show ?thesis
  proof (cases x)
    case (Some r)
    show ?thesis
      using k d [OF Some] Some
      by (cases "players (remove_player i r)")
         (auto simp: fr leave_room_def Let_def insert_absorb split_beta intro!: follows_quiet)
  qed (use k in \<open>simp add: fr leave_room_def follows_quiet\<close>)
qed

text \<open>A player who is removed: the room is deleted or gets a host.\<close>

lemma change_host_calm: "calm r (if b then change_host e cs r else (r, []))"
  by (simp add: change_host_def Let_def split: list.split)

lemma removals_follow:
  assumes "coded m"
  shows "follows (redis_enabled e) m (mgr_remove_player e m i)" "follows (redis_enabled e) m (permanently_remove_player e m i)"
proof -
  obtain m' x where fr: "find_room_by_player m i = (m', x)" by fastforce
  note k = find_room_codes [OF fr assms]
  have "follows (redis_enabled e) m (mgr_remove_player e m i) \<and> follows (redis_enabled e) m (permanently_remove_player e m i)"
  proof (cases x)
    case (Some r)
    let ?r1 = "remove_player i r"
    let ?m1 = "pop_player i (put_room ?r1 m')"
    have d: "follows (redis_enabled e) m (delete_room e ?m1 c)" for c
      using k Some by (intro follows_from [OF _ delete_room_follows]) (simp_all add: insert_absorb)
    obtain r2 o2 where r2: "(if host_id ?r1 = i then change_host e (replacement_candidates ?r1) ?r1 else (?r1, [])) = (r2, o2)"
      by fastforce
    with change_host_calm [of ?r1 "host_id ?r1 = i" e "replacement_candidates ?r1"] have c2: "code r2 = code r" "quiet o2" by auto
    obtain r3 o3 where r3: "(if in_game r2 \<and> connected_count r2 < 2 then end_game_insufficient_players e r2 else (r2, [])) = (r3, o3)"
      by fastforce
    with end_game_calm(1) [of r2 e] c2 have c3: "code r3 = code r" "quiet o3" by (auto split: if_splits)
    have q: "follows (redis_enabled e) m (put_room r' ?m1, outs)" if "code r' = code r" "quiet outs" for r' outs
      using k Some that by (intro follows_quiet) (simp_all add: insert_absorb)
    show ?thesis
      using d q [OF c2(1)] q [OF c3(1)] c2 c3
      by (simp only: fr Some mgr_remove_player_def permanently_remove_player_def Let_def r2 r3 split: if_split) (simp add: r2 r3)
  qed (use k in \<open>simp add: fr mgr_remove_player_def permanently_remove_player_def follows_quiet\<close>)
  then show "follows (redis_enabled e) m (mgr_remove_player e m i)" "follows (redis_enabled e) m (permanently_remove_player e m i)"
    by simp_all
qed

text \<open>Votes.\<close>

lemma kick_from_room_calm: "calm_res r (kick_from_room e ge r target)"
proof -
  define r1 where "r1 = remove_player (pid target) r"
  obtain r2 o2 where r2: "(if host_id r = pid target then change_host e (connected_candidates r1) r1 else (r1, [])) = (r2, o2)"
    by fastforce
  with change_host_calm [of r1 "host_id r = pid target" e "connected_candidates r1"] have c2: "code r2 = code r" "quiet o2"
    by (auto simp: r1_def)
  define ended where "ended r3 d = (if in_game r3
              then if connected_active_count r3 < 2 then Inr (end_game_insufficient_players e r3)
                   else if \<not> d \<and> everybody_guessed r3 \<and> ge then end_turn e r3 ALL_GUESSED
                   else Inr (r3, [])
              else Inr (r3, []))" for r3 d
  have ended: "code r4 = code r3 \<and> quiet o4" if "ended r3 d = Inr (r4, o4)" for r3 d r4 o4
  proof -
    have "calm_res r3 (ended r3 d)" by (simp add: ended_def end_turn_calm end_game_calm)
    with that show ?thesis by simp
  qed
  have first: "code r3 = code r \<and> quiet o3"
    if "(if d \<and> ge then end_turn e r2 DRAWER_DISCONNECTED else Inr (r2, [])) = Inr (r3, o3)" for d r3 o3
    using end_turn_calm [of r2 e DRAWER_DISCONNECTED] c2 that by (cases "d \<and> ge") auto
  show ?thesis
    unfolding kick_from_room_def Let_def r1_def [symmetric] r2 ended_def [symmetric]
    by (simp only: prod.case, rule calm_res_bind, clarsimp, rule calm_res_bind, clarsimp)
       (use c2 in \<open>auto dest!: first ended\<close>)
qed

lemma execute_vote_kick_follows:
  assumes "coded m" and "code r \<in> codes m"
  shows "follows_res on m (execute_vote_kick_passed e ge m r target)"
  using kick_from_room_calm [of r e ge target] assms
  by (cases "kick_from_room e ge r target") (auto simp: execute_vote_kick_passed_def insert_absorb intro!: follows_quiet)

definition follows3_res :: "bool \<Rightarrow> manager \<Rightarrow> (manager \<times> out list \<times> message) res \<Rightarrow> bool" where
  "follows3_res on m x \<longleftrightarrow> (case x of Inl _ \<Rightarrow> True | Inr y \<Rightarrow> follows3 on m y)"

lemma follows3_res_simps [simp]: "follows3_res on m (Inl err)" "follows3_res on m (Inr x) = follows3 on m x"
  by (simp_all add: follows3_res_def)

lemma follows3_res_msg: "follows_res on m x \<Longrightarrow> follows3_res on m (res_bind x (\<lambda>(m', outs). Inr (m', outs, msg)))"
  by (cases x) auto

lemma follows_res_from: "codes m1 = codes m \<Longrightarrow> follows_res on m1 x \<Longrightarrow> follows_res on m x"
  by (auto simp: follows_res_def intro: follows_from split: sum.splits)

lemma vote_kick_follows:
  assumes "coded m"
  shows "follows3_res on m (start_vote_kick e ge m i t)" "follows3_res on m (cast_vote_kick e ge m i v)"
    "follows on m (handle_vote_kick_timeout e m c t)"
proof -
  obtain m' x where fr: "find_room_by_player m i = (m', x)" by fastforce
  note k = find_room_codes [OF fr assms]
  have kick: "follows_res on m (execute_vote_kick_passed e ge m1 r1 target)"
    if "coded m1" "codes m1 = codes m" "code r1 \<in> codes m" for m1 r1 target
    using that by (intro follows_res_from [OF _ execute_vote_kick_follows]) simp_all
  show "follows3_res on m (start_vote_kick e ge m i t)"
    using k by (auto simp: fr start_vote_kick_def create_task_def Let_def insert_absorb
        intro!: follows_quiet follows3_res_msg kick split: option.split)
  show "follows3_res on m (cast_vote_kick e ge m i v)"
    using k by (auto simp: fr cast_vote_kick_def Let_def insert_absorb
        intro!: follows_quiet follows3_res_msg kick split: option.split)
  show "follows on m (handle_vote_kick_timeout e m c t)"
    using assms by (auto simp: handle_vote_kick_timeout_def Let_def intro!: follows_quiet split: option.split)
qed

text \<open>Disconnection, host reassignment, reconnection.\<close>

lemma disconnect_from_vote_follows:
  assumes "coded m" and "code r \<in> codes m"
  shows "follows_res on m (disconnect_from_vote e ge m r i)"
  using assms execute_vote_kick_follows
  by (auto simp: disconnect_from_vote_def Let_def insert_absorb intro!: follows_quiet follows_res_from [OF _ execute_vote_kick_follows] split: option.split)

lemma schedule_code [simp]: "code (schedule_host_reassignment e i r) = code r" "code (schedule_cleanup e i r) = code r"
  by (auto simp: schedule_host_reassignment_def schedule_cleanup_def create_task_def Let_def split: option.split)

lemma disconnect_in_game_calm: "calm_res r (disconnect_in_game e ge r i)"
  by (simp add: disconnect_in_game_def end_turn_calm end_game_calm)

lemma after_disconnect_follows:
  assumes "coded m" and "code r \<in> codes m"
  shows "follows_res (redis_enabled e) m (after_disconnect e ge m r i)"
proof -
  have "follows_res (redis_enabled e) m (res_bind (disconnect_in_game e' ge r2 i) (\<lambda>(r3, outs). Inr (put_room r3 m, listed @ outs)))"
    if "code r2 = code r" "quiet listed" for r2 e' listed
    using disconnect_in_game_calm [of r2 e' ge i] that assms
    by (cases "disconnect_in_game e' ge r2 i") (auto simp: insert_absorb intro!: follows_quiet)
  with delete_room_follows [OF assms(1), of e "code r"] show ?thesis
    by (simp add: after_disconnect_def Let_def)
qed

lemma settle_codes:
  assumes "coded m"
  shows "coded (drop_join_request req rid m)" "codes (drop_join_request req rid m) = codes m"
    "coded (cancel_request_timeout req m)" "codes (cancel_request_timeout req m) = codes m"
  using assms by (auto simp: drop_join_request_def cancel_request_timeout_def Let_def insert_absorb dest: get_room_codes split: option.split)

lemma join_request_follows:
  assumes "coded m"
  shows "follows on m (cancel_pending_join_request e m ident)" "follows on m (handle_join_request_timeout e m rid)"
  using assms
  by (auto simp: cancel_pending_join_request_def handle_join_request_timeout_def Let_def settle_codes intro!: follows_quiet
      split: option.split join_identifier.split)

lemma handle_disconnect_follows:
  assumes "coded m"
  shows "follows_res (redis_enabled e) m (handle_disconnect e ge m i)"
proof -
  obtain m' x where fr: "find_room_by_player m i = (m', x)" by fastforce
  note k = find_room_codes [OF fr assms]
  have step: "follows_res (redis_enabled e) m
      (res_bind (disconnect_from_vote e ge m' r i) (\<lambda>(m1, vote_outs).
         case get_room m1 c of
           None \<Rightarrow> Inr (m1, vote_outs)
         | Some r1 \<Rightarrow> res_bind (after_disconnect e ge m1 r1 i) (\<lambda>(m2, outs). Inr (m2, vote_outs @ outs))))"
    if "code r \<in> codes m" for r c
  proof (cases "disconnect_from_vote e ge m' r i")
    case (Inr y)
    obtain m1 o1 where y: "y = (m1, o1)" by (cases y)
    have f1: "follows (redis_enabled e) m (m1, o1)"
      using disconnect_from_vote_follows [of m' r "redis_enabled e" e ge i] k that Inr y by (auto intro: follows_from [of m'])
    then have c1: "coded m1" by (simp add: follows_def)
    have "follows_res (redis_enabled e) m (res_bind (after_disconnect e ge m1 r1 i) (\<lambda>(m2, outs). Inr (m2, o1 @ outs)))"
      if "get_room m1 c = Some r1" for r1
      using after_disconnect_follows [OF c1, of r1 e ge i] get_room_codes [OF that c1] follows_trans [OF f1]
      by (cases "after_disconnect e ge m1 r1 i") auto
    with Inr y f1 show ?thesis by (simp split: option.split)
  qed simp
  show ?thesis
    using k step join_request_follows(1) [of m' "redis_enabled e" e "ById i"]
    by (auto simp: fr handle_disconnect_def follows_quiet intro: follows_from split: option.split)
qed

lemma reassign_follows:
  assumes "coded m"
  shows "follows (redis_enabled e) m (reassign_host_if_disconnected e m c i)"
  using assms delete_room_follows [OF assms]
  by (auto simp: reassign_host_if_disconnected_def Let_def insert_absorb dest!: get_room_codes intro!: follows_quiet
      split: option.split list.split)

lemma clear_timers_code [simp]: "code (clear_timers i p r) = code r"
  by (simp add: clear_timers_def Let_def)

lemma reconnect_player_follows:
  assumes "coded m" and "code r \<in> codes m"
  shows "follows3 on m (reconnect_player e m r name ws av)"
  using assms by (auto simp: reconnect_player_def Let_def insert_absorb intro!: follows_quiet split: option.split)

lemma enter_room_codes:
  assumes "coded m" and "code r \<in> codes m" and "enter_room p ws r m = (m1, r1)"
  shows "coded m1 \<and> codes m1 = codes m \<and> code r1 = code r"
  using assms by (auto simp: enter_room_def Let_def insert_absorb)

lemma join_room_local_follows:
  assumes "coded m" and "code r \<in> codes m"
  shows "follows3 on m (join_room_local e m r name ws av sp pw)"
proof -
  have "follows3 on m (request_to_join e m r name ws av)"
    using assms by (auto simp: request_to_join_def create_task_def Let_def insert_absorb intro!: follows_quiet split: option.split)
  then show ?thesis
    using assms by (auto simp: join_room_local_def Let_def intro!: follows_quiet dest!: enter_room_codes [OF assms] split: prod.split)
qed

lemma accept_join_request_follows:
  assumes "coded m" and "code r \<in> codes m"
  shows "follows3 on m (accept_join_request e m req rid sp r)"
proof -
  let ?p = "(new_player (uuid e 0) (jr_name req))\<lparr>websocket := Some (jr_websocket req), avatar := jr_avatar req, is_spectator := sp\<rparr>"
  obtain m1 r1 where en: "enter_room ?p (jr_websocket req) r m = (m1, r1)" by fastforce
  note k = enter_room_codes [OF assms en]
  define r2 where "r2 = (if connected_count r1 \<ge> 2 \<and> pending r1 (insufficient_players_task r1)
    then (cancel_if_pending (insufficient_players_task r1) r1)\<lparr>insufficient_players_task := None\<rparr> else r1)"
  have "code r2 = code r" using k by (simp add: r2_def)
  with k assms(2) show ?thesis
    by (simp only: accept_join_request_def Let_def en prod.case r2_def [symmetric] follows3_simps)
       (rule follows_quiet; simp add: insert_absorb)
qed

lemma respond_join_request_follows:
  assumes "coded m"
  shows "follows3 on m (respond_join_request e m h rid act)"
proof -
  have acc: "follows3 on m (accept_join_request e s req rid sp r)"
    if "coded s" "codes s = codes m" "get_room s c = Some r" for s r req c sp
    using accept_join_request_follows [of s r on e req rid sp] get_room_codes [OF that(3,1)] that(1,2)
    by (auto simp: follows3_def intro: follows_from)
  show ?thesis
    using assms
    by (auto simp: respond_join_request_def Let_def settle_codes intro!: follows_quiet acc split: option.split)
qed

lemma drop_role_request_codes:
  assumes "coded m" and "code r \<in> codes m" and "drop_role_request rid r m = (m1, r1)"
  shows "coded m1 \<and> codes m1 = codes m \<and> code r1 = code r"
  using assms by (auto simp: drop_role_request_def Let_def insert_absorb)

lemma spectators_follow:
  assumes "coded m"
  shows "follows3 on m (request_become_player e m i)" "follows on m (expire_role_request e m c rid i)"
    "follows3 on m (respond_spectator_role_request e m h rid act)" "follows3 on m (cancel_spectator_role_request e m i q)"
proof -
  obtain m' x where fr: "find_room_by_player m i = (m', x)" by fastforce
  note k = find_room_codes [OF fr assms]
  show "follows3 on m (request_become_player e m i)"
    using k by (auto simp: fr request_become_player_def create_task_def Let_def insert_absorb intro!: follows_quiet split: option.split)
  have d: "codes m1 = codes m \<and> coded m1 \<and> code r1 = code r"
    if "drop_role_request rid r n = (m1, r1)" "coded n" "codes n = codes m" "code r \<in> codes m" for n r m1 r1 rid
    using drop_role_request_codes [OF that(2) _ that(1)] that(3,4) by simp
  show "follows on m (expire_role_request e m c rid i)"
    using assms by (auto simp: expire_role_request_def Let_def dest!: get_room_codes d intro!: follows_quiet split: option.split prod.split)
  show "follows3 on m (respond_spectator_role_request e m h rid act)"
  proof (cases "map_of (pending_role_requests m) rid")
    case (Some req)
    show ?thesis
    proof (cases "get_room m (sr_room_code req)")
      case (Some r)
      note c = get_room_codes [OF Some assms]
      obtain m1 r1 where dr: "drop_role_request rid (cancel_if_pending (sr_timeout_task req) r) m = (m1, r1)" by fastforce
      with d [OF this assms refl] c have k1: "codes m1 = codes m" "coded m1" "code r1 = code r" by auto
      show ?thesis
        using k1 c assms \<open>map_of (pending_role_requests m) rid = Some req\<close> Some
        by (cases "get_player r1 (sr_player_id req)")
           (simp_all add: respond_spectator_role_request_def Let_def dr insert_absorb follows_quiet)
    qed (use Some assms in \<open>simp add: respond_spectator_role_request_def follows_quiet\<close>)
  qed (use assms in \<open>simp add: respond_spectator_role_request_def follows_quiet\<close>)
  show "follows3 on m (cancel_spectator_role_request e m i q)"
    using k by (auto simp: fr cancel_spectator_role_request_def Let_def dest!: d intro!: follows_quiet split: option.split prod.split)
qed

subsection \<open>Dispatching\<close>

lemma start_game_follows:
  assumes "coded m"
  shows "follows3_res on m (start_game e m i)"
proof -
  obtain m' x where fr: "find_room_by_player m i = (m', x)" by fastforce
  note k = find_room_codes [OF fr assms]
  have "follows on m (put_room r2 m', outs)" if "code r2 = code r" "x = Some r" "quiet outs" for r2 r outs
    using k that by (intro follows_quiet) (simp_all add: insert_absorb)
  then show ?thesis
    using k by (cases x) (auto simp: fr start_game_def Let_def res_bind_def intro!: follows_quiet split: option.split sum.split)
qed

lemma follows_answered: "follows3 on m x \<Longrightarrow> (\<And>msg. quiet (f msg)) \<Longrightarrow> follows on m (answered f x)"
  by (cases x) (auto simp: answered_def intro: follows_trans follows_quiet simp: follows_def quiet_fold)

lemma follows_vote_answered: "follows3_res on m x \<Longrightarrow> (\<And>msg. quiet (f msg)) \<Longrightarrow> follows_res on m (vote_answered f x)"
  by (cases x) (auto simp: vote_answered_def intro: follows_answered)

text \<open>A first part that answers, then a second one.\<close>

lemma follows_then:
  assumes "follows3_res on m x" and "\<And>m1 outs msg. x = Inr (m1, outs, msg) \<Longrightarrow> follows_res on m1 (g m1)"
  shows "follows_res on m (res_bind x (\<lambda>(m1, outs, msg). res_bind (g m1) (\<lambda>(m2, outs2). Inr (m2, outs @ outs2))))"
proof (cases x)
  case (Inr y)
  obtain m1 outs msg where y: "y = (m1, outs, msg)" by (cases y)
  with assms(1) Inr have "follows on m (m1, outs)" by simp
  with follows_trans [OF this] assms(2) [of m1 outs msg] Inr y show ?thesis by (cases "g m1") auto
qed simp

lemma start_game_requests_follow:
  assumes "coded m"
  shows "(\<And>msg. quiet (f msg)) \<Longrightarrow> follows_res on m (start_game_request e f m i)"
    and "follows_res on m (forwarded_start_game e m c i)"
proof -
  note s = start_game_follows [OF assms, of on e i]
  show "follows_res on m (start_game_request e f m i)" if q: "\<And>msg. quiet (f msg)"
  proof (cases "start_game e m i")
    case (Inr y)
    obtain m1 outs msg where y: "y = (m1, outs, msg)" by (cases y)
    have f1: "follows on m (m1, outs)" using s Inr y by simp
    then have "coded m1" by (simp add: follows_def)
    then have "follows_res on m1 (with_room m1 i (start_turn e))" by (rule with_room_follows) (rule start_turn_calm)
    with follows_trans [OF f1] f1 q Inr y show ?thesis
      by (cases "with_room m1 i (start_turn e)") (auto simp: start_game_request_def follows_def quiet_fold)
  qed (simp add: start_game_request_def)
  show "follows_res on m (forwarded_start_game e m c i)"
  proof (cases "start_game e m i")
    case (Inr y)
    obtain m1 outs msg where y: "y = (m1, outs, msg)" by (cases y)
    have f1: "follows on m (m1, outs)" using s Inr y by simp
    then have c1: "coded m1" by (simp add: follows_def)
    have "follows_res on m1 (in_this_room m1 r (start_turn e r))" if "get_room m1 c = Some r" for r
      using get_room_codes [OF that c1] by (intro in_this_room_follows [OF c1 _ start_turn_calm]) simp
    with follows_trans [OF f1] f1 Inr y show ?thesis
      by (auto simp: forwarded_start_game_def follows_res_def res_bind_def split: option.split sum.splits)
  qed (simp add: forwarded_start_game_def)
qed

lemma tell_room_follows: "coded m \<Longrightarrow> follows_res on m (tell_room e m i allowed msg)"
  by (auto simp: tell_room_def intro: with_room_follows)

lemma end_game_request_follows: "coded m \<Longrightarrow> follows_res on m (end_game_request e m ws i)"
  by (auto simp: end_game_request_def dispatch_calm intro: with_room_follows)

text \<open>The facts the dispatchers' cases share.\<close>

lemmas op_follows = follows_answered [OF lobby_follows(1)] follows_answered [OF lobby_follows(2)]
  follows_answered [OF lobby_follows(3)] follows_answered [OF lobby_follows(4)] follows_answered [OF lobby_follows(5)]
  follows_answered [OF lobby_follows(6)] follows_answered [OF respond_join_request_follows]
  follows_answered [OF spectators_follow(1)] follows_answered [OF spectators_follow(3)] follows_answered [OF spectators_follow(4)]
  follows_vote_answered [OF vote_kick_follows(1)] follows_vote_answered [OF vote_kick_follows(2)]
  start_game_requests_follow tell_room_follows end_game_request_follows

lemma with_room_ops_follow:
  assumes "coded m"
  shows "follows_res on m (with_room m i (\<lambda>r. handle_word_selection e r i w))" "follows_res on m (with_room m i (\<lambda>r. handle_guess e r i t))"
    "follows_res on m (with_room m i (\<lambda>r. Inr (chat_in_room e i t r)))" "follows_res on m (with_room m i (\<lambda>r. Inr (react_in_room e i em r)))"
    "follows_res on m (with_room m i (\<lambda>r. Inr (type_in_room e i b r)))"
  by (rule with_room_follows [OF assms], simp add: handle_word_selection_calm handle_guess_calm dispatch_calm)+

lemma local_message_follows:
  assumes "coded m"
  shows "follows_res (redis_enabled e) m (local_message e m ws i msg)"
  using op_follows [OF assms] with_room_ops_follow [OF assms] follows_answered [OF leave_room_follows [OF assms]] assms
  by (cases msg) (simp_all add: local_message_def follows_quiet)

lemma dispatch_message_follows:
  assumes "coded m"
  shows "follows_res (redis_enabled e) m (dispatch_message e m ws i msg)"
  using op_follows [OF assms] with_room_ops_follow [OF assms] follows_answered [OF leave_room_follows [OF assms]]
    handle_disconnect_follows [OF assms] assms
  by (cases msg) (simp_all add: dispatch_message_def follows_quiet)

lemma forwarded_message_follows:
  assumes "coded m"
  shows "follows_res (redis_enabled e) m (handle_forwarded_message e m c i msg)"
proof (cases "get_room m c")
  case (Some r)
  then have r: "code r \<in> codes m" using get_room_codes [OF Some assms] by simp
  have ops: "follows_res on m (in_this_room m r (handle_guess e r i t))" "follows_res on m (in_this_room m r (Inr (chat_in_room e i t r)))"
    "follows_res on m (in_this_room m r (handle_word_selection e r i w))" "follows_res on m (in_this_room m r (Inr (end_game_now e r)))" for on t w
    by (rule in_this_room_follows [OF assms r], simp add: handle_guess_calm handle_word_selection_calm dispatch_calm)+
  show ?thesis
    using Some op_follows [OF assms] ops removals_follow(1) [OF assms] assms
    by (cases msg) (simp_all add: handle_forwarded_message_def follows_quiet split: option.split)
qed (use assms in \<open>simp add: handle_forwarded_message_def follows_quiet\<close>)

subsection \<open>Every step of a worker\<close>

lemma create_room_follows:
  assumes "coded m" and "create_room e m name ws av pw mp = Some res"
  shows "follows3 (redis_enabled e) m res"
proof (cases "worker_draining e \<or> \<not> valid_name name")
  case False
  with assms(2) obtain c where g: "generate_room_code e m 0 = Some c" by (auto simp: create_room_def split: option.splits)
  have "code (add_player h (new_room c i cfg)) = c" for h i cfg by (simp add: new_room_def)
  then show ?thesis
    using assms g False
    by (auto simp: create_room_def Let_def follows_def listens_def owns_def set_room_info_def report_worker_load_def)
qed (use assms in \<open>auto simp: create_room_def follows_quiet split: if_splits\<close>)

lemma rpc_join_follows:
  assumes "coded m"
  shows "follows on m (handle_rpc_join e m q)"
proof -
  have "follows3 on m (rpc_join_room e m q)"
    using assms by (auto simp: rpc_join_room_def Let_def insert_absorb dest!: get_room_codes intro!: follows_quiet split: option.split)
  then show ?thesis
    by (cases "rpc_join_room e m q") (auto simp: handle_rpc_join_def follows_def quiet_fold)
qed

lemma redis_message_follows:
  assumes "coded m" and "handle_redis_message e m d = Inr y"
  shows "follows (redis_enabled e) m y"
proof -
  have "quiet (handle_room_relay m c msg)" for c msg
    by (auto simp: handle_room_relay_def intro!: quiet_concat split: option.split)
  moreover have "follows_res (redis_enabled e) m (handle_remote_disconnect e m c i)" for c i
    using handle_disconnect_follows [OF assms(1)] assms(1) by (auto simp: handle_remote_disconnect_def follows_quiet split: option.split)
  ultimately have "follows_res (redis_enabled e) m (handle_redis_message e m d)"
    using forwarded_message_follows [OF assms(1)] rpc_join_follows [OF assms(1)] assms(1)
    by (cases d; cases "case d of RedisRpc q \<Rightarrow> q | _ \<Rightarrow> RpcPlayerDisconnected [] []")
       (simp_all add: handle_redis_message_def handle_rpc_def follows_quiet)
  with assms(2) show ?thesis by simp
qed

lemma home_join_follows:
  assumes "coded m" and "home_only e a"
  shows "follows3 on m (join_room e m name c ws av sp pw (owners a) (rpc_reply a) (saved a))"
    and "follows3 on m (handle_reconnect e m name c ws av (saved a))"
proof -
  show "follows3 on m (join_room e m name c ws av sp pw (owners a) (rpc_reply a) (saved a))"
    using assms get_room_codes [OF _ assms(1)] join_room_local_follows [OF assms(1)]
    by (auto simp: join_room_def home_join_elsewhere follows_quiet split: option.split)
  show "follows3 on m (handle_reconnect e m name c ws av (saved a))"
    using assms get_room_codes [OF _ assms(1)] reconnect_player_follows [OF assms(1)]
    by (auto simp: handle_reconnect_def home_only_def follows_quiet split: option.split)
qed

lemma ok_coded: "registry_ok m \<Longrightarrow> coded m"
  by (auto simp: registry_ok_def coded_def get_room_def)

lemma ws_game_message_follows:
  assumes "registry_ok m"
  shows "follows (redis_enabled e) m (fst (ws_game_message e a m ws k msg), snd (snd (ws_game_message e a m ws k msg)))"
proof -
  have "follows (redis_enabled e) m (m', outs)" if "handle_local_message e m ws i msg = Inr (m', outs, left)" for i m' outs left
    using that local_message_follows [OF ok_coded [OF assms], of e ws i msg]
    by (auto simp: handle_local_message_def res_bind_Inr_iff)
  then show ?thesis
    using not_proxy [OF assms] ok_coded [OF assms]
    by (auto simp: ws_game_message_def Let_def follows_quiet split: option.split sum.split)
qed

lemma follows_reply: "follows3 on m (m', outs, msg) \<Longrightarrow> quiet q \<Longrightarrow> follows on m (m', outs @ q)"
  by (simp add: follows_def quiet_fold)

lemma ws_receive_follows:
  assumes "registry_ok m" and "home_only e a" and "ws_receive e a m ws k fr = Some (m', k', outs)"
  shows "follows (redis_enabled e) m (m', outs)"
proof (cases fr)
  case (Parsed inp)
  note c = ok_coded [OF assms(1)]
  show ?thesis
  proof (cases inp)
    case (InCreateRoom name av pw mp)
    with assms Parsed create_room_follows [OF c] show ?thesis
      by (auto simp: ws_receive_def ws_input_def intro!: follows_reply split: option.splits)
  next
    case (InJoinRoom name rc av sp pw)
    with assms(3) Parsed home_join_follows(1) [OF c assms(2), of "redis_enabled e" name rc ws av sp pw] show ?thesis
      by (auto simp: ws_receive_def ws_input_def intro!: follows_reply split: prod.splits)
  next
    case (InReconnect name rc av)
    with assms(3) Parsed home_join_follows(2) [OF c assms(2), of "redis_enabled e" name rc ws av] show ?thesis
      by (auto simp: ws_receive_def ws_input_def intro!: follows_reply split: prod.splits)
  next
    case (InCancelJoinRequest q)
    with assms(3) Parsed join_request_follows(1) [OF c, of "redis_enabled e" e "join_ident ws q"] show ?thesis
      by (auto simp: ws_receive_def ws_input_def split: prod.splits)
  next
    case (InGame msg)
    with assms(3) Parsed ws_game_message_follows [OF assms(1), of e a ws k msg] show ?thesis
      by (auto simp: ws_receive_def ws_input_def)
  qed (use assms c Parsed in \<open>simp add: ws_receive_def ws_input_def follows_quiet\<close>)
qed (use assms ok_coded in \<open>auto simp: ws_receive_def follows_quiet\<close>)

lemma ws_close_follows:
  assumes "registry_ok m"
  shows "follows (redis_enabled e) m (ws_close e a m ws k)"
proof -
  have d: "follows (redis_enabled e) m (m', outs)"
    if "handle_disconnect e True (m\<lparr>ws_to_player := f\<rparr>) i = Inr (m', outs)" for f i m' outs
    using handle_disconnect_follows [of "m\<lparr>ws_to_player := f\<rparr>" e True i] ok_coded [OF assms] that
    by (auto intro: follows_from [of "m\<lparr>ws_to_player := f\<rparr>"])
  have np: "\<not> is_proxy_connection (m\<lparr>ws_to_player := f\<rparr>) c" for f c
    using assms by (intro not_proxy) simp
  have q: "follows (redis_enabled e) m (m'\<lparr>ws_to_player := f\<rparr>, outs)" if "follows (redis_enabled e) m (m', outs)" for m' outs f
    using that by (simp add: follows_def)
  show ?thesis
    using np d q ok_coded [OF assms]
      join_request_follows(1) [OF ok_coded [OF assms], of "redis_enabled e" e "BySocket ws"]
    by (cases "conn_player (identify m ws k)")
       (auto simp: ws_close_def Let_def follows_quiet split: sum.split prod.split)
qed

lemma rebind_transport_codes: "rebind_transport m s t msg = (m', s') \<Longrightarrow> codes m' = codes m \<and> coded m' = coded m"
  by (auto simp: rebind_transport_def Let_def split: option.splits if_splits)

lemma identity_reply_follows:
  assumes "follows3 on m res" and "identity_reply s t res = (m', s', outs, msg)"
  shows "follows on m (m', outs)"
  using assms rebind_transport_codes
  by (cases res) (fastforce simp: identity_reply_def follows_def quiet_fold split: prod.splits)

lemma dispatch_input_follows:
  assumes "registry_ok m" and "home_only e a" and "dispatch_input e a m s t i c inp = Some (Inr (m', s', outs, result))"
  shows "follows (redis_enabled e) m (m', outs)"
proof (cases inp)
  case (InCreateRoom name av pw mp)
  with assms(3) identity_reply_follows [OF create_room_follows [OF ok_coded [OF assms(1)]]] show ?thesis
    by (auto simp: dispatch_input_def)
next
  case (InJoinRoom name rc av sp pw)
  with assms(3) identity_reply_follows [OF home_join_follows(1) [OF ok_coded [OF assms(1)] assms(2)]] show ?thesis
    by (auto simp: dispatch_input_def)
next
  case (InReconnect name rc av)
  with assms(3) identity_reply_follows [OF home_join_follows(2) [OF ok_coded [OF assms(1)] assms(2)]] show ?thesis
    by (auto simp: dispatch_input_def)
next
  case (InCancelJoinRequest q)
  with assms(3) join_request_follows(1) [OF ok_coded [OF assms(1)], of "redis_enabled e" e "join_ident t q"] show ?thesis
    by (auto simp: dispatch_input_def split: prod.splits)
next
  case (InGame msg)
  with assms(3) dispatch_message_follows [OF ok_coded [OF assms(1)], of e t i msg] show ?thesis
    by (auto simp: dispatch_input_def res_bind_Inr_iff)
qed (use assms ok_coded in \<open>auto simp: dispatch_input_def follows_quiet\<close>)

lemma grpc_receive_follows:
  assumes "registry_ok m" and "home_only e a" and "grpc_receive e a m s i c inp = Some (m', s', outs)"
  shows "follows (redis_enabled e) m (m', outs)"
proof (cases inp)
  case (Some input)
  obtain m1 s1 t where en: "ensure_transport m s i c = (m1, s1, t)" by (cases "ensure_transport m s i c")
  with ensure_transport_mgr [OF this] assms(1) have ok: "registry_ok m1" "codes m1 = codes m" by auto
  have "follows (redis_enabled e) m (m1, [PutError (send_queue s) c i INTERNAL_ERROR])"
    using ok ok_coded by (simp add: follows_quiet)
  with assms(3) Some en ok dispatch_input_follows [OF ok(1) assms(2)] show ?thesis
    by (auto simp: grpc_receive_def intro: follows_from split: option.splits sum.splits)
qed (use assms ok_coded in \<open>auto simp: grpc_receive_def follows_quiet\<close>)

lemma cleanup_players_follows: "coded m \<Longrightarrow> follows (redis_enabled e) m (cleanup_players e m is)"
proof (induction e m "is" rule: cleanup_players.induct)
  case (2 e m i "is")
  have later: "redis_enabled (later_draws e) = redis_enabled e" by (simp add: later_draws_def)
  show ?case
  proof (cases "handle_disconnect e True m i")
    case (Inr y)
    obtain m1 o1 where y: "y = (m1, o1)" by (cases y)
    have f1: "follows (redis_enabled e) m (m1, o1)" using handle_disconnect_follows [OF 2(3), of e True i] Inr y by simp
    then have "coded m1" by (simp add: follows_def)
    from 2(2) [OF Inr y [symmetric] this] follows_trans [OF f1] Inr y later show ?thesis
      by (cases "cleanup_players (later_draws e) m1 is") simp
  qed (use 2 later in simp)
qed (simp add: follows_quiet)

lemma run_task_follows:
  assumes "coded m" and "run_task e m c t = Some (m', outs)"
  shows "follows (redis_enabled e) m (m', outs)"
proof -
  obtain r where r: "get_room m c = Some r" using assms(2) by (auto simp: run_task_def split: option.splits)
  note rc = get_room_codes [OF r assms(1)]
  have room: "follows_res on m (in_this_room m r x)" if "calm_res r x" for x on
    using rc that by (intro in_this_room_follows [OF assms(1)]) simp_all
  have run: "follows_res (redis_enabled e) m (run_coroutine e m r k)" for k
    by (cases k)
       (simp_all add: run_coroutine_def room auto_select_calm timers_calm end_game_calm removals_follow reassign_follows
        join_request_follows spectators_follow vote_kick_follows assms(1))
  have finish: "codes (finish_task c t n) = codes n \<and> coded (finish_task c t n)" if "coded n" for n
    using that by (auto simp: finish_task_def cancel_task_def insert_absorb dest: get_room_codes split: option.split)
  obtain due k where k: "map_of (loop_tasks r) t = Some (due, k)"
    using assms(2) r by (auto simp: run_task_def split: option.splits)
  show ?thesis
  proof (cases "run_coroutine e m r k")
    case (Inl err)
    with assms r k finish [OF assms(1)] show ?thesis
      by (auto simp: run_task_def intro!: follows_quiet split: if_splits)
  next
    case (Inr y)
    obtain m1 o1 where y: "y = (m1, o1)" by (cases y)
    have f1: "follows (redis_enabled e) m (m1, o1)" using run [of k] Inr y by simp
    then have "coded m1" by (simp add: follows_def)
    with f1 finish [OF this] assms r k Inr y show ?thesis
      by (auto simp: run_task_def follows_def split: if_splits)
  qed
qed

lemma step_in_follows:
  assumes "registry_ok (mgr w)" and "step_in e w ev outs w'"
  shows "follows (redis_enabled e) (mgr w) (mgr w', outs)"
  using assms(2)
proof (cases rule: step_in.cases)
  case (close ws k a m')
  with ws_close_follows [OF assms(1), of e a ws k] show ?thesis by simp
next
  case (stream_close q s m' s')
  with cleanup_players_follows [OF ok_coded [OF assms(1)], of e "map fst (transports s)"] show ?thesis
    by (auto simp: cleanup_stream_def split: prod.splits)
qed (use assms(1) ok_coded in \<open>auto intro: ws_receive_follows grpc_receive_follows run_task_follows redis_message_follows follows_quiet\<close>)

end
