(* ===== verification/Redis_Adapter.thy ===== *)
theory Redis_Adapter
  imports Dispatch
begin

text \<open>
  \<open>backend/redis_pubsub.py\<close>: the registry of rooms and workers in Redis, snapshots, responses to remote
  calls, load reports, and publish/subscribe. Redis itself is a parameter, the record
  \<open>redis_server\<close> of its commands on a state of any type; \<open>redis_laws\<close> is what its documentation
  promises of the commands used. The globals of the module are the record \<open>worker_globals\<close>. A value
  is stored as the text or the object it was encoded from. Errors of a single command are not modelled;
  the errors of the subscriber and its re-subscription are.
\<close>

subsection \<open>Redis\<close>

datatype redis_value =
    RText string
  | RInfo room_state nat config_view string
  | RSnapshot room_snapshot
  | RResponse message
  | RCount nat

datatype redis_cmd =
    CmdSet string redis_value nat \<comment> \<open>key, value, \<open>ex\<close>\<close>
  | CmdDelete string
  | CmdExpire string nat
  | CmdHset string string redis_value
  | CmdHdel string string
  | CmdZadd string string rat
  | CmdZrem string string

record 's redis_server =
  exec :: "redis_cmd \<Rightarrow> 's \<Rightarrow> 's"
  get_key :: "string \<Rightarrow> 's \<Rightarrow> redis_value option"
  hash_get :: "string \<Rightarrow> string \<Rightarrow> 's \<Rightarrow> redis_value option"
  by_score :: "string \<Rightarrow> 's \<Rightarrow> (string \<times> rat) list" \<comment> \<open>\<open>ZRANGE key 0 -1 WITHSCORES\<close>\<close>
  elapse :: "nat \<Rightarrow> 's \<Rightarrow> 's" \<comment> \<open>seconds pass\<close>

text \<open>The key, hash field and sorted set a command concerns.\<close>

definition cmd_key :: "redis_cmd \<Rightarrow> string option" where
  "cmd_key c = (case c of CmdSet k _ _ \<Rightarrow> Some k | CmdDelete k \<Rightarrow> Some k | CmdExpire k _ \<Rightarrow> Some k | _ \<Rightarrow> None)"

definition cmd_field :: "redis_cmd \<Rightarrow> (string \<times> string) option" where
  "cmd_field c = (case c of CmdHset h f _ \<Rightarrow> Some (h, f) | CmdHdel h f \<Rightarrow> Some (h, f) | _ \<Rightarrow> None)"

definition cmd_zset :: "redis_cmd \<Rightarrow> string option" where
  "cmd_zset c = (case c of CmdZadd z _ _ \<Rightarrow> Some z | CmdZrem z _ \<Rightarrow> Some z | _ \<Rightarrow> None)"

definition key_laws :: "'s redis_server \<Rightarrow> bool" where
  "key_laws R \<longleftrightarrow>
     (\<forall>k v n s t. get_key R k (elapse R t (exec R (CmdSet k v n) s)) = (if t < n then Some v else None))
   \<and> (\<forall>k s. get_key R k (exec R (CmdDelete k) s) = None)
   \<and> (\<forall>k n s. 0 < n \<longrightarrow> get_key R k (exec R (CmdExpire k n) s) = get_key R k s)
   \<and> (\<forall>c k s. cmd_key c \<noteq> Some k \<longrightarrow> get_key R k (exec R c s) = get_key R k s)
   \<and> (\<forall>s. elapse R 0 s = s)"

definition hash_laws :: "'s redis_server \<Rightarrow> bool" where
  "hash_laws R \<longleftrightarrow>
     (\<forall>h f v s. hash_get R h f (exec R (CmdHset h f v) s) = Some v)
   \<and> (\<forall>h f s. hash_get R h f (exec R (CmdHdel h f) s) = None)
   \<and> (\<forall>c h f s. cmd_field c \<noteq> Some (h, f) \<longrightarrow> hash_get R h f (exec R c s) = hash_get R h f s)
   \<and> (\<forall>h f t s. hash_get R h f (elapse R t s) = hash_get R h f s)"

definition zset_laws :: "'s redis_server \<Rightarrow> bool" where
  "zset_laws R \<longleftrightarrow>
     (\<forall>z s. sorted (map snd (by_score R z s)) \<and> distinct (map fst (by_score R z s)))
   \<and> (\<forall>z w x s. map_of (by_score R z (exec R (CmdZadd z w x) s)) = (map_of (by_score R z s))(w \<mapsto> x))
   \<and> (\<forall>z w s. map_of (by_score R z (exec R (CmdZrem z w) s)) = (map_of (by_score R z s))(w := None))
   \<and> (\<forall>c z s. cmd_zset c \<noteq> Some z \<longrightarrow> by_score R z (exec R c s) = by_score R z s)"

definition redis_laws :: "'s redis_server \<Rightarrow> bool" where
  "redis_laws R \<longleftrightarrow> key_laws R \<and> hash_laws R \<and> zset_laws R"

subsection \<open>The module\<close>

record worker_globals =
  client_up :: bool \<comment> \<open>\<open>_redis_client is not None\<close>, and then \<open>_pubsub\<close> too\<close>
  worker_id :: string
  is_draining :: bool
  subscriptions :: "string set"

definition decode_text :: "redis_value \<Rightarrow> string" where
  "decode_text v = (case v of RText t \<Rightarrow> t | _ \<Rightarrow> [])"

definition room_channel :: "string \<Rightarrow> string" where
  "room_channel c = ''room:'' @ c"

definition worker_channel :: "string \<Rightarrow> string" where
  "worker_channel w = ''worker:'' @ w"

definition owner_key :: "string \<Rightarrow> string" where
  "owner_key c = ''room_owner:'' @ c"

definition snapshot_key :: "string \<Rightarrow> string" where
  "snapshot_key c = ''room_snapshot:'' @ c"

definition response_key :: "string \<Rightarrow> string" where
  "response_key i = ''rpc_response:'' @ i"

definition alive_key :: "string \<Rightarrow> string" where
  "alive_key w = ''worker_alive:'' @ w"

definition draining_key :: "string \<Rightarrow> string" where
  "draining_key w = ''worker_draining:'' @ w"

definition run_cmds :: "'s redis_server \<Rightarrow> worker_globals \<Rightarrow> redis_cmd list \<Rightarrow> 's \<Rightarrow> 's" where
  "run_cmds R g cs s = (if client_up g then foldl (\<lambda>s c. exec R c s) s cs else s)"

text \<open>\<open>init_redis\<close> with a reachable server; \<open>jitter\<close> is the initial load.\<close>

definition init_redis :: "'s redis_server \<Rightarrow> string \<Rightarrow> rat \<Rightarrow> 's \<Rightarrow> worker_globals \<times> 's" where
  "init_redis R w jitter s =
     (let g = \<lparr>client_up = True, worker_id = w, is_draining = False, subscriptions = {worker_channel w}\<rparr>
      in (g, run_cmds R g [CmdZadd ''worker_load'' w jitter] s))"

definition subscribe_room :: "string \<Rightarrow> worker_globals \<Rightarrow> worker_globals" where
  "subscribe_room c g = (if client_up g then g\<lparr>subscriptions := insert (room_channel c) (subscriptions g)\<rparr> else g)"

definition unsubscribe_room :: "string \<Rightarrow> worker_globals \<Rightarrow> worker_globals" where
  "unsubscribe_room c g = (if client_up g then g\<lparr>subscriptions := subscriptions g - {room_channel c}\<rparr> else g)"

subsection \<open>Rooms and their workers\<close>

definition register_room_worker :: "'s redis_server \<Rightarrow> worker_globals \<Rightarrow> string \<Rightarrow> 's \<Rightarrow> 's" where
  "register_room_worker R g c =
     run_cmds R g [CmdHset ''room_workers'' c (RText (worker_id g)), CmdSet (owner_key c) (RText (worker_id g)) 3600]"

definition get_room_worker :: "'s redis_server \<Rightarrow> worker_globals \<Rightarrow> string \<Rightarrow> 's \<Rightarrow> string option" where
  "get_room_worker R g c s = (if client_up g then map_option decode_text (hash_get R ''room_workers'' c s) else None)"

definition remove_room_worker :: "'s redis_server \<Rightarrow> worker_globals \<Rightarrow> string \<Rightarrow> 's \<Rightarrow> 's" where
  "remove_room_worker R g c = run_cmds R g [CmdHdel ''room_workers'' c, CmdDelete (owner_key c)]"

definition get_room_info :: "'s redis_server \<Rightarrow> worker_globals \<Rightarrow> string \<Rightarrow> 's \<Rightarrow> redis_value option" where
  "get_room_info R g c s = (if client_up g then hash_get R ''room_info'' c s else None)"

definition redis_set_room_info :: "'s redis_server \<Rightarrow> worker_globals \<Rightarrow> string \<Rightarrow> redis_value \<Rightarrow> 's \<Rightarrow> 's" where
  "redis_set_room_info R g c info = run_cmds R g [CmdHset ''room_info'' c info]"

definition remove_room_info :: "'s redis_server \<Rightarrow> worker_globals \<Rightarrow> string \<Rightarrow> 's \<Rightarrow> 's" where
  "remove_room_info R g c = run_cmds R g [CmdHdel ''room_info'' c]"

definition register_room_with_ttl :: "'s redis_server \<Rightarrow> worker_globals \<Rightarrow> string \<Rightarrow> nat \<Rightarrow> 's \<Rightarrow> 's" where
  "register_room_with_ttl R g c ttl =
     run_cmds R g [CmdSet (owner_key c) (RText (worker_id g)) ttl, CmdHset ''room_workers'' c (RText (worker_id g))]"

definition refresh_room_ttl :: "'s redis_server \<Rightarrow> worker_globals \<Rightarrow> string \<Rightarrow> nat \<Rightarrow> 's \<Rightarrow> 's" where
  "refresh_room_ttl R g c ttl = run_cmds R g [CmdExpire (owner_key c) ttl]"

definition get_room_worker_with_ttl :: "'s redis_server \<Rightarrow> worker_globals \<Rightarrow> string \<Rightarrow> 's \<Rightarrow> string option" where
  "get_room_worker_with_ttl R g c s =
     (if \<not> client_up g then None
      else case get_key R (owner_key c) s of
             Some owner \<Rightarrow> Some (decode_text owner)
           | None \<Rightarrow> map_option decode_text (hash_get R ''room_workers'' c s))"

definition unregister_room_with_ttl :: "'s redis_server \<Rightarrow> worker_globals \<Rightarrow> string \<Rightarrow> 's \<Rightarrow> 's" where
  "unregister_room_with_ttl R g c = run_cmds R g [CmdDelete (owner_key c), CmdHdel ''room_workers'' c]"

subsection \<open>Snapshots and responses\<close>

definition save_room_snapshot :: "'s redis_server \<Rightarrow> worker_globals \<Rightarrow> string \<Rightarrow> room_snapshot \<Rightarrow> nat \<Rightarrow> 's \<Rightarrow> 's" where
  "save_room_snapshot R g c sn ttl =
     run_cmds R g [CmdSet (snapshot_key c) (RSnapshot sn) ttl, CmdDelete (owner_key c), CmdHdel ''room_workers'' c]"

definition get_room_snapshot :: "'s redis_server \<Rightarrow> worker_globals \<Rightarrow> string \<Rightarrow> 's \<Rightarrow> room_snapshot option" where
  "get_room_snapshot R g c s =
     (if \<not> client_up g then None
      else case get_key R (snapshot_key c) s of Some (RSnapshot sn) \<Rightarrow> Some sn | _ \<Rightarrow> None)"

definition delete_room_snapshot :: "'s redis_server \<Rightarrow> worker_globals \<Rightarrow> string \<Rightarrow> 's \<Rightarrow> 's" where
  "delete_room_snapshot R g c = run_cmds R g [CmdDelete (snapshot_key c)]"

definition set_rpc_response :: "'s redis_server \<Rightarrow> worker_globals \<Rightarrow> string \<Rightarrow> message \<Rightarrow> 's \<Rightarrow> 's" where
  "set_rpc_response R g i msg = run_cmds R g [CmdSet (response_key i) (RResponse msg) 10]"

text \<open>The polling loop: the time and the state of Redis at each poll, up to the one that ends it.\<close>

fun wait_for_rpc_response ::
  "'s redis_server \<Rightarrow> worker_globals \<Rightarrow> string \<Rightarrow> rat \<Rightarrow> (rat \<times> 's) list \<Rightarrow> (message \<times> 's) option" where
  "wait_for_rpc_response R g i deadline [] = None"
| "wait_for_rpc_response R g i deadline ((t, s) # polls) =
     (if \<not> client_up g \<or> \<not> t < deadline then None
      else case get_key R (response_key i) s of
             Some (RResponse msg) \<Rightarrow> Some (msg, exec R (CmdDelete (response_key i)) s)
           | _ \<Rightarrow> wait_for_rpc_response R g i deadline polls)"

subsection \<open>Load and addresses\<close>

text \<open>\<open>jitter\<close> is \<open>random.uniform(0, 0.99)\<close>.\<close>

definition redis_report_load ::
  "'s redis_server \<Rightarrow> worker_globals \<Rightarrow> string \<Rightarrow> rat \<Rightarrow> nat \<Rightarrow> nat \<Rightarrow> 's \<Rightarrow> 's" where
  "redis_report_load R g hostname jitter room_count connection_count =
     run_cmds R g
       [CmdZadd ''worker_load'' (worker_id g) (of_nat connection_count + jitter),
        CmdHset ''worker_rooms'' (worker_id g) (RCount room_count),
        CmdExpire ''worker_load'' 120,
        CmdHset ''worker_addresses'' (worker_id g) (RText (hostname @ '':8000'')),
        CmdSet (alive_key (worker_id g)) (RText ''1'') 30]"

definition get_least_loaded_worker :: "'s redis_server \<Rightarrow> worker_globals \<Rightarrow> 's \<Rightarrow> string option" where
  "get_least_loaded_worker R g s =
     (if \<not> client_up g then None
      else case by_score R ''worker_load'' s of [] \<Rightarrow> None | (w, x) # _ \<Rightarrow> Some w)"

definition get_all_worker_loads :: "'s redis_server \<Rightarrow> worker_globals \<Rightarrow> 's \<Rightarrow> (string \<times> int) list" where
  "get_all_worker_loads R g s =
     (if \<not> client_up g then [] else map (\<lambda>(w, x). (w, py_trunc x)) (by_score R ''worker_load'' s))"

definition register_worker_address :: "'s redis_server \<Rightarrow> worker_globals \<Rightarrow> string \<Rightarrow> string \<Rightarrow> 's \<Rightarrow> 's" where
  "register_worker_address R g hostname port =
     run_cmds R g [CmdHset ''worker_addresses'' (worker_id g) (RText (hostname @ '':'' @ port)),
                   CmdSet (alive_key (worker_id g)) (RText ''1'') 30]"

definition unregister_worker_address :: "'s redis_server \<Rightarrow> worker_globals \<Rightarrow> 's \<Rightarrow> 's" where
  "unregister_worker_address R g =
     run_cmds R g [CmdHdel ''worker_addresses'' (worker_id g), CmdDelete (alive_key (worker_id g))]"

definition set_worker_draining :: "'s redis_server \<Rightarrow> worker_globals \<Rightarrow> 's \<Rightarrow> worker_globals \<times> 's" where
  "set_worker_draining R g s =
     (let g' = g\<lparr>is_draining := True\<rparr>
      in (g', run_cmds R g' [CmdZrem ''worker_load'' (worker_id g'), CmdSet (draining_key (worker_id g')) (RText ''1'') 60]
                (unregister_worker_address R g' s)))"

definition shutdown_redis :: "'s redis_server \<Rightarrow> worker_globals \<Rightarrow> 's \<Rightarrow> worker_globals \<times> 's" where
  "shutdown_redis R g s =
     (g\<lparr>client_up := False, subscriptions := {}\<rparr>,
      run_cmds R g [CmdZrem ''worker_load'' (worker_id g)] (unregister_worker_address R g s))"

subsection \<open>Publish and subscribe\<close>

datatype envelope_body = BodyRpc rpc | BodyMessage message

record envelope =
  source_worker :: string
  body :: envelope_body

definition publish_to_room :: "worker_globals \<Rightarrow> string \<Rightarrow> message \<Rightarrow> (string \<times> envelope) list" where
  "publish_to_room g c msg =
     (if client_up g then [(room_channel c, \<lparr>source_worker = worker_id g, body = BodyMessage msg\<rparr>)] else [])"

definition publish_rpc_request :: "worker_globals \<Rightarrow> string \<Rightarrow> rpc \<Rightarrow> (string \<times> envelope) list" where
  "publish_rpc_request g w q =
     (if client_up g then [(worker_channel w, \<lparr>source_worker = worker_id g, body = BodyRpc q\<rparr>)] else [])"

definition forward_to_room_owner ::
  "'s redis_server \<Rightarrow> worker_globals \<Rightarrow> string \<Rightarrow> string \<Rightarrow> client_msg \<Rightarrow> 's \<Rightarrow> (string \<times> envelope) list" where
  "forward_to_room_owner R g c i msg s =
     (case get_room_worker R g c s of None \<Rightarrow> [] | Some w \<Rightarrow> publish_rpc_request g w (RpcForwardMessage c i msg))"

text \<open>\<open>channel.replace("room:", "", 1)\<close>\<close>

fun channel_room :: "string \<Rightarrow> string" where
  "channel_room [] = []"
| "channel_room (x # xs) = (if take 5 (x # xs) = ''room:'' then drop 5 (x # xs) else x # channel_room xs)"

text \<open>
  One message of a channel the worker subscribes to: what the subscriber passes to
  \<open>handle_redis_message\<close>, if anything. A worker ignores its own messages.
\<close>

definition subscriber_receives :: "worker_globals \<Rightarrow> string \<times> envelope \<Rightarrow> redis_data option" where
  "subscriber_receives g ce =
     (case ce of (channel, m) \<Rightarrow>
        if \<not> client_up g \<or> channel \<notin> subscriptions g \<or> source_worker m = worker_id g then None
        else Some (case body m of BodyRpc q \<Rightarrow> RedisRpc q | BodyMessage msg \<Rightarrow> RedisRoom (channel_room channel) (Some msg)))"

text \<open>
  After an error the subscriber closes its connection, opens a new one and, if it can, subscribes to the
  worker's channel and those of all rooms of the room manager.
\<close>

definition resubscribe :: "manager \<Rightarrow> bool \<Rightarrow> worker_globals \<Rightarrow> worker_globals" where
  "resubscribe m ok g =
     (if client_up g
      then g\<lparr>subscriptions := (if ok then set (worker_channel (worker_id g) # map (\<lambda>(c, r). room_channel c) (rooms m)) else {})\<rparr>
      else g)"

datatype poll = Polled "string \<times> envelope" | Nothing_Polled | Poll_Failed

text \<open>
  One iteration of \<open>_subscribe_loop\<close>: the globals, the manager and the outputs of the handler, and whether
  a re-subscription was tried and succeeded.
\<close>

definition subscribe_loop_step ::
  "env \<Rightarrow> manager \<Rightarrow> poll \<Rightarrow> bool \<Rightarrow> worker_globals \<Rightarrow> worker_globals \<times> manager \<times> out list \<times> bool option" where
  "subscribe_loop_step e m p ok g =
     (case p of
        Nothing_Polled \<Rightarrow> (g, m, [], None)
      | Poll_Failed \<Rightarrow> (resubscribe m ok g, m, [], Some ok)
      | Polled ce \<Rightarrow>
          (case subscriber_receives g ce of
             None \<Rightarrow> (g, m, [], None)
           | Some d \<Rightarrow>
               (case handle_redis_message e m d of
                  Inl _ \<Rightarrow> (resubscribe m ok g, m, [], Some ok)
                | Inr (m', outs) \<Rightarrow> (g, m', outs, None))))"

subsection \<open>Carrying out a handler's outputs\<close>

text \<open>\<open>jitter\<close> and \<open>host\<close> are for the load report.\<close>

definition perform :: "'s redis_server \<Rightarrow> string \<Rightarrow> rat \<Rightarrow> out \<Rightarrow> worker_globals \<times> 's \<Rightarrow> worker_globals \<times> 's" where
  "perform R host jitter o' gs =
     (case gs of (g, s) \<Rightarrow>
        case o' of
          SetRoomInfo c st n cfg h \<Rightarrow> (g, redis_set_room_info R g c (RInfo st n cfg h) s)
        | RegisterRoomWithTtl c \<Rightarrow> (g, register_room_with_ttl R g c 3600 s)
        | RegisterRoomWorker c \<Rightarrow> (g, register_room_worker R g c s)
        | UnregisterRoomWithTtl c \<Rightarrow> (g, unregister_room_with_ttl R g c s)
        | RemoveRoomWorker c \<Rightarrow> (g, remove_room_worker R g c s)
        | RemoveRoomInfo c \<Rightarrow> (g, remove_room_info R g c s)
        | ReportWorkerLoad n k \<Rightarrow> (g, redis_report_load R g host jitter n k s)
        | SaveRoomSnapshot c sn \<Rightarrow> (g, save_room_snapshot R g c sn 600 s)
        | DeleteRoomSnapshot c \<Rightarrow> (g, delete_room_snapshot R g c s)
        | SetRpcResponse i msg \<Rightarrow> (g, set_rpc_response R g i msg s)
        | SubscribeRoom c \<Rightarrow> (subscribe_room c g, s)
        | UnsubscribeRoom c \<Rightarrow> (unsubscribe_room c g, s)
        | _ \<Rightarrow> (g, s))"

definition perform_all :: "'s redis_server \<Rightarrow> string \<Rightarrow> rat \<Rightarrow> out list \<Rightarrow> worker_globals \<times> 's \<Rightarrow> worker_globals \<times> 's" where
  "perform_all R host jitter outs gs = foldl (\<lambda>gs o'. perform R host jitter o' gs) gs outs"

definition published :: "worker_globals \<Rightarrow> out \<Rightarrow> (string \<times> envelope) list" where
  "published g o' =
     (case o' of PublishToRoom c msg \<Rightarrow> publish_to_room g c msg | PublishRpc w q \<Rightarrow> publish_rpc_request g w q | _ \<Rightarrow> [])"

end
