(* ===== verification/Snapshots.thy ===== *)
theory Snapshots
  imports Server
begin

text \<open>
  What a snapshot keeps of a room and what restoring it brings back, and what draining a worker
  sends and saves.
\<close>

subsection \<open>Round trip\<close>

text \<open>A snapshot as it is after a round trip: everybody is disconnected and the clocks are new.\<close>

definition disconnected_snapshot :: "env \<Rightarrow> player_snapshot \<Rightarrow> player_snapshot" where
  "disconnected_snapshot e p =
     p\<lparr>ps_is_connected := False,
       ps_disconnect_time := Some (case ps_disconnect_time p of None \<Rightarrow> now e | Some t \<Rightarrow> if t = 0 then now e else t)\<rparr>"

lemma snapshot_restored_player: "player_snapshot_of (restore_player e p) = disconnected_snapshot e p"
  by (cases p) (simp add: player_snapshot_of_def restore_player_def disconnected_snapshot_def new_player_def split: option.split)

lemma snapshot_restored_turn: "turn_snapshot_of (restore_turn e oid t) = t\<lparr>ts_start_time := now e\<rparr>"
  by (cases t) (simp add: turn_snapshot_of_def restore_turn_def)

text \<open>
  C17 (roundtrip). Saving a room, restoring it and saving it again gives the first snapshot back, but
  that every player is disconnected (since the restart if it was connected), and that the turn's
  start and the time of the snapshot are those of the restart: code, host, state, round, drawer,
  settings, password, used words, scores, the word, its hint and the guesses survive.
\<close>

theorem snapshot_roundtrip:
  assumes "turn r = None \<or> in_game r"
  shows "snapshot_room e2 (restored_room e1 (snapshot_room e r)) =
    (snapshot_room e r)
      \<lparr>sn_players := map (disconnected_snapshot e1) (sn_players (snapshot_room e r)),
       sn_turn := map_option (\<lambda>t. t\<lparr>ts_start_time := now e1\<rparr>) (sn_turn (snapshot_room e r)), sn_time := now e2\<rparr>"
  using assms
  by (auto simp: snapshot_room_def restored_room_def Let_def new_room_def serialize_config_def truthy_def in_game_def
      snapshot_restored_player snapshot_restored_turn option.map_comp comp_def split: option.splits)

theorem snapshot_roundtrip_witness:
  "sn_word_pool (snapshot_room lone_env (restored_room lone_env (snapshot_room lone_env lone_room))) = []"
  using snapshot_roundtrip [of lone_room lone_env lone_env lone_env]
  by (simp add: lone_room_def add_player_def new_room_def snapshot_room_def)

text \<open>
  A restored room takes every player of the snapshot, spectators included, for an
  active player, and it has no scheduled task at all: a restored turn has no timer, so it never ends
  by itself.
\<close>

theorem restored_room_loses_roles_and_timers:
  "active_count (restored_room e1 (snapshot_room e r)) = length (players r)
   \<and> spectator_count (restored_room e1 (snapshot_room e r)) = 0
   \<and> loop_tasks (restored_room e1 (snapshot_room e r)) = []
   \<and> (case turn (restored_room e1 (snapshot_room e r)) of None \<Rightarrow> True | Some ts \<Rightarrow> timer_task ts = None)"
proof -
  have a: "filter is_active (map (restore_player e1) ps) = map (restore_player e1) ps"
    and s: "filter is_spectator (map (restore_player e1) ps) = []" for ps
    by (induction ps) (simp_all add: restore_player_def new_player_def is_active_def)
  have p: "players (restored_room e1 (snapshot_room e r)) = map (restore_player e1) (map player_snapshot_of (players r))"
    by (simp add: restored_room_def snapshot_room_def Let_def)
  have "active_count (restored_room e1 (snapshot_room e r)) = length (players r)"
    unfolding active_count_def p a by simp
  moreover have "spectator_count (restored_room e1 (snapshot_room e r)) = 0"
    unfolding spectator_count_def p s by simp
  moreover have "loop_tasks (restored_room e1 (snapshot_room e r)) = []"
    "case turn (restored_room e1 (snapshot_room e r)) of None \<Rightarrow> True | Some ts \<Rightarrow> timer_task ts = None"
    by (cases "turn r"; simp add: restored_room_def snapshot_room_def Let_def new_room_def restore_turn_def)+
  ultimately show ?thesis by blast
qed

subsection \<open>Draining\<close>

definition saves :: "out \<Rightarrow> (string \<times> room_snapshot) list" where
  "saves o' = (case o' of SaveRoomSnapshot c s \<Rightarrow> [(c, s)] | _ \<Rightarrow> [])"

lemma broadcast_saves_nothing: "concat (map saves (broadcast_room e r msg)) = []"
  by (auto simp: broadcast_room_def saves_def Let_def concat_eq_Nil_conv split: option.splits websocket.splits)

text \<open>
  Draining a worker saves exactly one snapshot of each room it owns, under the
  room's code and in the order of the registry, saves none of its proxy rooms, and returns their
  number.
\<close>

theorem drain_saves_every_room:
  "concat (map saves (fst (drain_active_rooms e m))) =
     map (\<lambda>r. (code r, snapshot_room e r)) (filter (\<lambda>r. \<not> is_proxy r) (map snd (rooms m)))
   \<and> snd (drain_active_rooms e m) = length (filter (\<lambda>r. \<not> is_proxy r) (map snd (rooms m)))"
proof -
  have b: "concat (map saves (room_broadcast e m c msg)) = []" for c msg
    using broadcast_saves_nothing [of e _ msg] by (cases "get_room m c") (simp_all add: room_broadcast_def del: concat_eq_Nil_conv)
  have local: "map snd (filter (\<lambda>(c, r). \<not> is_proxy r) xs) = filter (\<lambda>r. \<not> is_proxy r) (map snd xs)" for xs :: "(string \<times> room) list"
    by (induction xs) auto
  have "concat (map saves (concat (map (\<lambda>r. room_broadcast e m (code r) (WorkerDraining (code r)) @ [SaveRoomSnapshot (code r) (snapshot_room e r)]) rs)))
      = map (\<lambda>r. (code r, snapshot_room e r)) rs" for rs
    by (induction rs) (simp_all add: b, simp_all add: saves_def)
  then show ?thesis by (simp add: drain_active_rooms_def Let_def local)
qed

end
