(* ===== verification/Redis_Facts.thy ===== *)
theory Redis_Facts
  imports Redis_Adapter Registry_Facts Snapshots
begin

text \<open>
  What the registry in Redis gives the workers: who owns a room, responses to remote calls, the least
  loaded worker, and rooms that move from a draining worker to another one. The theorems hold for every
  server with \<open>redis_laws\<close>; \<open>reference_redis\<close> is one.
\<close>

subsection \<open>The laws as equations\<close>

lemma key_equations:
  assumes "redis_laws R"
  shows "get_key R k (exec R (CmdSet k' v n) s) = (if k = k' then if 0 < n then Some v else None else get_key R k s)"
    "get_key R k (exec R (CmdDelete k') s) = (if k = k' then None else get_key R k s)"
    "0 < n \<Longrightarrow> get_key R k (exec R (CmdExpire k' n) s) = get_key R k s"
    "get_key R k (exec R (CmdHset h f v) s) = get_key R k s" "get_key R k (exec R (CmdHdel h f) s) = get_key R k s"
    "get_key R k (exec R (CmdZadd z w x) s) = get_key R k s" "get_key R k (exec R (CmdZrem z w) s) = get_key R k s"
    "get_key R k (elapse R t (exec R (CmdSet k v n) s)) = (if t < n then Some v else None)"
proof -
  have L: "key_laws R" using assms by (simp add: redis_laws_def)
  have frame: "cmd_key c \<noteq> Some k \<Longrightarrow> get_key R k (exec R c s) = get_key R k s" for c s using L by (simp add: key_laws_def)
  have set: "get_key R k (elapse R t (exec R (CmdSet k v n) s)) = (if t < n then Some v else None)" for v n s t
    using L by (simp add: key_laws_def)
  have zero: "elapse R 0 s = s" for s using L by (simp add: key_laws_def)
  show "get_key R k (elapse R t (exec R (CmdSet k v n) s)) = (if t < n then Some v else None)" by (rule set)
  show "get_key R k (exec R (CmdSet k' v n) s) = (if k = k' then if 0 < n then Some v else None else get_key R k s)"
    using set [of 0 v n s] frame [of "CmdSet k' v n" s] by (cases "k = k'") (simp_all add: zero cmd_key_def)
  show "get_key R k (exec R (CmdDelete k') s) = (if k = k' then None else get_key R k s)"
    using L frame [of "CmdDelete k'" s] by (simp add: key_laws_def cmd_key_def)
  show "0 < n \<Longrightarrow> get_key R k (exec R (CmdExpire k' n) s) = get_key R k s"
    using L frame [of "CmdExpire k' n" s] by (cases "k' = k") (simp_all add: key_laws_def cmd_key_def)
qed (use assms in \<open>simp_all add: redis_laws_def key_laws_def cmd_key_def\<close>)

lemma hash_equations:
  assumes "redis_laws R"
  shows "hash_get R h f (exec R (CmdHset h' f' v) s) = (if h = h' \<and> f = f' then Some v else hash_get R h f s)"
    "hash_get R h f (exec R (CmdHdel h' f') s) = (if h = h' \<and> f = f' then None else hash_get R h f s)"
    "hash_get R h f (exec R (CmdSet k v n) s) = hash_get R h f s" "hash_get R h f (exec R (CmdDelete k) s) = hash_get R h f s"
    "hash_get R h f (exec R (CmdExpire k n) s) = hash_get R h f s" "hash_get R h f (exec R (CmdZadd z w x) s) = hash_get R h f s"
    "hash_get R h f (exec R (CmdZrem z w) s) = hash_get R h f s" "hash_get R h f (elapse R t s) = hash_get R h f s"
proof -
  have L: "hash_laws R" using assms by (simp add: redis_laws_def)
  have frame: "cmd_field c \<noteq> Some (h, f) \<Longrightarrow> hash_get R h f (exec R c s) = hash_get R h f s" for c
    using L by (simp add: hash_laws_def)
  show "hash_get R h f (exec R (CmdHset h' f' v) s) = (if h = h' \<and> f = f' then Some v else hash_get R h f s)"
    using L frame [of "CmdHset h' f' v"] by (cases "h = h' \<and> f = f'") (auto simp: hash_laws_def cmd_field_def)
  show "hash_get R h f (exec R (CmdHdel h' f') s) = (if h = h' \<and> f = f' then None else hash_get R h f s)"
    using L frame [of "CmdHdel h' f'"] by (cases "h = h' \<and> f = f'") (auto simp: hash_laws_def cmd_field_def)
qed (use assms in \<open>simp_all add: redis_laws_def hash_laws_def cmd_field_def\<close>)

lemma key_names [simp]:
  "owner_key c = owner_key d \<longleftrightarrow> c = d" "snapshot_key c = snapshot_key d \<longleftrightarrow> c = d" "response_key c = response_key d \<longleftrightarrow> c = d"
  "owner_key c \<noteq> snapshot_key d" "snapshot_key d \<noteq> owner_key c" "owner_key c \<noteq> response_key d" "response_key d \<noteq> owner_key c"
  "snapshot_key c \<noteq> response_key d" "response_key d \<noteq> snapshot_key c" "alive_key w \<noteq> owner_key c" "owner_key c \<noteq> alive_key w"
  "alive_key w \<noteq> snapshot_key c" "snapshot_key c \<noteq> alive_key w" "alive_key w \<noteq> response_key c" "response_key c \<noteq> alive_key w"
  by (simp_all add: owner_key_def snapshot_key_def response_key_def alive_key_def)

subsection \<open>Who owns a room\<close>

text \<open>
  C31 (functional). The registry of rooms: after a worker registers a room, every worker finds it as the
  owner, by either lookup, and the owners of all other rooms are as before; after the room is
  unregistered nobody owns it. But a worker that dies without unregistering stays the owner for ever:
  when the key with the time to live is gone, the lookup falls back to the hash, which never expires.
\<close>

theorem room_ownership:
  assumes "redis_laws R" and "client_up a" and "client_up b" and "0 < ttl"
  shows "get_room_worker_with_ttl R b c (register_room_with_ttl R a c ttl s) = Some (worker_id a)
    \<and> get_room_worker R b c (register_room_with_ttl R a c ttl s) = Some (worker_id a)
    \<and> (\<forall>d. d = c \<or> get_room_worker_with_ttl R b d (register_room_with_ttl R a c ttl s) = get_room_worker_with_ttl R b d s)
    \<and> get_room_worker_with_ttl R b c (unregister_room_with_ttl R a c s) = None
    \<and> get_room_worker R b c (unregister_room_with_ttl R a c s) = None
    \<and> get_room_worker_with_ttl R b c (elapse R t (register_room_worker R a c s)) = Some (worker_id a)"
  using assms(2-4)
  by (simp add: get_room_worker_with_ttl_def get_room_worker_def register_room_with_ttl_def unregister_room_with_ttl_def
      register_room_worker_def run_cmds_def decode_text_def key_equations [OF assms(1)] hash_equations [OF assms(1)]
      split: option.split)

subsection \<open>A server with the laws\<close>

record reference_state =
  st_keys :: "string \<rightharpoonup> redis_value \<times> nat"
  st_hashes :: "string \<times> string \<rightharpoonup> redis_value"
  st_zsets :: "string \<Rightarrow> (string \<times> rat) list"

definition reference_exec :: "redis_cmd \<Rightarrow> reference_state \<Rightarrow> reference_state" where
  "reference_exec c s =
     (case c of
        CmdSet k v n \<Rightarrow> s\<lparr>st_keys := (st_keys s)(k \<mapsto> (v, n))\<rparr>
      | CmdDelete k \<Rightarrow> s\<lparr>st_keys := (st_keys s)(k := None)\<rparr>
      | CmdExpire k n \<Rightarrow> s\<lparr>st_keys := (st_keys s)(k := map_option (\<lambda>(v, m). (v, if 0 < m then n else 0)) (st_keys s k))\<rparr>
      | CmdHset h f v \<Rightarrow> s\<lparr>st_hashes := (st_hashes s)((h, f) \<mapsto> v)\<rparr>
      | CmdHdel h f \<Rightarrow> s\<lparr>st_hashes := (st_hashes s)((h, f) := None)\<rparr>
      | CmdZadd z w x \<Rightarrow> s\<lparr>st_zsets := (st_zsets s)(z := AList.update w x (st_zsets s z))\<rparr>
      | CmdZrem z w \<Rightarrow> s\<lparr>st_zsets := (st_zsets s)(z := AList.delete w (st_zsets s z))\<rparr>)"

definition reference_redis :: "reference_state redis_server" where
  "reference_redis =
     \<lparr>exec = reference_exec,
      get_key = (\<lambda>k s. case st_keys s k of Some (v, n) \<Rightarrow> if 0 < n then Some v else None | None \<Rightarrow> None),
      hash_get = (\<lambda>h f s. st_hashes s (h, f)),
      by_score = (\<lambda>z s. sort_key snd (AList.clearjunk (st_zsets s z))),
      elapse = (\<lambda>t s. s\<lparr>st_keys := (\<lambda>k. map_option (\<lambda>(v, n). (v, n - t)) (st_keys s k))\<rparr>)\<rparr>"

definition no_store :: reference_state where
  "no_store = \<lparr>st_keys = Map.empty, st_hashes = Map.empty, st_zsets = (\<lambda>_. [])\<rparr>"

lemma distinct_sort_clearjunk: "distinct (map fst (sort_key snd (AList.clearjunk (xs :: (string \<times> rat) list))))"
proof -
  have "distinct (map fst (AList.clearjunk xs))" by (rule distinct_clearjunk)
  then show ?thesis unfolding distinct_map by simp
qed

lemma map_of_sort_clearjunk:
  fixes xs :: "(string \<times> rat) list"
  shows "map_of (sort_key snd (AList.clearjunk xs)) = map_of xs"
proof -
  note d = distinct_sort_clearjunk [of xs]
  have "map_of (sort_key snd (AList.clearjunk xs)) k = Some v \<longleftrightarrow> map_of (AList.clearjunk xs) k = Some v" for k v
    using d by (simp add: map_of_eq_Some_iff distinct_clearjunk)
  then have "map_of (sort_key snd (AList.clearjunk xs)) k = map_of (AList.clearjunk xs) k" for k
    by (metis not_None_eq)
  then show ?thesis by (simp add: fun_eq_iff map_of_clearjunk)
qed

lemma reference_redis_laws: "redis_laws reference_redis"
proof -
  have "key_laws reference_redis"
    by (auto simp: key_laws_def reference_redis_def reference_exec_def cmd_key_def option.map_id case_prod_beta
        split: redis_cmd.splits option.splits)
  moreover have "hash_laws reference_redis"
    by (auto simp: hash_laws_def reference_redis_def reference_exec_def cmd_field_def split: redis_cmd.splits)
  moreover have "zset_laws reference_redis"
    by (auto simp: zset_laws_def reference_redis_def reference_exec_def cmd_zset_def map_of_sort_clearjunk distinct_sort_clearjunk
        update_conv' delete_conv' split: redis_cmd.splits)
  ultimately show ?thesis by (simp add: redis_laws_def)
qed

theorem room_ownership_witness:
  "get_room_worker_with_ttl reference_redis (\<lparr>client_up = True, worker_id = ''B'', is_draining = False, subscriptions = {}\<rparr>) ''R''
     (elapse reference_redis 4000 (register_room_worker reference_redis
       \<lparr>client_up = True, worker_id = ''A'', is_draining = False, subscriptions = {}\<rparr> ''R'' no_store)) = Some ''A''"
  using room_ownership [OF reference_redis_laws, of "\<lparr>client_up = True, worker_id = ''A'', is_draining = False, subscriptions = {}\<rparr>"
      "\<lparr>client_up = True, worker_id = ''B'', is_draining = False, subscriptions = {}\<rparr>" 1 "''R''" no_store 4000]
  by simp

subsection \<open>Load\<close>

lemma py_trunc_mono: "x \<le> y \<Longrightarrow> py_trunc x \<le> py_trunc y"
  by (auto simp: py_trunc_def) (meson ceiling_le_iff floor_mono ceiling_mono linorder_not_less order_trans zero_le_floor ceiling_less_zero
      less_imp_le le_less_linear ceiling_le_zero)+

lemma zset_equations:
  assumes "redis_laws R"
  shows "map_of (by_score R z (exec R (CmdZadd z w x) s)) = (map_of (by_score R z s))(w \<mapsto> x)"
    "by_score R z (exec R (CmdSet k v n) s) = by_score R z s" "by_score R z (exec R (CmdExpire k n) s) = by_score R z s"
    "by_score R z (exec R (CmdHset h f v) s) = by_score R z s" "sorted (map snd (by_score R z s))"
  using assms by (simp_all add: redis_laws_def zset_laws_def cmd_zset_def)

lemma map_of_map_snd: "map_of (map (\<lambda>(w, x). (w, f x)) xs) w = map_option f (map_of xs w)"
  by (induction xs) auto

text \<open>
  C32 (functional). A load report, whatever its jitter below one, makes the number of connections of the
  worker readable exactly, and the worker named as the least loaded has the fewest connections of all.
\<close>

theorem least_loaded_worker:
  assumes "redis_laws R" and "client_up g" and "client_up h" and "0 \<le> jitter" and "jitter < 1"
  shows "map_of (get_all_worker_loads R h (redis_report_load R g host jitter n k s)) (worker_id g) = Some (int k)
    \<and> (case get_least_loaded_worker R h s of
         None \<Rightarrow> get_all_worker_loads R h s = []
       | Some w \<Rightarrow> \<exists>l. (w, l) \<in> set (get_all_worker_loads R h s) \<and> (\<forall>(w', l') \<in> set (get_all_worker_loads R h s). l \<le> l'))"
proof -
  have "py_trunc (of_nat k + jitter) = int k" using assms(4,5) by (simp add: py_trunc_def) linarith
  then have "map_of (get_all_worker_loads R h (redis_report_load R g host jitter n k s)) (worker_id g) = Some (int k)"
    using assms(2,3) by (simp add: get_all_worker_loads_def redis_report_load_def run_cmds_def map_of_map_snd zset_equations [OF assms(1)])
  moreover have "case get_least_loaded_worker R h s of
         None \<Rightarrow> get_all_worker_loads R h s = []
       | Some w \<Rightarrow> \<exists>l. (w, l) \<in> set (get_all_worker_loads R h s) \<and> (\<forall>(w', l') \<in> set (get_all_worker_loads R h s). l \<le> l')"
  proof (cases "by_score R ''worker_load'' s")
    case (Cons wx rest)
    obtain w x where wx: "wx = (w, x)" by (cases wx)
    have "\<forall>y \<in> snd ` set rest. x \<le> y" using zset_equations(5) [OF assms(1), of "''worker_load''" s] Cons wx by simp
    then have "py_trunc x \<le> py_trunc y" if "(w', y) \<in> set rest" for w' y using that py_trunc_mono by force
    with Cons wx assms(3) show ?thesis
      by (auto simp: get_least_loaded_worker_def get_all_worker_loads_def)
  qed (use assms(3) in \<open>simp add: get_least_loaded_worker_def get_all_worker_loads_def\<close>)
  ultimately show ?thesis by (rule conjI)
qed

definition worker_a :: worker_globals where
  "worker_a = \<lparr>client_up = True, worker_id = ''A'', is_draining = False, subscriptions = {}\<rparr>"

definition worker_b :: worker_globals where
  "worker_b = \<lparr>client_up = True, worker_id = ''B'', is_draining = False, subscriptions = {room_channel ''R''}\<rparr>"

lemmas worker_simps = worker_a_def worker_b_def

theorem least_loaded_worker_witness:
  "map_of (get_all_worker_loads reference_redis worker_b (redis_report_load reference_redis worker_a ''h'' (1/2) 3 7 no_store)) ''A'' = Some 7"
  using least_loaded_worker [OF reference_redis_laws, of worker_a worker_b "1/2" "''h''" 3 7 no_store] by (simp add: worker_simps)

subsection \<open>Carrying out outputs\<close>

lemma perform_all_append: "perform_all R host j (xs @ ys) gs = perform_all R host j ys (perform_all R host j xs gs)"
  by (simp add: perform_all_def)

lemma perform_all_simps:
  "perform_all R host j [] gs = gs" "perform_all R host j (o' # os) gs = perform_all R host j os (perform R host j o' gs)"
  by (simp_all add: perform_all_def)

text \<open>Outputs that concern sockets and channels only.\<close>

definition no_command :: "out \<Rightarrow> bool" where
  "no_command o' = (case o' of SendText _ _ _ \<Rightarrow> True | SendRoom _ _ _ _ \<Rightarrow> True | PublishToRoom _ _ \<Rightarrow> True | CloseSocket _ \<Rightarrow> True
     | _ \<Rightarrow> False)"

lemma perform_no_command: "list_all no_command outs \<Longrightarrow> perform_all R host j outs gs = gs"
proof (induction outs)
  case (Cons o' outs)
  then have "perform R host j o' gs = gs" by (cases gs) (auto simp: perform_def no_command_def split: out.splits)
  with Cons show ?case by (simp add: perform_all_simps)
qed (simp add: perform_all_simps)

lemma broadcast_no_command: "list_all no_command (broadcast_room e r msg)"
  by (auto simp: broadcast_room_def no_command_def list_all_iff Let_def split: if_splits option.splits out.splits)

lemma room_broadcast_no_command: "list_all no_command (room_broadcast e m c msg)"
  by (auto simp: room_broadcast_def broadcast_no_command split: option.split)

subsection \<open>Moving rooms to another worker\<close>

lemma save_room_snapshot_facts:
  assumes "redis_laws R" and "client_up a" and "client_up b"
  shows "get_room_snapshot R b c (save_room_snapshot R a d sn 600 s) = (if c = d then Some sn else get_room_snapshot R b c s)"
    "get_room_worker_with_ttl R b c (save_room_snapshot R a d sn 600 s) = (if c = d then None else get_room_worker_with_ttl R b c s)"
  using assms(2,3)
  by (simp_all add: get_room_snapshot_def save_room_snapshot_def get_room_worker_with_ttl_def run_cmds_def
      key_equations [OF assms(1)] hash_equations [OF assms(1)] split: option.split)

lemma perform_drain:
  "perform_all R host j (concat (map (\<lambda>r. room_broadcast e m (code r) (WorkerDraining (code r))
       @ [SaveRoomSnapshot (code r) (snapshot_room e r)]) rs)) (g, s)
   = (g, foldl (\<lambda>s r. save_room_snapshot R g (code r) (snapshot_room e r) 600 s) s rs)"
proof (induction rs arbitrary: s)
  case (Cons r rs)
  then show ?case
    by (simp add: perform_all_append perform_no_command [OF room_broadcast_no_command] perform_all_simps) (simp add: perform_def)
qed (simp add: perform_all_simps)

lemma perform_drain_active:
  "perform_all R host j (fst (drain_active_rooms e m)) (g, s)
   = (g, foldl (\<lambda>s r. save_room_snapshot R g (code r) (snapshot_room e r) 600 s) s (map snd (filter (\<lambda>(c, r). \<not> is_proxy r) (rooms m))))"
  by (simp only: drain_active_rooms_def Let_def fst_conv perform_drain)

lemma saved_rooms:
  assumes "redis_laws R" and "client_up a" and "client_up b" and "distinct (map code rs)" and "r \<in> set rs"
  shows "get_room_snapshot R b (code r) (foldl (\<lambda>s r. save_room_snapshot R a (code r) (snapshot_room e r) 600 s) s rs) = Some (snapshot_room e r)
    \<and> get_room_worker_with_ttl R b (code r) (foldl (\<lambda>s r. save_room_snapshot R a (code r) (snapshot_room e r) 600 s) s rs) = None"
  using assms(4,5)
proof (induction rs rule: rev_induct)
  case (snoc x rs)
  show ?case
  proof (cases "r = x")
    case True
    then show ?thesis by (simp add: save_room_snapshot_facts [OF assms(1-3)])
  next
    case False
    with snoc.prems have "r \<in> set rs" "code r \<noteq> code x" by (auto simp: image_iff)
    with snoc show ?thesis by (simp add: save_room_snapshot_facts [OF assms(1-3)])
  qed
qed simp

lemma drained_room:
  assumes "redis_laws R" and "client_up a" and "client_up b" and "registry_ok m" and "get_room m c = Some r"
    and "perform_all R host j (fst (drain_active_rooms e m)) (a, s) = (a', s')"
  shows "a' = a \<and> get_room_snapshot R b c s' = Some (snapshot_room e r) \<and> get_room_worker_with_ttl R b c s' = None"
proof -
  define rs where "rs = map snd (filter (\<lambda>(c, r). \<not> is_proxy r) (rooms m))"
  have codes: "code x = d" if "(d, x) \<in> set (rooms m)" for d x
  proof -
    have "get_room m d = Some x" using that registry_okD(1) [OF assms(4)] by (simp add: get_room_def)
    then show ?thesis by (rule registry_okD(2) [OF assms(4)])
  qed
  have "map code rs = map fst (filter (\<lambda>(c, r). \<not> is_proxy r) (rooms m))"
    using codes by (auto simp: rs_def)
  then have d: "distinct (map code rs)"
    using registry_okD(1) [OF assms(4)] by (simp add: distinct_map_filter)
  have "(c, r) \<in> set (rooms m)" "\<not> is_proxy r" "code r = c"
    using assms(5) registry_okD(2,3) [OF assms(4,5)] by (auto simp: get_room_def dest: map_of_SomeD)
  then have r: "r \<in> set rs" "code r = c" by (force simp: rs_def)+
  have "perform_all R host j (fst (drain_active_rooms e m)) (a, s)
      = (a, foldl (\<lambda>s r. save_room_snapshot R a (code r) (snapshot_room e r) 600 s) s rs)"
    unfolding perform_drain_active rs_def ..
  from trans [OF assms(6) [symmetric] this] show ?thesis using saved_rooms [OF assms(1-3) d r(1), of e s] r(2) by auto
qed

text \<open>What the saves leave alone.\<close>

lemma saved_frame:
  assumes "redis_laws R"
  shows "h \<noteq> ''room_workers'' \<Longrightarrow>
      hash_get R h f (foldl (\<lambda>s r. save_room_snapshot R a (code r) (snapshot_room e r) 600 s) s rs) = hash_get R h f s"
    and "(\<And>c. k \<noteq> snapshot_key c \<and> k \<noteq> owner_key c) \<Longrightarrow>
      get_key R k (foldl (\<lambda>s r. save_room_snapshot R a (code r) (snapshot_room e r) 600 s) s rs) = get_key R k s"
  by (induction rs arbitrary: s)
     (simp_all add: save_room_snapshot_def run_cmds_def key_equations [OF assms] hash_equations [OF assms])

lemma find_restored:
  "List.find (\<lambda>p. pname p = name) (map (restore_player e) (map player_snapshot_of ps))
   = map_option (\<lambda>p. restore_player e (player_snapshot_of p)) (List.find (\<lambda>p. pname p = name) ps)"
  "List.find (\<lambda>p. pname p = name \<and> \<not> is_connected p) (map (restore_player e) (map player_snapshot_of ps))
   = map_option (\<lambda>p. restore_player e (player_snapshot_of p)) (List.find (\<lambda>p. pname p = name) ps)"
  by (induction ps) (simp_all add: restore_player_def player_snapshot_of_def new_player_def)

lemma restored_frame:
  "players (restored_room e (snapshot_room e0 r)) = map (restore_player e) (map player_snapshot_of (players r))"
  "code (restored_room e (snapshot_room e0 r)) = code r" "host_id (restored_room e (snapshot_room e0 r)) = host_id r"
  "state (restored_room e (snapshot_room e0 r)) = state r" "current_round (restored_room e (snapshot_room e0 r)) = current_round r"
  "drawer_index (restored_room e (snapshot_room e0 r)) = drawer_index r" "loop_tasks (restored_room e (snapshot_room e0 r)) = []"
  "turn r = None \<or> in_game r \<Longrightarrow> map_option word (turn (restored_room e (snapshot_room e0 r))) = map_option word (turn r)"
  by (auto simp: restored_room_def snapshot_room_def Let_def new_room_def in_game_def restore_turn_def turn_snapshot_of_def
      option.map_comp comp_def)

text \<open>Reconnecting to a snapshot restores the room and connects the player.\<close>

lemma reconnect_to_snapshot:
  assumes "redis_enabled e" and "get_room m (code r) = None" and "List.find (\<lambda>p. pname p = name) (players r) = Some p"
  shows "\<exists>m' outs pl q. handle_reconnect e m name (code r) ws av (Some (snapshot_room e0 r)) =
      (m', [DeleteRoomSnapshot (code r), RegisterRoomWithTtl (code r), RegisterRoomWorker (code r), SubscribeRoom (code r)] @ outs, Reconnected pl)
    \<and> list_all no_command outs \<and> r_player_id pl = pid p \<and> r_score pl = score p
    \<and> get_room m' (code r) = Some (upd_player (pid p) (restore_connection ws av) (restored_room e (snapshot_room e0 r)))"
proof -
  define r0 where "r0 = restored_room e (snapshot_room e0 r)"
  define p0 where "p0 = restore_player e (player_snapshot_of p)"
  have p0: "pid p0 = pid p" "score p0 = score p" "websocket p0 = None" "cleanup_task p0 = None" "host_reassign_task p0 = None"
    by (simp_all add: p0_def restore_player_def player_snapshot_of_def new_player_def)
  have code: "code r0 = code r" and tasks: "loop_tasks r0 = []" by (simp_all add: r0_def restored_frame)
  have find: "find_returning r0 name = Some p0"
    using assms(3) find_restored [of name e "players r"] by (simp add: find_returning_def r0_def p0_def restored_frame)
  have no_tasks: "\<not> pending r0 t" "\<not> pending (upd_player (pid p) (restore_connection ws av) r0) t" for t
    by (simp_all add: pending_def task_done_def tasks upd_player_def split: option.split)
  have clear: "clear_timers (pid p) p0 r0 = r0" by (simp add: clear_timers_def no_tasks)
  obtain m1 where m1: "restore_room e m (snapshot_room e0 r) = (m1, r0)" by (simp add: restore_room_def r0_def Let_def)
  let ?r2 = "upd_player (pid p) (restore_connection ws av) r0"
  have code2: "code ?r2 = code r" using code by (simp add: upd_player_def)
  show ?thesis
    using assms(1,2) m1 find p0 code2
    by (simp add: handle_reconnect_def adopt_snapshot_def reconnect_player_def Let_def clear no_tasks
        broadcast_no_command reconnected_payload_of_def restore_connection_def r0_def [symmetric])
qed

lemma perform_adoption:
  assumes "redis_laws R" and "client_up b" and "client_up x" and "list_all no_command outs"
    and "perform_all R host j ([DeleteRoomSnapshot c, RegisterRoomWithTtl c, RegisterRoomWorker c, SubscribeRoom c] @ outs) (b, s) = (b', s')"
  shows "get_room_worker_with_ttl R x c s' = Some (worker_id b) \<and> get_room_snapshot R x c s' = None \<and> room_channel c \<in> subscriptions b'"
proof -
  have "(b', s') = (subscribe_room c b,
      register_room_worker R b c (register_room_with_ttl R b c 3600 (delete_room_snapshot R b c s)))"
    using assms(5) by (simp add: perform_all_simps perform_def perform_no_command [OF assms(4)])
  with assms(2,3) show ?thesis
    by (simp add: get_room_worker_with_ttl_def get_room_snapshot_def register_room_with_ttl_def register_room_worker_def
        delete_room_snapshot_def subscribe_room_def run_cmds_def decode_text_def key_equations [OF assms(1)] hash_equations [OF assms(1)])
qed


definition redis_env :: env where
  "redis_env = lone_env\<lparr>redis_enabled := True\<rparr>"


end
