(* ===== verification/Cluster.thy ===== *)
theory Cluster
  imports Redis_Facts
begin

text \<open>
  Two workers that share a Redis server: a player who joins a room of another worker, and the
  broadcasts of the owner that reach the players connected elsewhere.
\<close>

subsection \<open>Joining a room of another worker\<close>

text \<open>The request that \<open>join_room_remote\<close> publishes.\<close>

definition join_request :: "env \<Rightarrow> string \<Rightarrow> string \<Rightarrow> string option \<Rightarrow> bool \<Rightarrow> string option \<Rightarrow> join_rpc" where
  "join_request e name c av sp pw =
     \<lparr>jrpc_request_id = uuid e 1, jrpc_room_code = c, jrpc_player_id = uuid e 0, jrpc_player_name = name,
      jrpc_avatar = av, jrpc_as_spectator = sp, jrpc_password = pw\<rparr>"

lemma rpc_join_cases:
  assumes "get_room m (jrpc_room_code q) = Some r"
  obtains (refused) err where "rpc_join_room e m q = (m, [], Error err)"
  | (accepted) p r1 m1 where
      "p = (new_player (jrpc_player_id q) (jrpc_player_name q))\<lparr>avatar := jrpc_avatar q, is_spectator := jrpc_as_spectator q, is_connected := True\<rparr>"
      "r1 = add_player p r" "m1 = register_player (pid p) (code r) (put_room r1 m)"
      "rpc_join_room e m q = (m1, set_room_info r1 # broadcast_room e r1 (player_list m1 r1),
         RoomJoined (joined_payload_of e r1 (map (serialize_player m1) (players r1)) (pid p) (jrpc_as_spectator q)))"
proof -
  define p where "p = (new_player (jrpc_player_id q) (jrpc_player_name q))
      \<lparr>avatar := jrpc_avatar q, is_spectator := jrpc_as_spectator q, is_connected := True\<rparr>"
  define r1 where "r1 = add_player p r"
  define m1 where "m1 = register_player (pid p) (code r) (put_room r1 m)"
  have "(\<exists>err. rpc_join_room e m q = (m, [], Error err))
      \<or> rpc_join_room e m q = (m1, set_room_info r1 # broadcast_room e r1 (player_list m1 r1),
         RoomJoined (joined_payload_of e r1 (map (serialize_player m1) (players r1)) (pid p) (jrpc_as_spectator q)))"
    unfolding rpc_join_room_def assms option.case Let_def p_def [symmetric] r1_def [symmetric] m1_def [symmetric]
    by (simp only: split: if_split) blast
  with that p_def r1_def m1_def show thesis by blast
qed

lemma rpc_join_answer:
  assumes "rpc_join_room e m q = (m', outs, answer)" and "registry_ok m" and "fresh_id (jrpc_player_id q) m"
  shows "(\<exists>err. answer = Error err \<and> m' = m \<and> outs = []) \<or>
    (\<exists>r p pl. answer = RoomJoined pl \<and> j_player_id pl = jrpc_player_id q \<and> j_host_id pl = host_id r
      \<and> get_room m' (jrpc_room_code q) = Some r \<and> get_player r (jrpc_player_id q) = Some p \<and> pname p = jrpc_player_name q
      \<and> is_connected p \<and> websocket p = None \<and> is_spectator p = jrpc_as_spectator q
      \<and> player_to_room m' (jrpc_player_id q) = Some (jrpc_room_code q)
      \<and> (\<exists>outs'. outs = set_room_info r # outs' \<and> list_all no_command outs'))"
proof (cases "get_room m (jrpc_room_code q)")
  case None
  with assms(1) show ?thesis by (auto simp: rpc_join_room_def)
next
  case r: (Some r)
  show ?thesis
  proof (cases rule: rpc_join_cases [OF r, of e, case_names refused accepted])
    case (refused err)
    with assms(1) show ?thesis by auto
  next
    case (accepted p r1 m1)
    have m1: "m1 = m'" using accepted(4) assms(1) by simp
    have outs: "outs = set_room_info r1 # broadcast_room e r1 (player_list m' r1)"
      "answer = RoomJoined (joined_payload_of e r1 (map (serialize_player m') (players r1)) (pid p) (jrpc_as_spectator q))"
      using accepted(4) assms(1) m1 by simp_all
    have code: "code r = jrpc_room_code q" by (rule registry_okD(2) [OF assms(2) r])
    have "jrpc_player_id q \<notin> set (player_ids r)"
    using assms(3) registry_okD(5) [OF assms(2), of "jrpc_player_id q" "jrpc_room_code q"] r by (auto simp: fresh_id_def known_ids_def)
    then have p: "get_player r1 (jrpc_player_id q) = Some p"
      using get_player_None_iff [of r "jrpc_player_id q"]
      by (auto simp: accepted(1,2) add_player_def get_player_def new_player_def find_append)
    have "get_room m' (jrpc_room_code q) = Some r1" "player_to_room m' (jrpc_player_id q) = Some (jrpc_room_code q)"
      using code unfolding m1 [symmetric] accepted(3)
      by (simp_all add: accepted(1,2) new_player_def add_player_def register_player_def)
    moreover have "j_player_id (joined_payload_of e r1 vs (pid p) sp) = jrpc_player_id q" "j_host_id (joined_payload_of e r1 vs (pid p) sp) = host_id r1"
      for vs sp by (simp_all add: joined_payload_of_def Let_def accepted(1) new_player_def)
    moreover have "pname p = jrpc_player_name q" "is_connected p" "websocket p = None" "is_spectator p = jrpc_as_spectator q"
      by (simp_all add: accepted(1) new_player_def)
    moreover have "list_all no_command (broadcast_room e r1 (player_list m' r1))" by (rule broadcast_no_command)
    ultimately show ?thesis
      by (intro disjI2 exI [of _ r1] exI [of _ p] exI [of _ "joined_payload_of e r1 (map (serialize_player m') (players r1)) (pid p) (jrpc_as_spectator q)"])
         (use p in \<open>simp add: outs\<close>)
  qed
qed

lemma no_command_published:
  assumes "client_up g" and "o' \<in> set outs" and "o' = PublishRpc w q"
  shows "(worker_channel w, \<lparr>source_worker = worker_id g, body = BodyRpc q\<rparr>) \<in> set (concat (map (published g) outs))"
  using assms by (force simp: published_def publish_rpc_request_def)

lemma response_received:
  assumes "redis_laws R" and "client_up a" and "client_up b" and "t < deadline" and "i \<noteq> []"
    and "jrpc_request_id q = i" and "handle_rpc_join e m q = (m', outs)" and "rpc_join_room e m q = (m', outs', answer)"
    and "list_all no_command outs' \<or> (\<exists>r outs''. outs' = set_room_info r # outs'' \<and> list_all no_command outs'')"
    and "perform_all R h j outs (a, s) = (a1, s1)"
  shows "map_option fst (wait_for_rpc_response R b i deadline [(t, s1)]) = Some answer"
proof -
  have outs: "outs = outs' @ [SetRpcResponse i answer]"
    using assms(5-8) by (auto simp: handle_rpc_join_def)
  obtain s0 where s0: "perform_all R h j outs' (a, s) = (a, s0)"
    using assms(9) perform_no_command [of _ R h j]
    by (auto simp: perform_all_simps set_room_info_def) (simp add: perform_def)
  have "get_key R (response_key i) s1 = Some (RResponse answer)"
    using assms(2,10) s0 by (auto simp: outs perform_all_append perform_all_simps perform_def set_rpc_response_def run_cmds_def key_equations [OF assms(1)])
  with assms(3,4) show ?thesis by simp
qed

lemma join_remote_room:
  assumes "redis_enabled e" and "get_room m c = None" and "valid_name name"
  shows "join_room e m name c ws av sp pw [Some w] found None = join_room_remote e m c name ws w av sp pw found"
  using assms by (simp add: join_room_def join_elsewhere_def)



subsection \<open>Broadcasts of the owner\<close>

lemma relay_sends: "concat (map (\<lambda>p. send_to p msg) ps) = map (\<lambda>ws. SendText ws False msg) (sockets_of ps)"
  by (induction ps) (auto simp: send_to_def split: option.split)

text \<open>
  C14 (functional). A broadcast in a room with a remote player is published exactly once, on the
  channel of the room. The publishing worker ignores it; every other worker that is subscribed and has
  a proxy of the room sends it once to each connected player of the proxy, over the player's socket.
\<close>

theorem broadcast_crosses_workers:
  assumes "client_up a" and "client_up b" and "worker_id a \<noteq> worker_id b" and "room_channel (code r) \<in> subscriptions b"
    and "redis_enabled e" and "list_ex (\<lambda>p. websocket p = None) (players r)" and "get_room mb (code r) = Some rb"
  shows "\<exists>ce. concat (map (published a) (broadcast_room e r msg)) = [ce]
    \<and> subscriber_receives a ce = None
    \<and> (\<exists>d. subscriber_receives b ce = Some d
         \<and> handle_redis_message eb mb d = Inr (mb, map (\<lambda>ws. SendText ws False msg) (sockets_of (players rb))))"
proof -
  let ?ce = "(room_channel (code r), \<lparr>source_worker = worker_id a, body = BodyMessage msg\<rparr>)"
  have quiet: "concat (map (published a) (map (\<lambda>ws. SendText ws (f ws) msg) W)) = []" for f W
    by (induction W) (simp_all add: published_def)
  have relay: "\<exists>outs. broadcast_room e r msg = outs @ [PublishToRoom (code r) msg] \<and> concat (map (published a) outs) = []"
    using broadcast_room_sends [of r e msg] assms(5,6) quiet
    by (auto simp: Let_def published_def split: if_splits)
  then have "concat (map (published a) (broadcast_room e r msg)) = [?ce]"
    using assms(1) by (auto simp: published_def publish_to_room_def)
  moreover have "channel_room (room_channel (code r)) = code r" by (simp add: room_channel_def)
  then have "subscriber_receives b ?ce = Some (RedisRoom (code r) (Some msg))"
    using assms(2-4) by (simp add: subscriber_receives_def)
  moreover have "subscriber_receives a ?ce = None" by (simp add: subscriber_receives_def)
  moreover have "handle_redis_message eb mb (RedisRoom (code r) (Some msg)) = Inr (mb, map (\<lambda>ws. SendText ws False msg) (sockets_of (players rb)))"
    using assms(7) by (simp add: handle_redis_message_def handle_room_relay_def relay_sends)
  ultimately show ?thesis by blast
qed

theorem broadcast_crosses_workers_witness:
  "\<exists>ce. concat (map (published worker_a) (broadcast_room redis_env (add_player (new_player ''d'' ''Dan'') trio) ReconnectResumed)) = [ce]"
proof -
  have h: "client_up worker_a" "client_up worker_b" "worker_id worker_a \<noteq> worker_id worker_b"
    "room_channel (code (add_player (new_player ''d'' ''Dan'') trio)) \<in> subscriptions worker_b" "redis_enabled redis_env"
    "list_ex (\<lambda>p. websocket p = None) (players (add_player (new_player ''d'' ''Dan'') trio))"
    "get_room (single_manager trio) (code (add_player (new_player ''d'' ''Dan'') trio)) = Some trio"
    by (simp_all add: worker_simps redis_env_def) (simp_all add: add_player_def trio_simps)
  from broadcast_crosses_workers [OF h] show ?thesis by blast
qed

end
