(* ===== verification/Subscriber.thy ===== *)
theory Subscriber
  imports Registrations Cluster
begin

text \<open>
  A worker together with its subscriber and the Redis server (\<open>backend/redis_pubsub.py\<close>). Handlers run and
  their calls of Redis are carried out, messages of other workers arrive, connections get lost and are
  subscribed again, and other workers use the server. In every state a worker that owns its rooms is
  registered for exactly its rooms, and listens exactly to its own channel and those of its rooms,
  unless the last attempt to subscribe again failed.
\<close>

subsection \<open>Carrying out the calls of a handler\<close>

lemma channel_names [simp]:
  "room_channel c = room_channel d \<longleftrightarrow> c = d" "worker_channel w = worker_channel v \<longleftrightarrow> w = v"
  "worker_channel w \<noteq> room_channel c" "room_channel c \<noteq> worker_channel w"
  by (simp_all add: room_channel_def worker_channel_def)

definition listens_to :: "worker_globals \<Rightarrow> string set \<Rightarrow> bool" where
  "listens_to g S \<longleftrightarrow> subscriptions g = insert (worker_channel (worker_id g)) (room_channel ` S)"

definition registered_for :: "'s redis_server \<Rightarrow> string \<Rightarrow> 's \<Rightarrow> string set \<Rightarrow> bool" where
  "registered_for R w s S \<longleftrightarrow> (\<forall>c. hash_get R ''room_workers'' c s = Some (RText w) \<longleftrightarrow> c \<in> S)"

lemma perform_globals:
  assumes "perform R host j o' (g, s) = (g', s')" and "client_up g"
  shows "client_up g'" and "worker_id g' = worker_id g" and "listens_to g S \<Longrightarrow> listens_to g' (listens o' S)"
proof -
  have "room_channel ` S - {room_channel c} = room_channel ` (S - {c})" for S c by auto
  then show "client_up g'" "worker_id g' = worker_id g" "listens_to g S \<Longrightarrow> listens_to g' (listens o' S)"
    using assms
    by (cases o'; simp add: perform_def listens_def listens_to_def subscribe_room_def unsubscribe_room_def;
        clarsimp simp: insert_commute insert_Diff_if)+
qed

lemma registered_exec:
  assumes "redis_laws R"
  shows "registered_for R w s S \<Longrightarrow> registered_for R w (exec R (CmdHset ''room_workers'' c (RText w)) s) (insert c S)"
    and "registered_for R w s S \<Longrightarrow> registered_for R w (exec R (CmdHdel ''room_workers'' c) s) (S - {c})"
    and "h \<noteq> ''room_workers'' \<Longrightarrow> registered_for R w (exec R (CmdHset h c v) s) S = registered_for R w s S"
    and "h \<noteq> ''room_workers'' \<Longrightarrow> registered_for R w (exec R (CmdHdel h c) s) S = registered_for R w s S"
    and "registered_for R w (exec R (CmdSet k v n) s) S = registered_for R w s S"
    and "registered_for R w (exec R (CmdDelete k) s) S = registered_for R w s S"
    and "registered_for R w (exec R (CmdExpire k n) s) S = registered_for R w s S"
    and "registered_for R w (exec R (CmdZadd z v' x) s) S = registered_for R w s S"
    and "registered_for R w (exec R (CmdZrem z v') s) S = registered_for R w s S"
  by (auto simp: registered_for_def hash_equations [OF assms])

lemma perform_registered:
  assumes "redis_laws R" and "perform R host j o' (g, s) = (g', s')" and "client_up g" and "registered_for R (worker_id g) s S"
  shows "registered_for R (worker_id g) s' (owns o' S)"
  using registered_exec [OF assms(1)] assms(2-4)
  by (cases o')
     (force simp: perform_def owns_def run_cmds_def redis_set_room_info_def register_room_with_ttl_def register_room_worker_def
        unregister_room_with_ttl_def remove_room_worker_def remove_room_info_def redis_report_load_def save_room_snapshot_def
        delete_room_snapshot_def set_rpc_response_def)+

lemma perform_all_registrations:
  assumes "redis_laws R" and "client_up g" and "perform_all R host j outs (g, s) = (g', s')"
  shows "client_up g' \<and> worker_id g' = worker_id g
    \<and> (listens_to g S \<longrightarrow> listens_to g' (fold listens outs S))
    \<and> (registered_for R (worker_id g) s T \<longrightarrow> registered_for R (worker_id g) s' (fold owns outs T))"
  using assms(2,3)
proof (induction outs arbitrary: g s S T)
  case (Cons o' outs)
  obtain g1 s1 where p: "perform R host j o' (g, s) = (g1, s1)" by fastforce
  note f = perform_globals [OF p Cons(2)] perform_registered [OF assms(1) p Cons(2)]
  have "perform_all R host j outs (g1, s1) = (g', s')" using Cons(3) p by (simp add: perform_all_def)
  from Cons(1) [OF f(1) this] f show ?case by auto
qed (simp add: perform_all_def)

subsection \<open>The worker with its subscriber\<close>

record 's linked =
  worker :: world
  globals :: worker_globals
  store :: 's
  pubsub_lost :: bool \<comment> \<open>the last attempt to subscribe again failed\<close>

definition linked_start :: "'s redis_server \<Rightarrow> 's linked \<Rightarrow> bool" where
  "linked_start R l \<longleftrightarrow>
     (\<exists>w j s. l = \<lparr>worker = empty_world, globals = fst (init_redis R w j s), store = snd (init_redis R w j s), pubsub_lost = False\<rparr>
        \<and> registered_for R w s {})"

text \<open>
  A message of another worker that joins somebody carries a fresh id. Other workers write to Redis, but
  neither register this worker for a room nor remove its registrations.
\<close>

definition poll_allowed :: "manager \<Rightarrow> worker_globals \<Rightarrow> poll \<Rightarrow> bool" where
  "poll_allowed m g p =
     (case p of Polled ce \<Rightarrow> (case subscriber_receives g ce of Some d \<Rightarrow> rpc_allowed m d | None \<Rightarrow> True) | _ \<Rightarrow> True)"

inductive linked_step :: "'s redis_server \<Rightarrow> string \<Rightarrow> 's linked \<Rightarrow> event option \<Rightarrow> out list \<Rightarrow> 's linked \<Rightarrow> bool" for R host where
  works: "step_in e (worker l) ev outs w' \<Longrightarrow> \<not> (\<exists>d. ev = FromRedis d) \<Longrightarrow> redis_enabled e \<Longrightarrow>
    perform_all R host j outs (globals l, store l) = (g', s') \<Longrightarrow>
    linked_step R host l (Some ev) outs (l\<lparr>worker := w', globals := g', store := s'\<rparr>)"
| polls: "redis_enabled e \<Longrightarrow> fresh_id (uuid e 0) (mgr (worker l)) \<Longrightarrow> poll_allowed (mgr (worker l)) (globals l) p \<Longrightarrow>
    subscribe_loop_step e (mgr (worker l)) p ok (globals l) = (g1, m', outs, tried) \<Longrightarrow>
    perform_all R host j outs (g1, store l) = (g', s') \<Longrightarrow>
    linked_step R host l None outs
      (l\<lparr>worker := (worker l)\<lparr>mgr := m'\<rparr>, globals := g', store := s',
         pubsub_lost := (case tried of None \<Rightarrow> pubsub_lost l | Some ok' \<Rightarrow> \<not> ok')\<rparr>)"
| elsewhere: "(\<And>S. registered_for R (worker_id (globals l)) s' S = registered_for R (worker_id (globals l)) (store l) S) \<Longrightarrow>
    linked_step R host l None [] (l\<lparr>store := s'\<rparr>)"

definition linked_ok :: "'s redis_server \<Rightarrow> 's linked \<Rightarrow> bool" where
  "linked_ok R l \<longleftrightarrow>
     registry_ok (mgr (worker l)) \<and> client_up (globals l)
     \<and> (pubsub_lost l \<or> listens_to (globals l) (codes (mgr (worker l))))
     \<and> registered_for R (worker_id (globals l)) (store l) (codes (mgr (worker l)))"

lemma linked_performed:
  assumes "redis_laws R" and "linked_ok R l" and "client_up g1" and "worker_id g1 = worker_id (globals l)"
    and "lost \<or> listens_to g1 (codes (mgr (worker l)))"
    and "follows True (mgr (worker l)) (mgr w', outs)" and "registry_ok (mgr w')"
    and "perform_all R host j outs (g1, store l) = (g', s')"
  shows "linked_ok R (l\<lparr>worker := w', globals := g', store := s', pubsub_lost := lost\<rparr>)"
  using perform_all_registrations [OF assms(1,3,8), of "codes (mgr (worker l))" "codes (mgr (worker l))"] assms(2-7)
  by (auto simp: linked_ok_def follows_def)

lemma resubscribe_facts:
  "client_up (resubscribe m ok g) = client_up g" "worker_id (resubscribe m ok g) = worker_id g"
  "client_up g \<Longrightarrow> listens_to (resubscribe m True g) (codes m)"
proof -
  have "set (map (\<lambda>(c, r). room_channel c) (rooms m)) = room_channel ` codes m" by (force simp: codes_def)
  then show "client_up g \<Longrightarrow> listens_to (resubscribe m True g) (codes m)" by (simp add: resubscribe_def listens_to_def)
qed (simp_all add: resubscribe_def)

lemma subscribe_loop_step_facts:
  assumes "linked_ok R l" and "redis_enabled e" and "fresh_id (uuid e 0) (mgr (worker l))" and "poll_allowed (mgr (worker l)) (globals l) p"
    and "subscribe_loop_step e (mgr (worker l)) p ok (globals l) = (g1, m', outs, tried)"
  shows "client_up g1 \<and> worker_id g1 = worker_id (globals l)
    \<and> ((case tried of None \<Rightarrow> pubsub_lost l | Some ok' \<Rightarrow> \<not> ok') \<or> listens_to g1 (codes (mgr (worker l))))
    \<and> follows True (mgr (worker l)) (m', outs) \<and> registry_ok m'"
proof -
  let ?m = "mgr (worker l)"
  have ok: "registry_ok ?m" "client_up (globals l)" "pubsub_lost l \<or> listens_to (globals l) (codes ?m)"
    using assms(1) by (simp_all add: linked_ok_def)
  have idle: "follows True ?m (?m, [])" using ok_coded [OF ok(1)] by (simp add: follows_quiet)
  have redis: "follows True ?m (m', outs) \<and> registry_ok m'"
    if "subscriber_receives (globals l) ce = Some d" "p = Polled ce" "handle_redis_message e ?m d = Inr (m', outs)" for ce d
  proof -
    have "rpc_allowed ?m d" using assms(4) that by (simp add: poll_allowed_def)
    from step_in.redis [OF this assms(3) that(3)] step_in_follows [OF ok(1)] step_in_ok [OF ok(1)] assms(2)
    show ?thesis by fastforce
  qed
  show ?thesis
  proof (cases p)
    case (Polled ce)
    with assms(5) ok idle redis [OF _ Polled] resubscribe_facts(1,2) [of ?m ok "globals l"] resubscribe_facts(3) [of "globals l" ?m] show ?thesis
      by (cases ok) (auto simp: subscribe_loop_step_def split: option.splits sum.splits)
  next
    case Poll_Failed
    with assms(5) ok idle resubscribe_facts(1,2) [of ?m ok "globals l"] resubscribe_facts(3) [of "globals l" ?m] show ?thesis
      by (cases ok) (auto simp: subscribe_loop_step_def)
  qed (use assms(5) ok idle in \<open>auto simp: subscribe_loop_step_def\<close>)
qed

lemma linked_step_ok:
  assumes "redis_laws R" and "linked_ok R l" and "linked_step R host l lab outs l'"
  shows "linked_ok R l'"
  using assms(3)
proof (cases rule: linked_step.cases)
  case (works e ev w' j g' s')
  have ok: "registry_ok (mgr (worker l))" "client_up (globals l)" "pubsub_lost l \<or> listens_to (globals l) (codes (mgr (worker l)))"
    using assms(2) by (simp_all add: linked_ok_def)
  have "follows True (mgr (worker l)) (mgr w', outs)" using step_in_follows [OF ok(1) works(3)] works(5) by simp
  from linked_performed [OF assms(1,2) ok(2) refl ok(3) this step_in_ok [OF ok(1) works(3)] works(6)] works(2)
  show ?thesis by simp
next
  case (polls e p ok g1 m' tried j g' s')
  note f = subscribe_loop_step_facts [OF assms(2) polls(3-6)]
  have "linked_ok R (l\<lparr>worker := (worker l)\<lparr>mgr := m'\<rparr>, globals := g', store := s',
      pubsub_lost := (case tried of None \<Rightarrow> pubsub_lost l | Some ok' \<Rightarrow> \<not> ok')\<rparr>)"
    by (rule linked_performed [OF assms(1,2) _ _ _ _ _ polls(7)]) (use f in simp_all)
  with polls(2) show ?thesis by simp
next
  case (elsewhere s')
  with assms(2) show ?thesis by (simp add: linked_ok_def)
qed

lemma linked_start_ok:
  assumes "redis_laws R" and "linked_start R l"
  shows "linked_ok R l"
  using assms(2) new_manager_ok
  by (auto simp: linked_start_def linked_ok_def empty_world_def init_redis_def Let_def listens_to_def codes_def new_manager_def
      run_cmds_def registered_exec(8) [OF assms(1)])

lemma linked_invariant:
  assumes "redis_laws R"
  shows "inductive_invariant (linked_start R) (linked_step R host) (linked_ok R)"
  by unfold_locales (rule linked_start_ok [OF assms], assumption, rule linked_step_ok [OF assms])


text \<open>A worker that starts, accepts a client and creates a room for it.\<close>

lemma redis_room_created:
  "\<exists>m outs msg. create_room redis_env new_manager ''Ann'' (WebSocket 0) None None None = Some (m, outs, msg)
     \<and> get_room m ''AAAAAA'' \<noteq> None"
proof -
  have "generate_room_code redis_env new_manager 0 = Some ''AAAAAA''"
    by (subst generate_room_code.simps)
       (simp add: redis_env_def lone_env_def new_manager_def get_room_def random_choices_def code_alphabet_def draw_def upt_rec)
  then show ?thesis
    by (simp add: create_room_def redis_env_def lone_env_def valid_name_def Let_def register_player_def put_room_def
        get_room_def new_room_def add_player_def new_manager_def)
qed

definition linked_a :: "reference_state linked" where
  "linked_a = \<lparr>worker = empty_world, globals = fst (init_redis reference_redis ''A'' 0 no_store),
     store = snd (init_redis reference_redis ''A'' 0 no_store), pubsub_lost = False\<rparr>"

lemma linked_a_start: "linked_start reference_redis linked_a"
  unfolding linked_start_def linked_a_def
  by (intro exI [of _ "''A''"] exI [of _ 0] exI [of _ no_store])
     (simp add: registered_for_def reference_redis_def no_store_def)


subsection \<open>A failed join silences a proxy room\<close>

text \<open>
  When a join of a room of another worker fails, the worker unsubscribes from the room's channel, also if
  it already has a proxy of the room for other players: these get no more broadcasts of their room.
\<close>

lemma failed_join_silences_proxy:
  assumes "client_up g" and "get_room m c = Some r"
    and "join_room_remote e m c name ws owner av sp pw (Some (Error err)) = (m', outs, answer)"
    and "perform_all R host j outs (g, s) = (g', s')"
  shows "get_room m' c = Some r \<and> answer = Error err \<and> subscriber_receives g' (room_channel c, env) = None"
proof -
  have "outs = [SubscribeRoom c,
      PublishRpc owner (RpcJoinRoom \<lparr>jrpc_request_id = uuid e 1, jrpc_room_code = c, jrpc_player_id = uuid e 0,
        jrpc_player_name = name, jrpc_avatar = av, jrpc_as_spectator = sp, jrpc_password = pw\<rparr>), UnsubscribeRoom c]"
    and "m' = m" "answer = Error err"
    using assms(3) by (auto simp: join_room_remote_def Let_def)
  with assms show ?thesis
    by (auto simp: perform_all_def perform_def subscribe_room_def unsubscribe_room_def subscriber_receives_def)
qed

end
