(* ===== verification/Transport.thy ===== *)
theory Transport
  imports Broadcast "HOL-Library.Sublist"
begin

text \<open>
  \<open>backend/virtual_transport.py\<close>: the messages of a gateway player are put on the bounded queue of its
  stream, with backpressure when the queue is full. The queue is an \<open>asyncio.Queue\<close> (a list with a
  maximal size, where 0 means unbounded); the payload of a frame is the message it was encoded from.
\<close>

subsection \<open>Definitions\<close>

datatype frame_type = Targeted | TargetedLossy | RoomWide | RoomWideLossy

record broadcast_message =
  bm_room_code :: string
  bm_type :: frame_type
  bm_payload :: message
  bm_targets :: "string list"

text \<open>\<open>put_nowait\<close> and \<open>get_nowait\<close>; \<open>None\<close> is \<open>QueueFull\<close> and \<open>QueueEmpty\<close>.\<close>

definition put_nowait :: "nat \<Rightarrow> 'a \<Rightarrow> 'a list \<Rightarrow> 'a list option" where
  "put_nowait maxsize x q = (if maxsize > 0 \<and> length q \<ge> maxsize then None else Some (q @ [x]))"

definition get_nowait :: "'a list \<Rightarrow> ('a \<times> 'a list) option" where
  "get_nowait q = (case q of [] \<Rightarrow> None | x # q' \<Rightarrow> Some (x, q'))"

definition enqueue_with_backpressure :: "nat \<Rightarrow> 'a \<Rightarrow> bool \<Rightarrow> 'a list \<Rightarrow> 'a list" where
  "enqueue_with_backpressure maxsize x lossy q =
     (case put_nowait maxsize x q of
        Some q' \<Rightarrow> q'
      | None \<Rightarrow>
          if lossy then q
          else let q1 = (case get_nowait q of None \<Rightarrow> q | Some (_, q') \<Rightarrow> q')
               in (case put_nowait maxsize x q1 of None \<Rightarrow> q1 | Some q2 \<Rightarrow> q2))"

definition vt_send_text :: "nat \<Rightarrow> string \<Rightarrow> string \<Rightarrow> message \<Rightarrow> bool \<Rightarrow> broadcast_message list \<Rightarrow> broadcast_message list" where
  "vt_send_text maxsize player_id room_code msg lossy q =
     enqueue_with_backpressure maxsize
       \<lparr>bm_room_code = room_code, bm_type = (if lossy then TargetedLossy else Targeted), bm_payload = msg, bm_targets = [player_id]\<rparr>
       lossy q"

definition vt_send_json :: "nat \<Rightarrow> string \<Rightarrow> string \<Rightarrow> message \<Rightarrow> broadcast_message list \<Rightarrow> broadcast_message list" where
  "vt_send_json maxsize player_id room_code msg q = vt_send_text maxsize player_id room_code msg False q"

definition vt_send_room :: "nat \<Rightarrow> string \<Rightarrow> message \<Rightarrow> string \<Rightarrow> bool \<Rightarrow> broadcast_message list \<Rightarrow> broadcast_message list" where
  "vt_send_room maxsize own_room msg room_code lossy q =
     enqueue_with_backpressure maxsize
       \<lparr>bm_room_code = (if room_code = [] then own_room else room_code),
        bm_type = (if lossy then RoomWideLossy else RoomWide), bm_payload = msg, bm_targets = []\<rparr>
       lossy q"

text \<open>A handler's output on the queues of the streams; \<open>who\<close> and \<open>room_of\<close> are the attributes of the transports.\<close>

definition to_queues ::
  "nat \<Rightarrow> (websocket \<Rightarrow> string) \<Rightarrow> (websocket \<Rightarrow> string) \<Rightarrow> out \<Rightarrow> (nat \<Rightarrow> broadcast_message list) \<Rightarrow> (nat \<Rightarrow> broadcast_message list)" where
  "to_queues maxsize who room_of o' qs =
     (case o' of
        SendText (VirtualTransport t k) lossy msg \<Rightarrow>
          qs(k := vt_send_text maxsize (who (VirtualTransport t k)) (room_of (VirtualTransport t k)) msg lossy (qs k))
      | SendRoom (VirtualTransport t k) c lossy msg \<Rightarrow>
          qs(k := vt_send_room maxsize (room_of (VirtualTransport t k)) msg c lossy (qs k))
      | _ \<Rightarrow> qs)"

subsection \<open>Backpressure\<close>

lemma enqueue_cases:
  "enqueue_with_backpressure n x lossy q =
     (if n = 0 \<or> length q < n then q @ [x]
      else if lossy then q
      else if length (tl q) < n then tl q @ [x] else tl q)"
  by (cases q) (auto simp: enqueue_with_backpressure_def put_nowait_def get_nowait_def Let_def)

text \<open>The queue after a sequence of sends without a read.\<close>

definition enqueue_all :: "nat \<Rightarrow> ('a \<times> bool) list \<Rightarrow> 'a list \<Rightarrow> 'a list" where
  "enqueue_all n sends q = foldl (\<lambda>q (x, lossy). enqueue_with_backpressure n x lossy q) q sends"

lemma enqueue_all_simps [simp]:
  "enqueue_all n [] q = q"
  "enqueue_all n ((x, lossy) # sends) q = enqueue_all n sends (enqueue_with_backpressure n x lossy q)"
  by (simp_all add: enqueue_all_def)

lemma enqueue_length: "length q \<le> n \<Longrightarrow> 0 < n \<Longrightarrow> length (enqueue_with_backpressure n x lossy q) \<le> n"
  by (cases q) (auto simp: enqueue_cases)

lemma enqueue_subseq: "subseq (enqueue_with_backpressure n x lossy q) (q @ [x])"
  by (cases q) (auto simp: enqueue_cases subseq_append')

lemma enqueue_all_length: "length q \<le> n \<Longrightarrow> 0 < n \<Longrightarrow> length (enqueue_all n sends q) \<le> n"
  by (induction sends arbitrary: q) (auto simp: enqueue_length)

lemma enqueue_all_subseq: "subseq (enqueue_all n sends q) (q @ map fst sends)"
proof (induction sends arbitrary: q)
  case (Cons s sends)
  obtain x lossy where s: "s = (x, lossy)" by (cases s)
  have "subseq (enqueue_with_backpressure n x lossy q @ map fst sends) ((q @ [x]) @ map fst sends)"
    by (intro list_emb_append_mono enqueue_subseq subseq_order.refl)
  with Cons [of "enqueue_with_backpressure n x lossy q"] s show ?case by (auto intro: subseq_order.trans)
qed simp

text \<open>
  C22 (bounds). The queue of a stream never exceeds its size; what it holds after any sequence of
  sends is a subsequence of what was queued and sent, so frames are never reordered or duplicated;
  and the last must-deliver message sent is always in it, in the last place.
\<close>

theorem backpressure_bounded_fifo:
  assumes "0 < n" and "length q \<le> n"
  shows "length (enqueue_all n sends q) \<le> n \<and> subseq (enqueue_all n sends q) (q @ map fst sends)
    \<and> last (enqueue_with_backpressure n x False (enqueue_all n sends q)) = x"
proof -
  have len: "length (enqueue_all n sends q) \<le> n" using enqueue_all_length assms by blast
  moreover have "length (tl (enqueue_all n sends q)) < n" using len assms(1) by simp
  ultimately show ?thesis using enqueue_all_subseq [of n sends q] by (simp add: enqueue_cases)
qed

theorem backpressure_bounded_fifo_witness:
  "length (enqueue_all 2 [(''x'', True), (''y'', False), (''z'', False)] []) \<le> 2"
  using backpressure_bounded_fifo [of 2 "[]" "[(''x'', True), (''y'', False), (''z'', False)]" "''w''"] by simp

text \<open>
  A full queue drops a new lossy frame, but for a new must-deliver frame it evicts
  the oldest frame whatever its class: a must-deliver event is lost while a later stroke stays.
\<close>

theorem backpressure_evicts_must_deliver:
  assumes "length q + 1 = n"
  shows "enqueue_with_backpressure n new False (event # q) = q @ [new]
    \<and> enqueue_with_backpressure n stroke True (event # q) = event # q"
  using assms by (auto simp: enqueue_cases)

theorem backpressure_evicts_must_deliver_witness:
  "enqueue_with_backpressure 2 ''chat'' False [''game_over'', ''stroke''] = [''stroke'', ''chat'']"
  using backpressure_evicts_must_deliver [of "[''stroke'']" 2 "''chat''" "''game_over''" "''stroke2''"] by simp

subsection \<open>A broadcast on the queues\<close>

text \<open>
  A must-deliver broadcast to a room whose connected players are all on one stream
  puts one room-wide frame of the room, with that message and no targets, last on the stream's
  queue, and leaves the queues of all other streams as they are.
\<close>

theorem broadcast_puts_one_frame:
  assumes "one_stream (sockets_of (players r))" and "list_all (\<lambda>w. queue_of w = Some k) (sockets_of (players r))"
    and "\<not> is_lossy msg" and "0 < n" and "length (qs k) \<le> n" and "code r \<noteq> []"
  shows "\<exists>q. foldl (\<lambda>qs o'. to_queues n who room_of o' qs) qs (broadcast_room e r msg) =
    qs(k := q @ [\<lparr>bm_room_code = code r, bm_type = RoomWide, bm_payload = msg, bm_targets = []\<rparr>])"
proof -
  let ?f = "\<lparr>bm_room_code = code r, bm_type = RoomWide, bm_payload = msg, bm_targets = []\<rparr>"
  let ?relay = "if redis_enabled e \<and> list_ex (\<lambda>p. websocket p = None) (players r) then [PublishToRoom (code r) msg] else []"
  obtain w where w: "w \<in> set (sockets_of (players r))" "broadcast_room e r msg = [SendRoom w (code r) False msg] @ ?relay"
    using broadcast_room_sends [of r e msg] assms(1,3) by (auto simp: Let_def)
  have "queue_of w = Some k" using w(1) assms(2) by (simp add: list_all_iff)
  then obtain t where t: "w = VirtualTransport t k" by (cases w) (simp_all add: queue_of_def)
  have "\<exists>q. enqueue_with_backpressure n ?f False (qs k) = q @ [?f]"
    using assms(4,5) by (cases "qs k") (auto simp: enqueue_cases)
  with w t assms(6) show ?thesis by (auto simp: to_queues_def vt_send_room_def)
qed

theorem broadcast_puts_one_frame_witness:
  "\<exists>q. foldl (\<lambda>qs o'. to_queues 1024 (\<lambda>_. ''p'') (\<lambda>_. ''R'') o' qs) (\<lambda>_. [])
      (broadcast_room \<lparr>now = 0, draws = (\<lambda>_. []), redis_enabled = False, worker_draining = False, uuid = (\<lambda>_. ''u'')\<rparr>
        (add_player ((new_player ''p'' ''Pat'')\<lparr>websocket := Some (VirtualTransport 1 7)\<rparr>) (new_room ''R'' ''p'' default_config))
        ReconnectResumed) =
    (\<lambda>_. [])(7 := q @ [\<lparr>bm_room_code = ''R'', bm_type = RoomWide, bm_payload = ReconnectResumed, bm_targets = []\<rparr>])"
proof -
  let ?r = "add_player ((new_player ''p'' ''Pat'')\<lparr>websocket := Some (VirtualTransport 1 7)\<rparr>) (new_room ''R'' ''p'' default_config)"
  have h: "one_stream (sockets_of (players ?r))" "list_all (\<lambda>w. queue_of w = Some 7) (sockets_of (players ?r))"
    "\<not> is_lossy ReconnectResumed" "code ?r = ''R''"
    by (simp_all add: add_player_def new_room_def new_player_def one_stream_def queue_of_def is_lossy_def)
  show ?thesis
    using broadcast_puts_one_frame [OF h(1-3), of 1024 "\<lambda>_. []" "\<lambda>_. ''p''" "\<lambda>_. ''R''"] h(4) by simp
qed

end
