(* ===== verification/Application.thy ===== *)
theory Application
  imports Redis_Facts Transport
begin

text \<open>
  The process around the room manager: start-up, load reports, shutdown and the HTTP endpoints of
  \<open>backend/main.py\<close>, the registration of the gRPC port in \<open>backend/grpc_registry.py\<close>, the gauge of
  \<open>backend/grpc_metrics.py\<close> and the heartbeat of \<open>backend/heartbeat.py\<close>. Whether the gRPC server can be
  started, and how a ping ends, is an argument.
\<close>

subsection \<open>The gRPC registration\<close>

definition grpc_alive_key :: "string \<Rightarrow> string" where
  "grpc_alive_key w = ''worker_grpc_alive:'' @ w"

record process =
  globals :: worker_globals
  grpc_registered :: bool \<comment> \<open>\<open>_registered\<close>\<close>
  refreshing :: bool \<comment> \<open>\<open>_refresh_task\<close> is running\<close>
  grpc_serving :: bool
  reporting_load :: bool \<comment> \<open>\<open>load_task\<close>\<close>
  grpc_streams_serving :: nat

definition register_grpc_worker :: "'s redis_server \<Rightarrow> string \<Rightarrow> string \<Rightarrow> process \<times> 's \<Rightarrow> process \<times> 's" where
  "register_grpc_worker R hostname port ps =
     (case ps of (p, s) \<Rightarrow>
        if \<not> client_up (globals p) then (p, s)
        else (p\<lparr>grpc_registered := True, refreshing := True\<rparr>,
              run_cmds R (globals p)
                [CmdHset ''worker_grpc_addresses'' (worker_id (globals p)) (RText (hostname @ '':'' @ port)),
                 CmdSet (grpc_alive_key (worker_id (globals p))) (RText ''1'') 30] s))"

text \<open>One round of \<open>_refresh_liveness_loop\<close>, ten seconds after the previous one.\<close>

definition refresh_liveness :: "'s redis_server \<Rightarrow> process \<Rightarrow> 's \<Rightarrow> 's" where
  "refresh_liveness R p s = run_cmds R (globals p) [CmdSet (grpc_alive_key (worker_id (globals p))) (RText ''1'') 30] s"

definition unregister_grpc_worker :: "'s redis_server \<Rightarrow> process \<times> 's \<Rightarrow> process \<times> 's" where
  "unregister_grpc_worker R ps =
     (case ps of (p, s) \<Rightarrow>
        let p1 = p\<lparr>refreshing := False\<rparr>
        in if \<not> grpc_registered p1 then (p1, s)
           else (p1\<lparr>grpc_registered := False\<rparr>,
                 run_cmds R (globals p)
                   [CmdHdel ''worker_grpc_addresses'' (worker_id (globals p)),
                    CmdDelete (grpc_alive_key (worker_id (globals p)))] s))"

subsection \<open>Streams served\<close>

definition increment_streams :: "process \<Rightarrow> process" where
  "increment_streams p = p\<lparr>grpc_streams_serving := grpc_streams_serving p + 1\<rparr>"

text \<open>\<open>max(0, n - 1)\<close>, the subtraction of natural numbers.\<close>

definition decrement_streams :: "process \<Rightarrow> process" where
  "decrement_streams p = p\<lparr>grpc_streams_serving := grpc_streams_serving p - 1\<rparr>"

text \<open>
  The outbound loop of \<open>RoomStream\<close>: whether the context is cancelled, then what a second's wait on the
  queue gives, where \<open>OutItem None\<close> is the sentinel of the inbound task.
\<close>

datatype outbound_wait = OutTimeout | OutItem "broadcast_message option"

fun outbound_loop :: "(bool \<times> outbound_wait) list \<Rightarrow> broadcast_message list" where
  "outbound_loop [] = []"
| "outbound_loop ((cancelled, w) # rest) =
     (if cancelled then []
      else case w of OutTimeout \<Rightarrow> outbound_loop rest | OutItem None \<Rightarrow> [] | OutItem (Some m) \<Rightarrow> m # outbound_loop rest)"

text \<open>The beginning and the end of \<open>RoomStream\<close>.\<close>

definition open_room_stream :: "nat \<Rightarrow> nat \<Rightarrow> process \<Rightarrow> process \<times> stream" where
  "open_room_stream q n p = (increment_streams p, new_stream q n)"

definition close_room_stream :: "env \<Rightarrow> manager \<Rightarrow> process \<times> stream \<Rightarrow> manager \<times> process \<times> stream \<times> out list" where
  "close_room_stream e m ps =
     (case ps of (p, st) \<Rightarrow> case cleanup_stream e m st of (m', st', outs) \<Rightarrow> (m', decrement_streams p, st', outs))"

lemma outbound_loop_yields:
  "outbound_loop (map (\<lambda>m. (False, OutItem (Some m))) ms @ (False, OutItem None) # rest) = ms"
  by (induction ms) simp_all

subsection \<open>Start-up and shutdown\<close>

text \<open>
  \<open>redis_up\<close>: \<open>REDIS_URL\<close> is set and the server reachable; \<open>grpc_starts\<close>: \<open>GRPC_ENABLED\<close> is set and
  \<open>start_grpc_server\<close> succeeds.
\<close>

definition offline :: "string \<Rightarrow> worker_globals" where
  "offline w = \<lparr>client_up = False, worker_id = w, is_draining = False, subscriptions = {}\<rparr>"

definition startup ::
  "'s redis_server \<Rightarrow> bool \<Rightarrow> bool \<Rightarrow> string \<Rightarrow> rat \<Rightarrow> string \<Rightarrow> string \<Rightarrow> 's \<Rightarrow> process \<times> 's" where
  "startup R redis_up grpc_starts w jitter host port s =
     (let (g, s1) = (if redis_up then init_redis R w jitter s else (offline w, s));
          s2 = register_worker_address R g host ''8000'' s1;
          p = \<lparr>globals = g, grpc_registered = False, refreshing = False, grpc_serving = grpc_starts,
               reporting_load = client_up g, grpc_streams_serving = 0\<rparr>
      in if grpc_starts then register_grpc_worker R host port (p, s2) else (p, s2))"

text \<open>One round of \<open>_report_load_periodically\<close>.\<close>

definition load_room_count :: "manager \<Rightarrow> nat" where
  "load_room_count m = length (filter (\<lambda>(c, r). \<not> is_proxy r) (rooms m))"

definition load_connection_count :: "manager \<Rightarrow> nat" where
  "load_connection_count m =
     sum_list (map (\<lambda>(c, r). length (filter (\<lambda>p. is_connected p \<and> websocket p \<noteq> None) (players r)))
       (filter (\<lambda>(c, r). \<not> is_proxy r) (rooms m)))"

definition report_load :: "'s redis_server \<Rightarrow> process \<Rightarrow> manager \<Rightarrow> string \<Rightarrow> rat \<Rightarrow> 's \<Rightarrow> 's" where
  "report_load R p m host jitter =
     (if reporting_load p
      then redis_report_load R (globals p) host jitter (load_room_count m) (load_connection_count m) else id)"

text \<open>What the lifespan does after its \<open>yield\<close>; the outputs of the drained rooms come with the result.\<close>

definition shutdown ::
  "'s redis_server \<Rightarrow> env \<Rightarrow> manager \<Rightarrow> string \<Rightarrow> rat \<Rightarrow> process \<times> 's \<Rightarrow> (process \<times> 's) \<times> out list" where
  "shutdown R e m host jitter ps =
     (case ps of (p0, s0) \<Rightarrow>
        let (g1, s1) = (if client_up (globals p0) then set_worker_draining R (globals p0) s0 else (globals p0, s0));
            p1 = p0\<lparr>globals := g1, reporting_load := False\<rparr>;
            (p2, s2) = (if grpc_registered p1 then unregister_grpc_worker R (p1, s1) else (p1, s1));
            outs = fst (drain_active_rooms e m);
            (g3, s3) = perform_all R host jitter outs (globals p2, s2);
            (g4, s4) = shutdown_redis R g3 s3
        in ((p2\<lparr>globals := g4, grpc_serving := False\<rparr>, s4), outs))"

subsection \<open>Endpoints\<close>

definition ready_endpoint :: "worker_globals \<Rightarrow> nat \<times> string \<times> bool" where
  "ready_endpoint g = (if is_draining g then (503, ''draining'', False) else (200, ''ready'', True))"

record health =
  h_status :: string
  h_worker_id :: string
  h_grpc_enabled :: bool
  h_draining :: bool
  h_streams :: nat

definition health_endpoint :: "bool \<Rightarrow> process \<Rightarrow> health" where
  "health_endpoint grpc_enabled p =
     \<lparr>h_status = (if is_draining (globals p) then ''draining'' else ''ok''), h_worker_id = worker_id (globals p),
      h_grpc_enabled = grpc_enabled, h_draining = is_draining (globals p), h_streams = grpc_streams_serving p\<rparr>"

text \<open>The two gauges \<open>metrics_endpoint\<close> sets.\<close>

definition metrics_endpoint :: "manager \<Rightarrow> nat \<times> nat" where
  "metrics_endpoint m =
     (length (rooms m), sum_list (map (\<lambda>(c, r). length (filter is_connected (players r))) (rooms m)))"

text \<open>\<open>StickySessionMiddleware\<close>: the cookie a response sets, given the cookies of the request.\<close>

definition sticky_cookie :: "worker_globals \<Rightarrow> (string \<times> string) list \<Rightarrow> (string \<times> string) option" where
  "sticky_cookie g cookies = (if ''worker_id'' \<in> fst ` set cookies then None else Some (''worker_id'', worker_id g))"

subsection \<open>Heartbeat\<close>

text \<open>How the send of a ping ends; nothing else is awaited.\<close>

datatype ping = PingSent | PingBlocked \<comment> \<open>for ten seconds\<close> | PingFailed

text \<open>The loop over the pings, thirty seconds apart: how many are tried and whether the socket is closed.\<close>

fun heartbeat_loop :: "ping list \<Rightarrow> nat \<times> bool" where
  "heartbeat_loop [] = (0, False)"
| "heartbeat_loop (PingSent # ps) = (case heartbeat_loop ps of (n, shut) \<Rightarrow> (Suc n, shut))"
| "heartbeat_loop (PingBlocked # ps) = (1, True)"
| "heartbeat_loop (PingFailed # ps) = (1, False)"

text \<open>
  The heartbeat closes a socket only if a ping cannot be sent: as no pong is awaited, a client that
  never answers is never closed as long as its pings can be sent.
\<close>

lemma heartbeat_ignores_pongs: "heartbeat_loop (replicate n PingSent) = (n, False)"
  by (induction n) simp_all

lemma heartbeat_closes:
  "snd (heartbeat_loop ps) \<longleftrightarrow> (\<exists>n < length ps. ps ! n = PingBlocked \<and> list_all (\<lambda>p. p = PingSent) (take n ps))"
proof (induction ps rule: heartbeat_loop.induct)
  case (2 ps)
  have "snd (heartbeat_loop (PingSent # ps)) = snd (heartbeat_loop ps)" by (simp split: prod.split)
  also have "\<dots> \<longleftrightarrow> (\<exists>n < length (PingSent # ps). (PingSent # ps) ! n = PingBlocked \<and> list_all (\<lambda>p. p = PingSent) (take n (PingSent # ps)))"
    unfolding 2 by (subst Ex_less_Suc2 [of "length ps", folded length_Cons [of PingSent]]) simp
  finally show ?case .
qed (auto simp: Ex_less_Suc2)

subsection \<open>The life of a worker\<close>

lemma process_keys [simp]:
  "grpc_alive_key w \<noteq> owner_key c" "grpc_alive_key w \<noteq> snapshot_key c" "grpc_alive_key w \<noteq> alive_key v" "alive_key v \<noteq> grpc_alive_key w"
  "draining_key w \<noteq> owner_key c" "draining_key w \<noteq> snapshot_key c" "draining_key w \<noteq> grpc_alive_key v" "draining_key w \<noteq> alive_key v"
  "owner_key c \<noteq> draining_key w" "snapshot_key c \<noteq> draining_key w" "grpc_alive_key v \<noteq> draining_key w" "alive_key v \<noteq> draining_key w"
  by (simp_all add: grpc_alive_key_def owner_key_def snapshot_key_def alive_key_def draining_key_def)

text \<open>What the gateway can find out of a worker.\<close>

definition advertised :: "'s redis_server \<Rightarrow> string \<Rightarrow> 's \<Rightarrow> bool \<times> bool \<times> bool \<times> bool \<times> bool" where
  "advertised R w s =
     (hash_get R ''worker_addresses'' w s \<noteq> None, get_key R (alive_key w) s \<noteq> None,
      hash_get R ''worker_grpc_addresses'' w s \<noteq> None, get_key R (grpc_alive_key w) s \<noteq> None,
      map_of (by_score R ''worker_load'' s) w \<noteq> None)"

lemma zrem_equations:
  assumes "redis_laws R"
  shows "map_of (by_score R z (exec R (CmdZrem z w) s)) = (map_of (by_score R z s))(w := None)"
    "by_score R z (exec R (CmdDelete k) s) = by_score R z s" "by_score R z (exec R (CmdHdel h f) s) = by_score R z s"
  using assms by (simp_all add: redis_laws_def zset_laws_def cmd_zset_def)

lemma room_lookups_cong:
  assumes "get_key R (snapshot_key c) s' = get_key R (snapshot_key c) s" and "get_key R (owner_key c) s' = get_key R (owner_key c) s"
    and "hash_get R ''room_workers'' c s' = hash_get R ''room_workers'' c s"
  shows "get_room_snapshot R b c s' = get_room_snapshot R b c s" "get_room_worker_with_ttl R b c s' = get_room_worker_with_ttl R b c s"
  unfolding get_room_snapshot_def get_room_worker_with_ttl_def assms by (rule refl)+

text \<open>
  C15 (safety). A worker that starts with Redis and the gRPC server is advertised to the gateways. After
  its shutdown nothing advertises it any more, and no room it owned is lost: every worker finds the
  snapshot of each of them, and no owner. From the first step of the shutdown on it is not ready.
\<close>

theorem worker_lifecycle:
  assumes "redis_laws R" and "client_up b" and "registry_ok m" and "startup R True True w jitter host port s = (p, s0)"
    and "client_up (globals q)" and "worker_id (globals q) = w" and "grpc_registered q"
    and "shutdown R e m host j (q, s1) = ((q', s2), outs)"
  shows "advertised R w s0 = (True, True, True, True, True) \<and> ready_endpoint (globals p) = (200, ''ready'', True)
    \<and> advertised R w s2 = (False, False, False, False, False) \<and> ready_endpoint (globals q') = (503, ''draining'', False)
    \<and> (\<forall>c r. get_room m c = Some r \<longrightarrow>
        get_room_snapshot R b c s2 = Some (snapshot_room e r) \<and> get_room_worker_with_ttl R b c s2 = None)"
proof -
  note eqs = key_equations [OF assms(1)] hash_equations [OF assms(1)] zset_equations [OF assms(1)] zrem_equations [OF assms(1)]
  have up: "advertised R w s0 = (True, True, True, True, True) \<and> ready_endpoint (globals p) = (200, ''ready'', True)"
    using assms(4)
    by (auto simp: startup_def init_redis_def register_worker_address_def register_grpc_worker_def run_cmds_def advertised_def
        ready_endpoint_def Let_def eqs)
  let ?g = "(globals q)\<lparr>is_draining := True\<rparr>"
  define sd where "sd = run_cmds R ?g [CmdHdel ''worker_grpc_addresses'' w, CmdDelete (grpc_alive_key w)] (snd (set_worker_draining R (globals q) s1))"
  define rs where "rs = map snd (filter (\<lambda>(c, r). \<not> is_proxy r) (rooms m))"
  define sr where "sr = foldl (\<lambda>s r. save_room_snapshot R ?g (code r) (snapshot_room e r) 600 s) sd rs"
  have down: "globals q' = fst (shutdown_redis R ?g sr)" "s2 = snd (shutdown_redis R ?g sr)"
    using assms(5-8)
    by (auto simp: shutdown_def set_worker_draining_def unregister_grpc_worker_def perform_drain_active shutdown_redis_def Let_def
        sd_def sr_def rs_def)
  have "hash_get R ''worker_grpc_addresses'' w sr = None" "get_key R (grpc_alive_key w) sr = None"
    using assms(5) unfolding sr_def by (simp_all add: saved_frame [OF assms(1)] sd_def run_cmds_def eqs)
  then have "advertised R w s2 = (False, False, False, False, False)"
    using assms(5,6) by (simp add: down(2) shutdown_redis_def unregister_worker_address_def run_cmds_def advertised_def eqs)
  moreover have "ready_endpoint (globals q') = (503, ''draining'', False)" by (simp add: down(1) shutdown_redis_def ready_endpoint_def)
  moreover have "get_room_snapshot R b c s2 = Some (snapshot_room e r) \<and> get_room_worker_with_ttl R b c s2 = None"
    if "get_room m c = Some r" for c r
  proof -
    have "perform_all R host j (fst (drain_active_rooms e m)) (?g, sd) = (?g, sr)" by (simp add: perform_drain_active sr_def rs_def)
    from drained_room [OF assms(1) _ assms(2,3) that this] assms(5)
    have "get_room_snapshot R b c sr = Some (snapshot_room e r) \<and> get_room_worker_with_ttl R b c sr = None" by simp
    moreover have "get_key R (snapshot_key c) s2 = get_key R (snapshot_key c) sr" "get_key R (owner_key c) s2 = get_key R (owner_key c) sr"
      "hash_get R ''room_workers'' c s2 = hash_get R ''room_workers'' c sr"
      by (simp_all add: down(2) shutdown_redis_def unregister_worker_address_def run_cmds_def eqs)
    note room_lookups_cong [OF this, of b]
    ultimately show ?thesis by simp
  qed
  ultimately show ?thesis using up by blast
qed

theorem worker_lifecycle_witness:
  "\<exists>p s q' s' outs. startup reference_redis True True ''A'' 0 ''h'' ''50051'' no_store = (p, s)
     \<and> shutdown reference_redis redis_env (single_manager trio) ''h'' 0 (p, s) = ((q', s'), outs)
     \<and> get_room_snapshot reference_redis worker_b ''R'' s' = Some (snapshot_room redis_env trio)"
proof -
  obtain p s where up: "startup reference_redis True True ''A'' 0 ''h'' ''50051'' no_store = (p, s)" by fastforce
  obtain q' s' outs where down: "shutdown reference_redis redis_env (single_manager trio) ''h'' 0 (p, s) = ((q', s'), outs)" by (metis prod.collapse)
  have h: "client_up worker_b" "client_up (globals p)" "worker_id (globals p) = ''A''" "grpc_registered p"
    using up by (auto simp: worker_simps startup_def init_redis_def register_grpc_worker_def Let_def)
  have "get_room (single_manager trio) ''R'' = Some trio" by (simp add: trio_simps)
  with worker_lifecycle [OF reference_redis_laws h(1) trio_ok up h(2-4) down] up down show ?thesis by blast
qed

end
