(* ===== verification/Settings_Facts.thy ===== *)
theory Settings_Facts
  imports Registry_Facts
begin

text \<open>
  The type discipline of the settings. A client sends any JSON object as settings; Python checks nothing by
  itself, so that the values the room keeps have the types of \<open>GameConfig\<close> only because of the checks of
  \<open>update_settings\<close>.
\<close>

text \<open>A setting that is missing, or an integer in its range.\<close>

definition well_typed :: "(string \<times> json) list \<Rightarrow> string \<Rightarrow> int \<Rightarrow> int \<Rightarrow> bool" where
  "well_typed settings key lo hi =
     (case map_of settings key of None \<Rightarrow> True | Some v \<Rightarrow> (case v of JInt n \<Rightarrow> lo \<le> n \<and> n \<le> hi | _ \<Rightarrow> False))"

definition chosen_int :: "(string \<times> json) list \<Rightarrow> string \<Rightarrow> int \<Rightarrow> int" where
  "chosen_int settings key old = (case map_of settings key of Some (JInt n) \<Rightarrow> n | _ \<Rightarrow> old)"

text \<open>A boolean passes \<open>isinstance(v, int)\<close>, but is 0 or 1 and so below every range.\<close>

lemma int_setting_ok_typed: "2 \<le> lo \<Longrightarrow> int_setting_ok s key lo hi = well_typed s key lo hi"
  by (auto simp: int_setting_ok_def well_typed_def as_int_def split: option.split json.split)

lemma int_setting_chosen: "well_typed s key lo hi \<Longrightarrow> int_setting s key old = chosen_int s key old"
  by (auto simp: int_setting_def chosen_int_def well_typed_def as_int_def split: option.splits json.splits)

text \<open>
  C38 (type). Whatever JSON the host sends as settings in the lobby: they are accepted exactly if the number of
  rounds, the duration of a turn and the number of players are integers in their ranges where they are given,
  and neither a boolean, a float, a string nor a nested value is taken for one. Accepted settings give the room
  these numbers, keep the others, and leave a configuration that is well formed, the word list and the
  password included, however ill typed these were; rejected ones change nothing.
\<close>

theorem settings_are_type_checked:
  assumes "find_room_by_player m0 i = (m, Some r)" "host_id r = i" "state r = LOBBY" "config_ok (config r)"
  shows "if well_typed s ''num_rounds'' 2 10 \<and> well_typed s ''turn_duration'' 30 180 \<and> well_typed s ''max_players'' 2 12
    then \<exists>c out. update_settings e m0 i s = (put_room (r\<lparr>config := c\<rparr>) m, out, SettingsUpdated (serialize_config c))
      \<and> config_ok c \<and> num_rounds c = chosen_int s ''num_rounds'' (num_rounds (config r))
      \<and> turn_duration c = chosen_int s ''turn_duration'' (turn_duration (config r))
      \<and> max_players c = chosen_int s ''max_players'' (max_players (config r))
    else update_settings e m0 i s = (m, [], Error INVALID_SETTINGS)"
proof -
  note typed = int_setting_ok_typed [of 2 s "''num_rounds''" 10] int_setting_ok_typed [of 30 s "''turn_duration''" 180]
    int_setting_ok_typed [of 2 s "''max_players''" 12]
  define c where "c = apply_settings s (config r)"
  have u: "update_settings e m0 i s =
      (if well_typed s ''num_rounds'' 2 10 \<and> well_typed s ''turn_duration'' 30 180 \<and> well_typed s ''max_players'' 2 12
       then (put_room (r\<lparr>config := c\<rparr>) m, broadcast_room e (r\<lparr>config := c\<rparr>) (SettingsUpdated (serialize_config c)),
             SettingsUpdated (serialize_config c))
       else (m, [], Error INVALID_SETTINGS))"
    using assms(1-3) by (simp add: update_settings_def typed Let_def c_def)
  show ?thesis
  proof (cases "well_typed s ''num_rounds'' 2 10 \<and> well_typed s ''turn_duration'' 30 180 \<and> well_typed s ''max_players'' 2 12")
    case True
    then have "config_ok c" using apply_settings_ok [OF assms(4), of s] by (simp add: typed c_def)
    moreover have "num_rounds c = chosen_int s ''num_rounds'' (num_rounds (config r))"
      "turn_duration c = chosen_int s ''turn_duration'' (turn_duration (config r))"
      "max_players c = chosen_int s ''max_players'' (max_players (config r))"
      using True by (simp_all add: c_def apply_settings_def int_setting_chosen [of s _ 2 10] int_setting_chosen [of s _ 30 180]
          int_setting_chosen [of s _ 2 12])
    ultimately show ?thesis using True u by auto
  next
    case False
    then show ?thesis using u by (simp only: if_False)
  qed
qed

theorem settings_are_type_checked_witness:
  "update_settings lone_env (single_manager trio) ''a'' [(''turn_duration'', JInt 60), (''num_rounds'', JBool True)]
     = (single_manager trio, [], Error INVALID_SETTINGS)"
proof -
  have "find_room_by_player (single_manager trio) ''a'' = (single_manager trio, Some trio)"
    by (simp add: find_room_by_player_def trio_simps)
  moreover have "host_id trio = ''a''" "state trio = LOBBY" "config_ok (config trio)"
    by (simp_all add: trio_def new_room_def default_config_def config_ok_def)
  ultimately show ?thesis
    using settings_are_type_checked [of "single_manager trio" "''a''" "single_manager trio" trio
        "[(''turn_duration'', JInt 60), (''num_rounds'', JBool True)]" lone_env]
    by (simp add: well_typed_def)
qed

end
