(* ===== verification/Py_Numbers.thy ===== *)
theory Py_Numbers
  imports Py_Float Py_Text "HOL-Library.AList" "HOL-Library.Multiset"
begin

text \<open>
  More of Python's numbers and text, used by the tools around the server: \<open>int\<close> and \<open>float\<close> of a string of
  decimal digits, \<open>round\<close> with a number of digits, \<open>split\<close> at a character, \<open>collections.Counter\<close>, and the
  element of a sorted list at a fraction of its length.
\<close>

subsection \<open>Numbers and separators\<close>

text \<open>\<open>round\<close> with a number of digits: the decimal nearest to the double, ties to even, as a double again.\<close>

definition py_round_to :: "nat \<Rightarrow> rat \<Rightarrow> rat" where
  "py_round_to n x = fl64 (of_int (py_round (x * 10 ^ n)) / 10 ^ n)"

definition is_digit :: "char \<Rightarrow> bool" where
  "is_digit c \<longleftrightarrow> 48 \<le> (of_char c :: nat) \<and> (of_char c :: nat) \<le> 57"

definition nat_of_digits :: "string \<Rightarrow> nat" where
  "nat_of_digits s = foldl (\<lambda>n c. 10 * n + (of_char c - 48)) 0 s"

definition read_nat :: "string \<Rightarrow> nat option" where
  "read_nat s = (if s \<noteq> [] \<and> list_all is_digit s then Some (nat_of_digits s) else None)"

definition read_int :: "string \<Rightarrow> int option" where
  "read_int s =
     (case py_strip s of
        [] \<Rightarrow> None
      | c # cs \<Rightarrow> if c = CHR ''-'' then map_option (\<lambda>n. - int n) (read_nat cs)
                  else if c = CHR ''+'' then map_option int (read_nat cs)
                  else map_option int (read_nat (c # cs)))"

definition read_float :: "string \<Rightarrow> rat option" where
  "read_float s =
     (case dropWhile (\<lambda>c. c \<noteq> CHR ''.'') s of
        [] \<Rightarrow> map_option (\<lambda>n. fl64 (of_int n)) (read_int s)
      | _ # fs \<Rightarrow> map_option (\<lambda>n. fl64 (of_nat n / 10 ^ length fs)) (read_nat (takeWhile (\<lambda>c. c \<noteq> CHR ''.'') s @ fs)))"

text \<open>\<open>split\<close> at a character.\<close>

fun split_on :: "char \<Rightarrow> string \<Rightarrow> string list" where
  "split_on c [] = [[]]"
| "split_on c (x # xs) =
     (if x = c then [] # split_on c xs else case split_on c xs of [] \<Rightarrow> [[x]] | w # ws \<Rightarrow> (x # w) # ws)"

lemma split_on_simps [simp]:
  "c \<notin> set xs \<Longrightarrow> split_on c (xs @ c # ys) = xs # split_on c ys" "c \<notin> set xs \<Longrightarrow> split_on c xs = [xs]"
  by (induction xs) auto

subsection \<open>Counters\<close>

text \<open>\<open>Counter\<close> keeps its keys in the order of their first occurrence; \<open>most_common\<close> is a stable sort.\<close>

definition count_up :: "'a \<Rightarrow> ('a \<times> nat) list \<Rightarrow> ('a \<times> nat) list" where
  "count_up k c = AList.update k (case map_of c k of None \<Rightarrow> 1 | Some n \<Rightarrow> n + 1) c"

definition count_get :: "'a \<Rightarrow> ('a \<times> nat) list \<Rightarrow> nat" where
  "count_get k c = (case map_of c k of None \<Rightarrow> 0 | Some n \<Rightarrow> n)"

definition counter :: "'a list \<Rightarrow> ('a \<times> nat) list" where
  "counter xs = fold count_up xs []"

definition most_common :: "('a \<times> nat) list \<Rightarrow> ('a \<times> nat) list" where
  "most_common c = sort_key (\<lambda>e. - int (snd e)) c"

lemma counter_snoc: "counter (xs @ [x]) = count_up x (counter xs)"
  by (simp add: counter_def)

lemma map_of_counter: "map_of (counter xs) k = (if k \<in> set xs then Some (count_list xs k) else None)"
proof (induction xs arbitrary: k rule: rev_induct)
  case (snoc x xs)
  show ?case by (auto simp: counter_snoc count_up_def update_conv' snoc count_notin)
qed (simp add: counter_def)

lemma counter_facts:
  "count_get k (counter xs) = count_list xs k" "distinct (map fst (counter xs))" "fst ` set (counter xs) = set xs"
proof -
  show "count_get k (counter xs) = count_list xs k" by (simp add: count_get_def map_of_counter count_notin)
  show "distinct (map fst (counter xs))"
    by (induction xs rule: rev_induct) (auto simp: counter_snoc count_up_def counter_def intro: distinct_update)
  have "fst ` set (counter xs) = dom (map_of (counter xs))" by (simp add: dom_map_of_conv_image_fst)
  then show "fst ` set (counter xs) = set xs" by (auto simp: map_of_counter dom_def)
qed

lemma most_common_facts: "mset (most_common c) = mset c" "set (most_common c) = set c" "sorted_wrt (\<lambda>a b. snd b \<le> snd a) (most_common c)"
proof -
  have "sorted_wrt (\<lambda>a b. - int (snd a) \<le> - int (snd b)) (most_common c)"
    using sorted_sort_key [of "\<lambda>e. - int (snd e)" c] by (simp add: most_common_def sorted_map)
  then show "sorted_wrt (\<lambda>a b. snd b \<le> snd a) (most_common c)" by simp
qed (simp_all add: most_common_def)

lemma map_of_most_common:
  assumes "distinct (map fst c)"
  shows "map_of (most_common c) = map_of c"
proof -
  have "mset (map fst (most_common c)) = mset (map fst c)" by (simp add: most_common_facts)
  then have "distinct (map fst (most_common c))" using assms mset_eq_imp_distinct_iff by blast
  with assms show ?thesis by (intro map_of_inject_set [THEN iffD2]) (simp_all add: most_common_facts)
qed

subsection \<open>Ranks\<close>

text \<open>\<open>int(n * share)\<close>, the index at a share of a sorted list.\<close>

definition rank_index :: "rat \<Rightarrow> nat \<Rightarrow> nat" where
  "rank_index share n = nat \<lfloor>fl64 (of_nat n * fl64 share)\<rfloor>"

lemma rank_index_le: "of_nat n * fl64 share \<le> of_nat m \<Longrightarrow> m \<le> 2 ^ 53 \<Longrightarrow> rank_index share n \<le> m"
proof -
  assume a: "of_nat n * fl64 share \<le> of_nat m" "m \<le> 2 ^ 53"
  have "fl64 (of_nat n * fl64 share) \<le> of_int (int m)"
    using fl64_mono [OF a(1)] fl64_of_int [of "int m"] a(2) by simp
  then show ?thesis by (simp add: rank_index_def floor_le_iff nat_le_iff)
qed

lemma rank_index_ge: "of_nat m \<le> of_nat n * fl64 share \<Longrightarrow> m \<le> 2 ^ 53 \<Longrightarrow> m \<le> rank_index share n"
proof -
  assume a: "of_nat m \<le> of_nat n * fl64 share" "m \<le> 2 ^ 53"
  have "of_int (int m) \<le> fl64 (of_nat n * fl64 share)"
    using fl64_mono [OF a(1)] fl64_of_int [of "int m"] a(2) by simp
  then show ?thesis by (simp add: rank_index_def le_floor_iff le_nat_iff)
qed

text \<open>The elements up to the index are at least the share \<open>p / q\<close> of all, if the double is near it.\<close>

lemma rank_index_covers:
  assumes "0 < q" "n \<le> 2 ^ 53" "fl64 share \<le> 1" "of_nat n * (of_nat p - of_nat q * fl64 share) \<le> 1"
  shows "p * n \<le> q * (rank_index share n + 1)"
proof (cases "p * n = 0")
  case False
  define m where "m = (p * n - 1) div q"
  have "q * m \<le> p * n - 1" by (simp add: m_def)
  then have "q * m + 1 \<le> p * n" using False by linarith
  then have "(of_nat (q * m + 1) :: rat) \<le> of_nat (p * n)" by (simp only: of_nat_le_iff)
  with assms(4) have "of_nat q * of_nat m \<le> of_nat q * (of_nat n * fl64 share)" by (simp add: algebra_simps)
  with assms(1) have m: "of_nat m \<le> of_nat n * fl64 share" by (simp add: mult_le_cancel_left)
  also have "\<dots> \<le> of_nat n" using assms(3) mult_left_le [of "fl64 share" "of_nat n :: rat"] by simp
  finally have "m \<le> 2 ^ 53" using assms(2) by simp
  from rank_index_ge [OF m this] have "q * (m + 1) \<le> q * (rank_index share n + 1)" by simp
  moreover have "p * n - 1 < q * (m + 1)"
    using assms(1) dividend_less_div_times [of q "p * n - 1"] by (simp add: m_def algebra_simps)
  ultimately show ?thesis by linarith
qed auto

lemma shares [simp]:
  "fl64 (9 / 10) = 8106479329266893 / 9007199254740992"
  "fl64 (95 / 100) = 8556839292003942 / 9007199254740992"
  "fl64 (19 / 20) = 8556839292003942 / 9007199254740992"
  "fl64 (99 / 100) = 8917127262193582 / 9007199254740992"
  by code_simp+

lemma sorted_rank:
  assumes "sorted s" "i < length s"
  shows "i + 1 \<le> length (filter (\<lambda>x. x \<le> s ! i) s)"
proof -
  have "\<forall>x \<in> set (take (i + 1) s). x \<le> s ! i"
    using assms by (auto simp: set_conv_nth sorted_iff_nth_mono)
  then have "filter (\<lambda>x. x \<le> s ! i) (take (i + 1) s) = take (i + 1) s" by (simp add: filter_id_conv)
  then have "length (filter (\<lambda>x. x \<le> s ! i) s) = length (take (i + 1) s) + length (filter (\<lambda>x. x \<le> s ! i) (drop (i + 1) s))"
    by (metis append_take_drop_id filter_append length_append)
  then show ?thesis using assms by simp
qed

text \<open>If the elements up to an index are a share of all, the element there bounds that share.\<close>

lemma share_below:
  assumes "i < length xs" "p * length xs \<le> q * (i + 1)"
  shows "p * length xs \<le> q * length (filter (\<lambda>x. x \<le> sort xs ! i) xs)"
proof -
  have "i + 1 \<le> length (filter (\<lambda>x. x \<le> sort xs ! i) (sort xs))" using assms(1) by (intro sorted_rank) simp_all
  then have "i + 1 \<le> length (filter (\<lambda>x. x \<le> sort xs ! i) xs)" by (simp add: filter_sort)
  from mult_le_mono2 [OF this] assms(2) show ?thesis by (rule le_trans [rotated])
qed

lemma length_filter_imp: "(\<And>x. P x \<Longrightarrow> Q x) \<Longrightarrow> length (filter P xs) \<le> length (filter Q xs)"
  by (induction xs) auto

lemma half_share: "(n :: nat) \<le> 2 * (n div 2 + 1)"
  by presburger

lemma rank_90:
  assumes "10 < n" "n \<le> 10 ^ 12"
  shows "rank_index (9 / 10) n < n" "9 * n \<le> 10 * (rank_index (9 / 10) n + 1)" "n div 2 \<le> rank_index (9 / 10) n"
proof -
  have n: "(11::rat) \<le> of_nat n" "(of_nat n :: rat) \<le> 10 ^ 12"
    using assms of_nat_mono [of 11 n, where ?'a = rat] of_nat_mono [of n "10 ^ 12", where ?'a = rat] by simp_all
  have "rank_index (9 / 10) n \<le> n - 1" using assms n by (intro rank_index_le) (simp_all add: of_nat_diff field_simps)
  then show "rank_index (9 / 10) n < n" using assms by linarith
  show "9 * n \<le> 10 * (rank_index (9 / 10) n + 1)"
    using assms n rank_index_covers [of 10 n "9 / 10" 9] by simp
  have "(of_nat (n div 2) :: rat) \<le> of_nat n / 2"
    using of_nat_div_le_of_nat by auto
  then show "n div 2 \<le> rank_index (9 / 10) n" using assms n by (intro rank_index_ge) simp_all
qed

lemma rank_95:
  assumes "0 < n" "n \<le> 10 ^ 12"
  shows "19 * n \<le> 20 * (rank_index (95 / 100) n + 1)" "rank_index (9 / 10) n \<le> rank_index (95 / 100) n"
    "20 < n \<Longrightarrow> rank_index (95 / 100) n < n"
proof -
  have n: "(1::rat) \<le> of_nat n" "(of_nat n :: rat) \<le> 10 ^ 12"
    using assms of_nat_mono [of 1 n, where ?'a = rat] of_nat_mono [of n "10 ^ 12", where ?'a = rat] by simp_all
  show "19 * n \<le> 20 * (rank_index (95 / 100) n + 1)"
    using assms n rank_index_covers [of 20 n "95 / 100" 19] by (simp add: field_simps)
  show "rank_index (9 / 10) n \<le> rank_index (95 / 100) n"
    unfolding rank_index_def by (intro nat_mono floor_mono fl64_mono mult_left_mono) simp_all
  assume "20 < n"
  then have "(21::rat) \<le> of_nat n" using of_nat_mono [of 21 n, where ?'a = rat] by simp
  then have "rank_index (95 / 100) n \<le> n - 1"
    using assms n by (intro rank_index_le) (simp_all add: of_nat_diff field_simps)
  then show "rank_index (95 / 100) n < n" using assms by linarith
qed

text \<open>Scaling by a power of two is exact, which keeps the index of few elements in range.\<close>

lemma binary_exponent_unique:
  assumes "0 < x" "2 powi e \<le> x" "x < 2 powi (e + 1)"
  shows "binary_exponent x = e"
proof -
  have "\<not> binary_exponent x + 1 \<le> e" "\<not> e + 1 \<le> binary_exponent x"
    using binary_exponent_bounds [OF assms(1)] assms pow2_mono [of "binary_exponent x + 1" e] pow2_mono [of "e + 1" "binary_exponent x"]
    by linarith+
  then show ?thesis by linarith
qed

lemma fl64_scale:
  assumes "0 < x"
  shows "fl64 (x / 32) = fl64 x / 32"
proof -
  let ?e = "binary_exponent x"
  have p: "(2::rat) powi (k - 5) = 2 powi k / 32" for k by (simp add: power_int_diff)
  have "2 powi (?e - 5) \<le> x / 32 \<and> x / 32 < 2 powi (?e - 5 + 1)"
    using binary_exponent_bounds [OF assms] p [of ?e] p [of "?e + 1"] by (simp add: algebra_simps divide_strict_right_mono)
  then have "binary_exponent (x / 32) = ?e - 5" using assms by (intro binary_exponent_unique) simp_all
  moreover have "(2::rat) powi (?e - 5 - 52) = ulp x / 32" using p [of "?e - 52"] by (simp add: algebra_simps)
  ultimately have "ulp (x / 32) = ulp x / 32" by simp
  moreover have "fl64 (x / 32) = of_int (py_round (x / 32 / ulp (x / 32))) * ulp (x / 32)" using assms by (intro fl64_pos) simp
  moreover have "x / 32 / (ulp x / 32) = x / ulp x" by simp
  ultimately show ?thesis using fl64_pos [OF assms] by (simp only: times_divide_eq_right)
qed

lemma rank_95_in_range:
  assumes "0 < n" "n \<le> 10 ^ 12"
  shows "rank_index (95 / 100) n < n"
proof -
  have n: "(1::rat) \<le> of_nat n" using assms of_nat_mono [of 1 n, where ?'a = rat] by simp
  define k where "k = 32 * int n - 1"
  have "fl64 (of_nat n * fl64 (95 / 100)) \<le> fl64 (of_int k / 32)" using n by (intro fl64_mono) (simp add: k_def)
  also have "\<dots> = of_int k / 32" using assms fl64_scale [of "of_int k"] fl64_of_int [of k] by (simp add: k_def)
  also have "\<dots> < of_nat n" by (simp add: k_def)
  finally have "\<lfloor>fl64 (of_nat n * fl64 (95 / 100))\<rfloor> < int n" by (simp only: floor_less_iff of_int_of_nat_eq)
  then show ?thesis using assms(1) by (simp add: rank_index_def nat_less_iff del: shares)
qed

end
