(* ===== verification/Load_Statistics.thy ===== *)
theory Load_Statistics
  imports Py_Numbers
begin

text \<open>
  The statistics of \<open>scripts/cluster_monitor.py\<close>: percentiles, the time a signal spends above a threshold,
  and the \<open>MetricAccumulator\<close> of a measurement window. Floats are doubles as in the theory \<open>Py_Float\<close>;
  the infinity that the minima start with is \<open>None\<close>.
\<close>

subsection \<open>Distributions\<close>

definition percentile :: "rat list \<Rightarrow> rat \<Rightarrow> rat" where
  "percentile vals pct =
     (let n = length vals
      in if n = 0 then 0
         else if n = 1 then vals ! 0
         else let rank = fl64 (fl64 (pct / 100) * of_nat (n - 1));
                  lo = nat \<lfloor>rank\<rfloor>;
                  hi = min (lo + 1) (n - 1);
                  frac = fl64 (rank - of_nat lo)
              in fl64 (vals ! lo + fl64 (fl64 (vals ! hi - vals ! lo) * frac)))"

record threshold_entry =
  pct_time :: rat
  seconds_above :: rat
  crossings :: nat
  longest_streak_sec :: rat

text \<open>The variables of the loop over the series.\<close>

record dwell =
  d_above :: nat
  d_crossings :: nat
  d_longest :: nat
  d_cur :: nat
  d_prev_above :: bool

definition dwell_start :: dwell where
  "dwell_start = \<lparr>d_above = 0, d_crossings = 0, d_longest = 0, d_cur = 0, d_prev_above = False\<rparr>"

definition dwell_step :: "rat \<Rightarrow> rat \<Rightarrow> dwell \<Rightarrow> dwell" where
  "dwell_step th v d =
     (if th \<le> v
      then let cur = d_cur d + 1
           in \<lparr>d_above = d_above d + 1,
               d_crossings = (if d_prev_above d then d_crossings d else d_crossings d + 1),
               d_longest = (if d_longest d < cur then cur else d_longest d), d_cur = cur, d_prev_above = True\<rparr>
      else d\<lparr>d_cur := 0, d_prev_above := False\<rparr>)"

definition threshold_entry_of :: "rat list \<Rightarrow> rat \<Rightarrow> rat \<Rightarrow> threshold_entry" where
  "threshold_entry_of series interval_sec th =
     (let d = fold (dwell_step th) series dwell_start; n = length series
      in \<lparr>pct_time = (if n \<noteq> 0 then py_round_to 2 (fl64 (fl64 (of_nat (d_above d) / of_nat n) * 100)) else 0),
          seconds_above = py_round_to 1 (fl64 (of_nat (d_above d) * interval_sec)),
          crossings = d_crossings d,
          longest_streak_sec = py_round_to 1 (fl64 (of_nat (d_longest d) * interval_sec))\<rparr>)"

text \<open>The dictionary by the integer part of the threshold, whose text is the key in the code.\<close>

definition threshold_stats :: "rat list \<Rightarrow> rat \<Rightarrow> rat list \<Rightarrow> (int \<times> threshold_entry) list" where
  "threshold_stats series interval_sec thresholds = map (\<lambda>th. (\<lfloor>th\<rfloor>, threshold_entry_of series interval_sec th)) thresholds"

definition CPU_THRESHOLDS :: "rat list" where "CPU_THRESHOLDS = [70, 85, 95]"

definition BURST_THRESHOLD :: rat where "BURST_THRESHOLD = 90"

record cpu_dist =
  cd_samples :: nat
  cd_interval_ms :: int
  cd_p50 :: rat
  cd_p90 :: rat
  cd_p95 :: rat
  cd_p99 :: rat
  cd_max :: rat
  cd_thresholds :: "(int \<times> threshold_entry) list"
  cd_burst_count :: nat
  cd_burst_pct :: rat

definition cpu_distribution :: "rat list \<Rightarrow> rat \<Rightarrow> cpu_dist" where
  "cpu_distribution series interval_sec =
     (let ms = py_round (fl64 (interval_sec * 1000))
      in if series = []
         then \<lparr>cd_samples = 0, cd_interval_ms = ms, cd_p50 = 0, cd_p90 = 0, cd_p95 = 0, cd_p99 = 0, cd_max = 0,
               cd_thresholds = [], cd_burst_count = 0, cd_burst_pct = 0\<rparr>
         else let s = sort series; burst = threshold_entry_of series interval_sec BURST_THRESHOLD
              in \<lparr>cd_samples = length series, cd_interval_ms = ms,
                  cd_p50 = py_round_to 2 (percentile s 50), cd_p90 = py_round_to 2 (percentile s 90),
                  cd_p95 = py_round_to 2 (percentile s 95), cd_p99 = py_round_to 2 (percentile s 99),
                  cd_max = py_round_to 2 (last s),
                  cd_thresholds = threshold_stats series interval_sec CPU_THRESHOLDS,
                  cd_burst_count = crossings burst, cd_burst_pct = pct_time burst\<rparr>)"

subsection \<open>The accumulator\<close>

text \<open>The fields \<open>*_min\<close>, \<open>*_max\<close>, \<open>*_sum\<close> and \<open>*_current\<close> of one measured quantity.\<close>

record gauge =
  g_min :: "rat option"
  g_max :: rat
  g_sum :: rat
  g_current :: rat

definition gauge_start :: "rat option \<Rightarrow> gauge" where
  "gauge_start m = \<lparr>g_min = m, g_max = 0, g_sum = 0, g_current = 0\<rparr>"

definition gauge_add :: "rat \<Rightarrow> gauge \<Rightarrow> gauge" where
  "gauge_add x g =
     \<lparr>g_min = Some (case g_min g of None \<Rightarrow> x | Some y \<Rightarrow> min y x), g_max = max (g_max g) x,
      g_sum = fl64 (g_sum g + x), g_current = x\<rparr>"

record sample =
  cpu_pct :: rat
  mem_mb :: rat
  mem_total_mb :: rat
  rx_mbps :: rat
  tx_mbps :: rat
  raw_rx_bytes :: int
  raw_tx_bytes :: int
  tcp_conns :: int

record accumulator =
  acc_role :: string
  cap_1s :: nat
  cap_fast :: nat
  fast_interval_sec :: rat
  acc_start_time :: rat
  samples_count :: nat
  cpu_series_1s :: "rat list"
  cpu_series_fast :: "rat list"
  cpu_gauge :: gauge
  mem_gauge :: gauge
  mem_total :: rat
  rx_gauge :: gauge
  tx_gauge :: gauge
  window_start_rx_bytes :: "int option"
  window_start_tx_bytes :: "int option"
  last_rx_bytes :: int
  last_tx_bytes :: int
  tcp_min :: int
  tcp_max :: int
  tcp_sum :: int
  tcp_current :: int

text \<open>A queue of bounded length: an element too many drops the oldest one.\<close>

definition deque_append :: "nat \<Rightarrow> 'a list \<Rightarrow> 'a \<Rightarrow> 'a list" where
  "deque_append maxlen q x = drop (length q + 1 - maxlen) (q @ [x])"

definition reset_window :: "rat \<Rightarrow> accumulator \<Rightarrow> accumulator" where
  "reset_window t a =
     a\<lparr>acc_start_time := t, samples_count := 0, cpu_series_1s := [], cpu_series_fast := [],
       cpu_gauge := gauge_start (Some 100), mem_gauge := gauge_start None, mem_total := 0,
       rx_gauge := gauge_start None, tx_gauge := gauge_start None,
       window_start_rx_bytes := None, window_start_tx_bytes := None, last_rx_bytes := 0, last_tx_bytes := 0,
       tcp_min := 9999999, tcp_max := 0, tcp_sum := 0, tcp_current := 0\<rparr>"

text \<open>\<open>__init__\<close>; the other fields are those of the reset.\<close>

definition new_accumulator :: "rat \<Rightarrow> string \<Rightarrow> accumulator" where
  "new_accumulator t role =
     reset_window t
       \<lparr>acc_role = role, cap_1s = 90000, cap_fast = 90000, fast_interval_sec = fl64 (2 / 10), acc_start_time = t,
        samples_count = 0, cpu_series_1s = [], cpu_series_fast = [], cpu_gauge = gauge_start None,
        mem_gauge = gauge_start None, mem_total = 0, rx_gauge = gauge_start None, tx_gauge = gauge_start None,
        window_start_rx_bytes = None, window_start_tx_bytes = None, last_rx_bytes = 0, last_tx_bytes = 0,
        tcp_min = 0, tcp_max = 0, tcp_sum = 0, tcp_current = 0\<rparr>"

definition record_sample :: "sample \<Rightarrow> accumulator \<Rightarrow> accumulator" where
  "record_sample s a =
     a\<lparr>samples_count := samples_count a + 1,
       window_start_rx_bytes := Some (case window_start_rx_bytes a of None \<Rightarrow> raw_rx_bytes s | Some b \<Rightarrow> b),
       window_start_tx_bytes := Some (case window_start_tx_bytes a of None \<Rightarrow> raw_tx_bytes s | Some b \<Rightarrow> b),
       last_rx_bytes := raw_rx_bytes s, last_tx_bytes := raw_tx_bytes s,
       cpu_series_1s := deque_append (cap_1s a) (cpu_series_1s a) (cpu_pct s), cpu_gauge := gauge_add (cpu_pct s) (cpu_gauge a),
       mem_gauge := gauge_add (mem_mb s) (mem_gauge a), mem_total := mem_total_mb s,
       rx_gauge := gauge_add (rx_mbps s) (rx_gauge a), tx_gauge := gauge_add (tx_mbps s) (tx_gauge a),
       tcp_current := tcp_conns s, tcp_min := min (tcp_min a) (tcp_conns s), tcp_max := max (tcp_max a) (tcp_conns s),
       tcp_sum := tcp_sum a + tcp_conns s\<rparr>"

definition record_fast_cpu :: "rat \<Rightarrow> accumulator \<Rightarrow> accumulator" where
  "record_fast_cpu x a = a\<lparr>cpu_series_fast := deque_append (cap_fast a) (cpu_series_fast a) x\<rparr>"

subsection \<open>The summary of a window\<close>

record stat =
  st_current :: rat
  st_min :: rat
  st_avg :: rat
  st_max :: rat

record traffic =
  tr_total_mb :: rat
  tr_total_gb :: rat

record window_summary =
  ws_role :: string
  ws_hostname :: string
  ws_duration :: rat
  ws_samples :: nat
  ws_cpu :: stat
  ws_dist_1s :: cpu_dist
  ws_dist_fast :: cpu_dist
  ws_memory :: stat
  ws_memory_total :: rat
  ws_rx :: stat
  ws_rx_total :: traffic
  ws_tx :: stat
  ws_tx_total :: traffic
  ws_tcp_current :: int
  ws_tcp_min :: int
  ws_tcp_avg :: rat
  ws_tcp_max :: int

definition gauge_summary :: "nat \<Rightarrow> nat \<Rightarrow> gauge \<Rightarrow> stat" where
  "gauge_summary digits n_samples g =
     \<lparr>st_current = py_round_to digits (g_current g),
      st_min = py_round_to digits (if 0 < n_samples then (case g_min g of None \<Rightarrow> 0 | Some x \<Rightarrow> x) else 0),
      st_avg = py_round_to digits (fl64 (g_sum g / of_nat (max 1 n_samples))),
      st_max = py_round_to digits (g_max g)\<rparr>"

text \<open>\<open>max(0, last - (start or last))\<close>: a start of zero bytes counts as no start.\<close>

definition window_bytes :: "int option \<Rightarrow> int \<Rightarrow> int" where
  "window_bytes start latest =
     max 0 (latest - (case start of None \<Rightarrow> latest | Some b \<Rightarrow> if b = 0 then latest else b))"

definition traffic_of :: "int \<Rightarrow> traffic" where
  "traffic_of bytes =
     \<lparr>tr_total_mb = py_round_to 2 (fl64 (fl64 (of_int bytes) / 1048576)),
      tr_total_gb = py_round_to 3 (fl64 (fl64 (of_int bytes) / 1073741824))\<rparr>"

definition get_summary :: "rat \<Rightarrow> string \<Rightarrow> accumulator \<Rightarrow> window_summary" where
  "get_summary t hostname a =
     (let n_samples = samples_count a
      in \<lparr>ws_role = acc_role a, ws_hostname = hostname,
          ws_duration = py_round_to 1 (max 1 (fl64 (t - acc_start_time a))), ws_samples = n_samples,
          ws_cpu = gauge_summary 2 n_samples (cpu_gauge a),
          ws_dist_1s = cpu_distribution (cpu_series_1s a) 1,
          ws_dist_fast = cpu_distribution (cpu_series_fast a) (fast_interval_sec a),
          ws_memory = gauge_summary 1 n_samples (mem_gauge a), ws_memory_total = py_round_to 1 (mem_total a),
          ws_rx = gauge_summary 2 n_samples (rx_gauge a),
          ws_rx_total = traffic_of (window_bytes (window_start_rx_bytes a) (last_rx_bytes a)),
          ws_tx = gauge_summary 2 n_samples (tx_gauge a),
          ws_tx_total = traffic_of (window_bytes (window_start_tx_bytes a) (last_tx_bytes a)),
          ws_tcp_current = tcp_current a, ws_tcp_min = (if 0 < n_samples then tcp_min a else 0),
          ws_tcp_avg = py_round_to 1 (fl64 (of_int (tcp_sum a) / of_nat (max 1 n_samples))), ws_tcp_max = tcp_max a\<rparr>)"

subsection \<open>Time above a threshold\<close>

text \<open>The lengths of the maximal stretches of a list whose elements satisfy \<open>P\<close>.\<close>

function runs :: "('a \<Rightarrow> bool) \<Rightarrow> 'a list \<Rightarrow> nat list" where
  "runs P xs =
     (case dropWhile (\<lambda>x. \<not> P x) xs of
        [] \<Rightarrow> []
      | y # ys \<Rightarrow> (length (takeWhile P ys) + 1) # runs P (dropWhile P ys))"
  by pat_completeness auto
termination
proof (relation "measure (length \<circ> snd)", simp)
  fix P :: "'a \<Rightarrow> bool" and xs y ys
  assume "dropWhile (\<lambda>x. \<not> P x) xs = y # ys"
  then have "length ys < length xs" by (metis length_Cons length_dropWhile_le Suc_le_eq)
  moreover have "length (dropWhile P ys) \<le> length ys" by (rule length_dropWhile_le)
  ultimately show "((P, dropWhile P ys), P, xs) \<in> measure (length \<circ> snd)" by simp
qed

declare runs.simps [simp del]

lemma runs_simps [simp]:
  "runs P [] = []" "\<not> P x \<Longrightarrow> runs P (x # xs) = runs P xs"
  "P x \<Longrightarrow> runs P (x # xs) = (length (takeWhile P xs) + 1) # runs P (dropWhile P xs)"
  by (subst runs.simps, simp) (subst (1 2) runs.simps, simp, subst runs.simps, simp)

text \<open>What the loop still adds when a stretch of \<open>d_cur\<close> elements is under way.\<close>

lemma dwell_fold:
  assumes "d_prev_above d = (0 < d_cur d)" and "d_cur d \<le> d_longest d"
  shows "d_above (fold (dwell_step th) xs d) = d_above d + length (filter ((\<le>) th) xs)
    \<and> d_crossings (fold (dwell_step th) xs d) =
        d_crossings d + length (runs ((\<le>) th) (if 0 < d_cur d then dropWhile ((\<le>) th) xs else xs))
    \<and> d_longest (fold (dwell_step th) xs d) =
        fold max (if 0 < d_cur d then (d_cur d + length (takeWhile ((\<le>) th) xs)) # runs ((\<le>) th) (dropWhile ((\<le>) th) xs)
                  else runs ((\<le>) th) xs) (d_longest d)"
  using assms
proof (induction xs arbitrary: d)
  case (Cons x xs)
  let ?e = "dwell_step th x d"
  have "d_prev_above ?e = (0 < d_cur ?e)" "d_cur ?e \<le> d_longest ?e"
    using Cons.prems by (auto simp: dwell_step_def Let_def)
  from Cons.IH [OF this] Cons.prems show ?case
    by (cases "th \<le> x"; cases "d_cur d = 0") (auto simp: dwell_step_def Let_def max_def)
qed (auto simp: max_def)

lemma sum_runs: "sum_list (runs P xs) = length (filter P xs)"
proof (induction P xs rule: runs.induct)
  case (1 P xs)
  show ?case
  proof (cases "dropWhile (\<lambda>x. \<not> P x) xs")
    case Nil
    then have "filter P xs = []" by (auto simp: dropWhile_eq_Nil_conv filter_empty_conv)
    moreover have "runs P xs = []" by (subst runs.simps) (simp add: Nil)
    ultimately show ?thesis by simp
  next
    case (Cons y ys)
    have "filter P xs = filter P (takeWhile (\<lambda>x. \<not> P x) xs @ y # ys)" using Cons takeWhile_dropWhile_id by metis
    also have "\<dots> = y # filter P ys"
      using hd_dropWhile [of "\<lambda>x. \<not> P x" xs] Cons by (auto simp: filter_empty_conv dest: set_takeWhileD)
    also have "filter P ys = takeWhile P ys @ filter P (dropWhile P ys)"
      by (metis filter_append filter_True set_takeWhileD takeWhile_dropWhile_id)
    finally have "length (filter P xs) = length (takeWhile P ys) + 1 + length (filter P (dropWhile P ys))" by simp
    moreover have "runs P xs = (length (takeWhile P ys) + 1) # runs P (dropWhile P ys)" by (subst runs.simps) (simp add: Cons)
    ultimately show ?thesis using 1 [OF Cons] by simp
  qed
qed

text \<open>
  What \<open>threshold_stats\<close> reports of a series, for any thresholds: with the lengths of its
  maximal stretches at or above the threshold, the share and the seconds of time above come from their
  sum, the crossings are their number, and the longest streak is the greatest of them.
\<close>

theorem threshold_stats_correct:
  "threshold_stats series iv thresholds =
     map (\<lambda>th. let rs = runs ((\<le>) th) series; n = length series in
       (\<lfloor>th\<rfloor>, \<lparr>pct_time = (if series = [] then 0 else py_round_to 2 (fl64 (fl64 (of_nat (sum_list rs) / of_nat n) * 100))),
              seconds_above = py_round_to 1 (fl64 (of_nat (sum_list rs) * iv)),
              crossings = length rs,
              longest_streak_sec = py_round_to 1 (fl64 (of_nat (Max (set (0 # rs))) * iv))\<rparr>)) thresholds"
proof -
  have "d_above (fold (dwell_step th) series dwell_start) = sum_list (runs ((\<le>) th) series)
    \<and> d_crossings (fold (dwell_step th) series dwell_start) = length (runs ((\<le>) th) series)
    \<and> d_longest (fold (dwell_step th) series dwell_start) = Max (set (0 # runs ((\<le>) th) series))" for th
    using dwell_fold [of dwell_start th series] by (simp add: dwell_start_def sum_runs Max.set_eq_fold del: list.set)
  then show ?thesis by (simp add: threshold_stats_def threshold_entry_of_def Let_def del: list.set)
qed

subsection \<open>Running and batch statistics\<close>

text \<open>The statistics of a whole list of values; \<open>init\<close> holds the value the minimum starts with, if any.\<close>

definition stat_of :: "nat \<Rightarrow> rat list \<Rightarrow> rat list \<Rightarrow> stat" where
  "stat_of digits init ys =
     \<lparr>st_current = py_round_to digits (last ys), st_min = py_round_to digits (Min (set (init @ ys))),
      st_avg = py_round_to digits (fl64 (foldl (\<lambda>total y. fl64 (total + y)) 0 ys / of_nat (length ys))),
      st_max = py_round_to digits (Max (set (0 # ys)))\<rparr>"

lemma gauge_fold:
  assumes "ys \<noteq> []"
  shows "gauge_summary digits (length ys) (fold gauge_add ys (gauge_start m)) =
    stat_of digits (case m of None \<Rightarrow> [] | Some x \<Rightarrow> [x]) ys"
proof -
  have "g_sum (fold gauge_add ys g) = foldl (\<lambda>total y. fl64 (total + y)) (g_sum g) ys
    \<and> g_max (fold gauge_add ys g) = fold max ys (g_max g)
    \<and> g_current (fold gauge_add ys g) = (if ys = [] then g_current g else last ys)" for g
    by (induction ys arbitrary: g) (simp_all add: gauge_add_def max.commute)
  moreover have min: "g_min (fold gauge_add ys g) = Some (fold min ys x)" if "g_min g = Some x" for g x ys
    using that by (induction ys arbitrary: g x) (simp_all add: gauge_add_def min.commute)
  moreover have "g_min (fold gauge_add ys (gauge_start None)) = Some (fold min (tl ys) (hd ys))"
    using assms min [of "gauge_add (hd ys) (gauge_start None)" "hd ys" "tl ys"]
    by (cases ys) (simp_all add: gauge_start_def gauge_add_def)
  moreover have "max (Suc 0) (length ys) = length ys" using assms by (cases ys) simp_all
  moreover have "Min (set ys) = fold min (tl ys) (hd ys)" using assms by (cases ys) (simp_all add: Min.set_eq_fold del: list.set)
  ultimately show ?thesis
    using assms by (cases m) (simp_all add: gauge_summary_def stat_of_def gauge_start_def Max.set_eq_fold Min.set_eq_fold del: list.set)
qed

lemma deque_append_drop: "deque_append n (drop (length xs - n) xs) x = drop (length (xs @ [x]) - n) (xs @ [x])"
  by (cases "length xs \<le> n") (simp_all add: deque_append_def Suc_diff_le)

lemma window_fields:
  fixes a :: accumulator and t :: rat
  defines "w xs \<equiv> fold record_sample xs (reset_window t a)"
  shows "samples_count (w xs) = length xs \<and> cap_1s (w xs) = cap_1s a
    \<and> cpu_series_1s (w xs) = drop (length xs - cap_1s a) (map cpu_pct xs)
    \<and> cpu_gauge (w xs) = fold gauge_add (map cpu_pct xs) (gauge_start (Some 100))
    \<and> mem_gauge (w xs) = fold gauge_add (map mem_mb xs) (gauge_start None)
    \<and> rx_gauge (w xs) = fold gauge_add (map rx_mbps xs) (gauge_start None)
    \<and> tx_gauge (w xs) = fold gauge_add (map tx_mbps xs) (gauge_start None)
    \<and> window_start_rx_bytes (w xs) = (case xs of [] \<Rightarrow> None | x # _ \<Rightarrow> Some (raw_rx_bytes x))
    \<and> window_start_tx_bytes (w xs) = (case xs of [] \<Rightarrow> None | x # _ \<Rightarrow> Some (raw_tx_bytes x))
    \<and> last_rx_bytes (w xs) = (if xs = [] then 0 else raw_rx_bytes (last xs))
    \<and> last_tx_bytes (w xs) = (if xs = [] then 0 else raw_tx_bytes (last xs))
    \<and> tcp_min (w xs) = fold min (map tcp_conns xs) 9999999 \<and> tcp_max (w xs) = fold max (map tcp_conns xs) 0
    \<and> tcp_sum (w xs) = sum_list (map tcp_conns xs) \<and> tcp_current (w xs) = (if xs = [] then 0 else tcp_conns (last xs))"
proof (induction xs rule: rev_induct)
  case (snoc x xs)
  have "deque_append (cap_1s a) (drop (length xs - cap_1s a) (map cpu_pct xs)) (cpu_pct x) =
      drop (length (xs @ [x]) - cap_1s a) (map cpu_pct (xs @ [x]))"
    using deque_append_drop [of "cap_1s a" "map cpu_pct xs" "cpu_pct x"] by simp
  with snoc show ?case
    by (simp add: w_def record_sample_def min.commute max.commute split: list.split)
qed (simp add: w_def reset_window_def)

text \<open>
  C35 (refinement). The running statistics of a measurement window are the statistics of all its samples:
  after a reset and any samples, at least one, the summary counts them, and shows the last, least, mean and
  greatest value of each quantity (a CPU minimum of at most 100, maxima of at least 0), and the series of
  CPU values holds the newest ones up to its capacity. The traffic of the window is the difference of the
  byte counters of its last and first sample, or 0 if the counter went down, and also 0 if the first
  counter was 0, whatever was transferred since.
\<close>

theorem window_summary_is_batch:
  fixes a :: accumulator and t now' :: rat and host :: string
  assumes "xs \<noteq> []"
  defines "b \<equiv> fold record_sample xs (reset_window t a)"
  defines "s \<equiv> get_summary now' host b"
    and "bytes \<equiv> \<lambda>f :: sample \<Rightarrow> int. if f (hd xs) = 0 then 0 else max 0 (f (last xs) - f (hd xs))"
  shows "ws_samples s = length xs \<and> cpu_series_1s b = drop (length xs - cap_1s a) (map cpu_pct xs)
    \<and> ws_cpu s = stat_of 2 [100] (map cpu_pct xs) \<and> ws_memory s = stat_of 1 [] (map mem_mb xs)
    \<and> ws_rx s = stat_of 2 [] (map rx_mbps xs) \<and> ws_tx s = stat_of 2 [] (map tx_mbps xs)
    \<and> ws_rx_total s = traffic_of (bytes raw_rx_bytes) \<and> ws_tx_total s = traffic_of (bytes raw_tx_bytes)
    \<and> ws_tcp_current s = tcp_conns (last xs) \<and> ws_tcp_min s = Min (set (9999999 # map tcp_conns xs))
    \<and> ws_tcp_max s = Max (set (0 # map tcp_conns xs))
    \<and> ws_tcp_avg s = py_round_to 1 (fl64 (of_int (sum_list (map tcp_conns xs)) / of_nat (length xs)))"
proof -
  note f = window_fields [of xs t a, folded b_def]
  note g = gauge_fold [of "map cpu_pct xs" 2 "Some 100"] gauge_fold [of "map mem_mb xs" 1 None]
    gauge_fold [of "map rx_mbps xs" 2 None] gauge_fold [of "map tx_mbps xs" 2 None]
  have bytes: "window_bytes (case xs of [] \<Rightarrow> None | x # _ \<Rightarrow> Some (h x)) (h (last xs)) = bytes h" for h
    using assms(1) by (cases xs) (simp_all add: window_bytes_def bytes_def)
  have n: "max (Suc 0) (length xs) = length xs" "0 < length xs" using assms(1) by (cases xs; simp)+
  show ?thesis
    using f g assms(1) by (simp add: n s_def get_summary_def Let_def bytes Min.set_eq_fold Max.set_eq_fold del: list.set)
qed

theorem window_summary_is_batch_witness:
  "ws_rx_total (get_summary 9 ''h'' (fold record_sample
     [\<lparr>cpu_pct = 20, mem_mb = 1000, mem_total_mb = 16000, rx_mbps = 10, tx_mbps = 50, raw_rx_bytes = 0, raw_tx_bytes = 5, tcp_conns = 100\<rparr>,
      \<lparr>cpu_pct = 40, mem_mb = 2000, mem_total_mb = 16000, rx_mbps = 30, tx_mbps = 150, raw_rx_bytes = 9000000, raw_tx_bytes = 6, tcp_conns = 300\<rparr>]
     (reset_window 0 (new_accumulator 0 ''worker'')))) = traffic_of 0"
  by (subst window_summary_is_batch [THEN conjunct2, THEN conjunct2, THEN conjunct2, THEN conjunct2, THEN conjunct2,
      THEN conjunct2, THEN conjunct1]) simp_all

end
