(* ===== verification/Load_Agent.thy ===== *)
theory Load_Agent
  imports Load_Statistics Lobby
begin

text \<open>
  The agent of \<open>scripts/cluster_monitor.py\<close>: the sampler that reads the files of \<open>/proc\<close>, the bodies of its two
  loops, the HTTP handler, and the commands that read the agents of all nodes. The contents of a file are
  its lines, \<open>None\<close> if it cannot be read. The decimal numbers of \<open>/proc\<close> are read; other literals that
  Python accepts (exponents, underscores, infinities) count as errors. The numbers of a report are
  kept as they are, without the format of the printed table.
\<close>

subsection \<open>The sampler\<close>

record sampler =
  is_linux :: bool
  last_cpu_time :: "(rat \<times> rat) option"
  last_net_bytes :: "(rat \<times> int \<times> int) option"

definition new_sampler :: "bool \<Rightarrow> sampler" where
  "new_sampler linux = \<lparr>is_linux = linux, last_cpu_time = None, last_net_bytes = None\<rparr>"

definition sample_cpu_percent :: "string option \<Rightarrow> sampler \<Rightarrow> rat \<times> sampler" where
  "sample_cpu_percent first_line sm =
     (case (is_linux sm, first_line) of
        (True, Some l) \<Rightarrow>
          (case py_split l of
             [] \<Rightarrow> (0, sm)
           | w # ws \<Rightarrow>
               if w \<noteq> ''cpu'' then (0, sm)
               else case those (map read_float (take 7 ws)) of
                 Some [user, nice, system, idle, iowait, irq, softirq] \<Rightarrow>
                   let work = fl64 (fl64 (fl64 (fl64 (user + nice) + system) + irq) + softirq);
                       all_time = fl64 (fl64 (work + idle) + iowait);
                       sm' = sm\<lparr>last_cpu_time := Some (work, all_time)\<rparr>
                   in (case last_cpu_time sm of
                         None \<Rightarrow> (0, sm')
                       | Some (prev_work, prev_total) \<Rightarrow>
                           let delta_total = fl64 (all_time - prev_total); delta_work = fl64 (work - prev_work)
                           in (if delta_total \<le> 0 then 0
                               else max 0 (min 100 (fl64 (fl64 (delta_work / delta_total) * 100))), sm'))
               | _ \<Rightarrow> (0, sm))
      | _ \<Rightarrow> (0, sm))"

definition second_field :: "string \<Rightarrow> rat option" where
  "second_field l = (case py_split l of _ # w # _ \<Rightarrow> read_float w | _ \<Rightarrow> None)"

text \<open>The loop over the lines of \<open>/proc/meminfo\<close>, which ends when both numbers are found.\<close>

fun scan_meminfo :: "string list \<Rightarrow> rat \<times> rat \<Rightarrow> (rat \<times> rat) option" where
  "scan_meminfo [] acc = Some acc"
| "scan_meminfo (l # ls) (kb, avail) =
     (case (if prefix ''MemTotal:'' l then map_option (\<lambda>x. (x, avail)) (second_field l)
            else if prefix ''MemAvailable:'' l then map_option (\<lambda>x. (kb, x)) (second_field l)
            else Some (kb, avail)) of
        None \<Rightarrow> None
      | Some (kb', avail') \<Rightarrow> if kb' \<noteq> 0 \<and> avail' \<noteq> 0 then Some (kb', avail') else scan_meminfo ls (kb', avail'))"

definition sample_memory_mb :: "string list option \<Rightarrow> sampler \<Rightarrow> rat \<times> rat \<times> rat" where
  "sample_memory_mb meminfo sm =
     (case (is_linux sm, meminfo) of
        (True, Some ls) \<Rightarrow>
          (case scan_meminfo ls (0, 0) of
             None \<Rightarrow> (0, 0, 0)
           | Some (mem_total_kb, mem_avail_kb) \<Rightarrow>
               if mem_total_kb \<le> 0 then (0, 0, 0)
               else let used_kb = max 0 (fl64 (mem_total_kb - mem_avail_kb))
                    in (fl64 (used_kb / 1024), fl64 (mem_total_kb / 1024), fl64 (fl64 (used_kb / mem_total_kb) * 100)))
      | _ \<Rightarrow> (0, 0, 0))"

text \<open>The sums over the interfaces but the loopback one.\<close>

fun net_totals :: "string list \<Rightarrow> int \<times> int \<Rightarrow> (int \<times> int) option" where
  "net_totals [] acc = Some acc"
| "net_totals (l # ls) (rx, tx) =
     (let line = py_strip l
      in if line = [] \<or> CHR '':'' \<notin> set line then net_totals ls (rx, tx)
         else let iface = py_strip (takeWhile (\<lambda>c. c \<noteq> CHR '':'') line);
                  parts = py_split (tl (dropWhile (\<lambda>c. c \<noteq> CHR '':'') line))
              in if iface = ''lo'' then net_totals ls (rx, tx)
                 else if length parts < 9 then None
                 else case (read_int (parts ! 0), read_int (parts ! 8)) of
                        (Some r, Some t) \<Rightarrow> net_totals ls (rx + r, tx + t)
                      | _ \<Rightarrow> None)"

definition sample_network_rates :: "rat \<Rightarrow> string list option \<Rightarrow> sampler \<Rightarrow> (rat \<times> rat \<times> int \<times> int) \<times> sampler" where
  "sample_network_rates t net_dev sm =
     (case (is_linux sm, net_dev) of
        (True, Some ls) \<Rightarrow>
          (case net_totals (drop 2 ls) (0, 0) of
             None \<Rightarrow> ((0, 0, 0, 0), sm)
           | Some (rx, tx) \<Rightarrow>
               let sm' = sm\<lparr>last_net_bytes := Some (t, rx, tx)\<rparr>
               in (case last_net_bytes sm of
                     None \<Rightarrow> ((0, 0, rx, tx), sm')
                   | Some (prev_time, prev_rx, prev_tx) \<Rightarrow>
                       let elapsed = max (fl64 (1 / 1000)) (fl64 (t - prev_time));
                           mbps = (\<lambda>d. fl64 (fl64 (fl64 (of_int (max 0 d)) * 8) / fl64 (1000000 * elapsed)))
                       in ((mbps (rx - prev_rx), mbps (tx - prev_tx), rx, tx), sm')))
      | _ \<Rightarrow> ((0, 0, 0, 0), sm))"

text \<open>The two files list the connections of TCP over IPv4 and IPv6; the state 01 is an established one.\<close>

definition established :: "string list option \<Rightarrow> nat" where
  "established lines =
     (case lines of
        None \<Rightarrow> 0
      | Some ls \<Rightarrow> length (filter (\<lambda>l. let parts = py_split (py_strip l) in 4 \<le> length parts \<and> parts ! 3 = ''01'') (drop 1 ls)))"

definition sample_tcp_connections :: "string list option \<Rightarrow> string list option \<Rightarrow> sampler \<Rightarrow> int" where
  "sample_tcp_connections tcp tcp6 sm = (if is_linux sm then int (established tcp + established tcp6) else 0)"

subsection \<open>The loops of the agent\<close>

record proc_files =
  f_stat :: "string option" \<comment> \<open>the first line\<close>
  f_meminfo :: "string list option"
  f_net_dev :: "string list option"
  f_tcp :: "string list option"
  f_tcp6 :: "string list option"

text \<open>One round of \<open>run_sampler_loop\<close> but for the copy of the summary on disk, and of \<open>run_fast_cpu_loop\<close>.\<close>

definition sampler_tick :: "rat \<Rightarrow> proc_files \<Rightarrow> sampler \<times> accumulator \<Rightarrow> sampler \<times> accumulator" where
  "sampler_tick t f x =
     (case x of (sm, a) \<Rightarrow>
        let (cpu, sm1) = sample_cpu_percent (f_stat f) sm;
            (used_mb, tot_mb, percent) = sample_memory_mb (f_meminfo f) sm1;
            ((rx, tx, tot_rx, tot_tx), sm2) = sample_network_rates t (f_net_dev f) sm1;
            conns = sample_tcp_connections (f_tcp f) (f_tcp6 f) sm2
        in (sm2, record_sample \<lparr>cpu_pct = cpu, mem_mb = used_mb, mem_total_mb = tot_mb, rx_mbps = rx, tx_mbps = tx,
                                raw_rx_bytes = tot_rx, raw_tx_bytes = tot_tx, tcp_conns = conns\<rparr> a))"

definition fast_tick :: "string option \<Rightarrow> sampler \<times> accumulator \<Rightarrow> sampler \<times> accumulator" where
  "fast_tick stat x = (case x of (sm, a) \<Rightarrow> case sample_cpu_percent stat sm of (cpu, sm') \<Rightarrow> (sm', record_fast_cpu cpu a))"

subsection \<open>The HTTP handler\<close>

text \<open>The body of a response: the summary, the acknowledged reset, the named metrics with their values.\<close>

datatype agent_body = BodySummary window_summary | BodyReset rat | BodyMetrics "(string \<times> rat) list" | BodyOk | BodyNone

definition url_path :: "string \<Rightarrow> string" where
  "url_path url = takeWhile (\<lambda>c. c \<noteq> CHR ''?'') url"

definition metrics_of :: "window_summary \<Rightarrow> (string \<times> rat) list" where
  "metrics_of s =
     [(''node_cpu_utilization_percent'', st_current (ws_cpu s)), (''node_cpu_p95_percent'', cd_p95 (ws_dist_1s s)),
      (''node_memory_used_mb'', st_current (ws_memory s)), (''node_memory_total_mb'', ws_memory_total s),
      (''node_network_rx_mbps'', st_current (ws_rx s)), (''node_network_tx_mbps'', st_current (ws_tx s)),
      (''node_network_rx_gigabytes_total'', tr_total_gb (ws_rx_total s)),
      (''node_network_tx_gigabytes_total'', tr_total_gb (ws_tx_total s)),
      (''node_tcp_connections_open'', of_int (ws_tcp_current s))]"

definition agent_get :: "rat \<Rightarrow> string \<Rightarrow> string \<Rightarrow> accumulator \<Rightarrow> accumulator \<times> nat \<times> agent_body" where
  "agent_get t hostname url a =
     (let path = url_path url
      in if path \<in> {''/summary'', ''/stats'', ''/''} then (a, 200, BodySummary (get_summary t hostname a))
         else if path \<in> {''/reset'', ''/metrics/reset''} then (reset_window t a, 200, BodyReset t)
         else if path = ''/metrics'' then (a, 200, BodyMetrics (metrics_of (get_summary t hostname a)))
         else if path = ''/health'' then (a, 200, BodyOk)
         else (a, 404, BodyNone))"

definition agent_post :: "rat \<Rightarrow> string \<Rightarrow> accumulator \<Rightarrow> accumulator \<times> nat \<times> agent_body" where
  "agent_post t url a =
     (if url_path url \<in> {''/reset'', ''/metrics/reset''} then (reset_window t a, 200, BodyReset t) else (a, 404, BodyNone))"

subsection \<open>The commands\<close>

text \<open>\<open>None\<close> is the \<open>ValueError\<close> of a port that is no number.\<close>

definition parse_node :: "int \<Rightarrow> string \<Rightarrow> (string \<times> string \<times> int) option" where
  "parse_node default_port item =
     (if CHR '':'' \<in> set item
      then case split_on CHR '':'' item of
             [role, host] \<Rightarrow> Some (role, host, default_port)
           | role # host # port_str # _ \<Rightarrow> map_option (\<lambda>port. (role, host, port)) (read_int port_str)
           | _ \<Rightarrow> Some (''node'', item, default_port)
      else Some (''node'', item, default_port))"

definition parse_nodes_arg :: "string \<Rightarrow> int \<Rightarrow> (string \<times> string \<times> int) list option" where
  "parse_nodes_arg nodes_arg default_port =
     those (map (parse_node default_port) (filter (\<lambda>item. item \<noteq> []) (map py_strip (split_on CHR '','' nodes_arg))))"

text \<open>
  A reset is sent by POST and, if that raises, by GET: \<open>None\<close> is an exception, otherwise the status of the
  answer.
\<close>

definition reset_node_metrics :: "nat option \<Rightarrow> nat option \<Rightarrow> bool" where
  "reset_node_metrics post get =
     (case post of Some status \<Rightarrow> status = 200 | None \<Rightarrow> (case get of Some status \<Rightarrow> status = 200 | None \<Rightarrow> False))"

text \<open>The verdict over a node's CPU distribution in \<open>format_cpu_saturation_table\<close>; missing numbers are 0.\<close>

datatype verdict = SATURATED | HOT | BUSY | HEALTHY

definition cpu_verdict :: "cpu_dist \<Rightarrow> verdict" where
  "cpu_verdict d =
     (let entry = map_of (cd_thresholds d);
          share = (\<lambda>k. case entry k of None \<Rightarrow> 0 | Some e \<Rightarrow> pct_time e);
          maxrun85 = (case entry 85 of None \<Rightarrow> 0 | Some e \<Rightarrow> longest_streak_sec e);
          p95 = cd_p95 d
      in if 10 \<le> share 95 \<or> 30 \<le> maxrun85 then SATURATED
         else if 20 \<le> share 85 \<or> 85 \<le> p95 then HOT
         else if 25 \<le> share 70 \<or> 70 \<le> p95 then BUSY
         else HEALTHY)"

text \<open>The last row of \<open>format_table\<close>, if a node answered.\<close>

record fleet =
  fl_nodes :: nat
  fl_cpu_sum :: rat
  fl_peak_rx :: rat
  fl_peak_tx :: rat
  fl_rx_gb :: rat
  fl_tx_gb :: rat

definition fleet_add :: "window_summary option \<Rightarrow> fleet \<Rightarrow> fleet" where
  "fleet_add data fl =
     (case data of
        None \<Rightarrow> fl
      | Some s \<Rightarrow>
          \<lparr>fl_nodes = fl_nodes fl + 1, fl_cpu_sum = fl64 (fl_cpu_sum fl + st_avg (ws_cpu s)),
           fl_peak_rx = max (fl_peak_rx fl) (st_max (ws_rx s)), fl_peak_tx = max (fl_peak_tx fl) (st_max (ws_tx s)),
           fl_rx_gb = fl64 (fl_rx_gb fl + tr_total_gb (ws_rx_total s)), fl_tx_gb = fl64 (fl_tx_gb fl + tr_total_gb (ws_tx_total s))\<rparr>)"

definition fleet_row :: "window_summary option list \<Rightarrow> (fleet \<times> rat) option" where
  "fleet_row results =
     (let fl = fold fleet_add results \<lparr>fl_nodes = 0, fl_cpu_sum = 0, fl_peak_rx = 0, fl_peak_tx = 0, fl_rx_gb = 0, fl_tx_gb = 0\<rparr>
      in if 0 < fl_nodes fl then Some (fl, fl64 (fl_cpu_sum fl / of_nat (fl_nodes fl))) else None)"

subsection \<open>Facts\<close>

text \<open>Whatever the files hold, what the sampler reports is in range.\<close>

lemma sampler_values_in_range:
  "0 \<le> fst (sample_cpu_percent stat sm) \<and> fst (sample_cpu_percent stat sm) \<le> 100"
  "0 \<le> fst (fst (sample_network_rates t dev sm)) \<and> 0 \<le> fst (snd (fst (sample_network_rates t dev sm)))"
  "0 \<le> fst (sample_memory_mb mem sm)"
proof -
  show "0 \<le> fst (sample_cpu_percent stat sm) \<and> fst (sample_cpu_percent stat sm) \<le> 100"
    by (auto simp: sample_cpu_percent_def Let_def split: option.split list.split bool.split prod.split)
  have "0 \<le> fl64 (fl64 (fl64 (of_int (max 0 d)) * 8) / fl64 (1000000 * max (fl64 (1 / 1000)) x))" for d x
    by (intro fl64_nonneg divide_nonneg_nonneg mult_nonneg_nonneg) (simp_all add: fl64_nonneg le_max_iff_disj)
  then show "0 \<le> fst (fst (sample_network_rates t dev sm)) \<and> 0 \<le> fst (snd (fst (sample_network_rates t dev sm)))"
    by (simp add: sample_network_rates_def Let_def split: option.split bool.split prod.split)
  show "0 \<le> fst (sample_memory_mb mem sm)"
    by (auto simp: sample_memory_mb_def Let_def fl64_nonneg split: option.split bool.split)
qed

text \<open>The argument that names a list of nodes; the default port is left out.\<close>

definition print_node :: "nat \<Rightarrow> string \<times> string \<times> nat \<Rightarrow> string" where
  "print_node d n = (case n of (role, host, port) \<Rightarrow> role @ '':'' @ host @ (if port = d then [] else '':'' @ digits port))"

definition printable_node :: "string \<times> string \<times> nat \<Rightarrow> bool" where
  "printable_node n =
     (case n of (role, host, port) \<Rightarrow>
        CHR '','' \<notin> set (role @ host) \<and> CHR '':'' \<notin> set (role @ host)
        \<and> (role = [] \<or> \<not> is_space (hd role)) \<and> (host = [] \<or> \<not> is_space (last host)))"

lemma digit_char: "k < 10 \<Longrightarrow> (of_char (char_of (48 + k) :: char) :: nat) = 48 + k"
  by simp

lemma digits_facts: "digits n \<noteq> [] \<and> list_all is_digit (digits n) \<and> nat_of_digits (digits n) = n"
proof (induction n rule: digits.induct)
  case (1 n)
  show ?case
  proof (cases "n < 10")
    case True
    then show ?thesis by (simp add: digits.simps [of n] is_digit_def nat_of_digits_def)
  next
    case False
    with 1 [OF this] show ?thesis
      by (simp add: digits.simps [of n] is_digit_def nat_of_digits_def)
  qed
qed

lemma digit_plain: "is_digit c \<Longrightarrow> \<not> is_space c \<and> c \<noteq> CHR ''-'' \<and> c \<noteq> CHR ''+'' \<and> c \<noteq> CHR '','' \<and> c \<noteq> CHR '':''"
  by (auto simp: is_digit_def is_space_def)

lemma py_strip_id: "s = [] \<or> \<not> is_space (hd s) \<and> \<not> is_space (last s) \<Longrightarrow> py_strip s = s"
proof -
  have d: "xs = [] \<or> \<not> is_space (hd xs) \<Longrightarrow> dropWhile is_space xs = xs" for xs by (cases xs) auto
  show "s = [] \<or> \<not> is_space (hd s) \<and> \<not> is_space (last s) \<Longrightarrow> py_strip s = s"
    using d [of s] d [of "rev s"] by (auto simp: py_strip_def hd_rev)
qed

lemma read_int_digits: "read_int (digits n) = Some (int n)"
proof -
  note f = digits_facts [of n]
  then obtain c cs where d: "digits n = c # cs" "is_digit c" by (cases "digits n") auto
  have "is_digit (last (digits n))" using f by (metis last_in_set list_all_iff)
  with d f have "py_strip (digits n) = digits n" by (intro py_strip_id) (simp add: digit_plain)
  with d f digit_plain [OF d(2)] show ?thesis by (simp add: read_int_def read_nat_def)
qed

lemma print_node_facts:
  assumes "printable_node (role, host, port)"
  shows "CHR '','' \<notin> set (print_node d (role, host, port))" "py_strip (print_node d (role, host, port)) = print_node d (role, host, port)"
    "parse_node (int d) (print_node d (role, host, port)) = Some (role, host, int port)"
proof -
  have dig: "CHR '','' \<notin> set (digits n)" "CHR '':'' \<notin> set (digits n)" "\<not> is_space (last (digits n))" for n
    using digits_facts [of n] digit_plain last_in_set [of "digits n"] by (auto simp: list_all_iff)
  have colon: "\<not> is_space (CHR '':'')" by (simp add: is_space_def)
  show "CHR '','' \<notin> set (print_node d (role, host, port))"
    using assms dig(1) by (simp add: print_node_def printable_node_def)
  show "py_strip (print_node d (role, host, port)) = print_node d (role, host, port)"
    using assms dig(3) [of port] digits_facts [of port] colon
    by (intro py_strip_id) (auto simp: print_node_def printable_node_def hd_append last_append)
  show "parse_node (int d) (print_node d (role, host, port)) = Some (role, host, int port)"
    using assms dig(2) [of port] read_int_digits [of port]
    by (simp add: parse_node_def print_node_def printable_node_def)
qed

lemma split_join:
  "ws \<noteq> [] \<Longrightarrow> (\<And>w. w \<in> set ws \<Longrightarrow> c \<notin> set w) \<Longrightarrow> split_on c (py_join [c] ws) = ws"
  by (induction "[c]" ws rule: py_join.induct) simp_all

text \<open>The list of nodes on the command line is read back as it was printed.\<close>

theorem parse_nodes_roundtrip:
  assumes "list_all printable_node nodes"
  shows "parse_nodes_arg (py_join '','' (map (print_node d) nodes)) (int d) = Some (map (\<lambda>(role, host, port). (role, host, int port)) nodes)"
proof (cases "nodes = []")
  case False
  have n: "CHR '','' \<notin> set (print_node d n)" "py_strip (print_node d n) = print_node d n"
    "parse_node (int d) (print_node d n) = Some (case n of (role, host, port) \<Rightarrow> (role, host, int port))" "print_node d n \<noteq> []"
    if "n \<in> set nodes" for n
    using print_node_facts [of "fst n" "fst (snd n)" "snd (snd n)" d] assms that by (auto simp: list_all_iff print_node_def split: prod.splits)
  have "split_on (CHR '','') (py_join '','' (map (print_node d) nodes)) = map (print_node d) nodes"
    using False n(1) by (intro split_join) auto
  moreover have "filter (\<lambda>item. item \<noteq> []) (map py_strip (map (print_node d) nodes)) = map (print_node d) nodes"
    using n(2,4) by (auto simp: filter_id_conv)
  moreover have "those (map (parse_node (int d)) (map (print_node d) xs)) = Some (map (\<lambda>(role, host, port). (role, host, int port)) xs)"
    if "set xs \<subseteq> set nodes" for xs
    using that n(3) by (induction xs) auto
  ultimately show ?thesis by (simp add: parse_nodes_arg_def)
qed (simp add: parse_nodes_arg_def py_strip_def)

end
