(* ===== verification/Monitor.thy ===== *)
theory Monitor
  imports Load_Agent
begin

text \<open>
  The process of the monitor of \<open>scripts/cluster_monitor.py\<close>: an agent as the state its two sampling threads and
  its HTTP handler share, one event at a time, and the commands that reset and report the agents of a cluster.
\<close>

subsection \<open>The agent\<close>

record agent =
  ag_sampler :: sampler
  ag_fast_sampler :: sampler
  ag_acc :: accumulator
  ag_file :: "window_summary option" \<comment> \<open>the copy on disk\<close>
  ag_primed :: bool
  ag_fast_primed :: bool

text \<open>
  A round of the slow thread comes with the files and whether the directory of the copy exists and can be written, a round of
  the fast one with the first line of \<open>/proc/stat\<close>. The first round of a thread only primes its sampler.
\<close>

datatype agent_event = SlowRound rat proc_files bool | FastRound "string option" | AgentGet rat string | AgentPost rat string

definition start_agent :: "bool \<Rightarrow> rat \<Rightarrow> string \<Rightarrow> rat \<Rightarrow> agent" where
  "start_agent linux t role fast_interval =
     \<lparr>ag_sampler = new_sampler linux, ag_fast_sampler = new_sampler linux,
      ag_acc = (new_accumulator t role)\<lparr>fast_interval_sec := fast_interval\<rparr>,
      ag_file = None, ag_primed = False, ag_fast_primed = False\<rparr>"

definition prime_sampler :: "rat \<Rightarrow> proc_files \<Rightarrow> sampler \<Rightarrow> sampler" where
  "prime_sampler t f sm = snd (sample_network_rates t (f_net_dev f) (snd (sample_cpu_percent (f_stat f) sm)))"

definition slow_round :: "string \<Rightarrow> rat \<Rightarrow> proc_files \<Rightarrow> bool \<Rightarrow> agent \<Rightarrow> agent" where
  "slow_round host t f writable g =
     (if \<not> ag_primed g then g\<lparr>ag_sampler := prime_sampler t f (ag_sampler g), ag_primed := True\<rparr>
      else let (sm, a) = sampler_tick t f (ag_sampler g, ag_acc g)
           in g\<lparr>ag_sampler := sm, ag_acc := a, ag_file := (if writable then Some (get_summary t host a) else ag_file g)\<rparr>)"

text \<open>The fast thread is only started with a positive interval.\<close>

definition fast_round :: "string option \<Rightarrow> agent \<Rightarrow> agent" where
  "fast_round stat g =
     (if fast_interval_sec (ag_acc g) \<le> 0 then g
      else if \<not> ag_fast_primed g
      then g\<lparr>ag_fast_sampler := snd (sample_cpu_percent stat (ag_fast_sampler g)), ag_fast_primed := True\<rparr>
      else let (sm, a) = fast_tick stat (ag_fast_sampler g, ag_acc g) in g\<lparr>ag_fast_sampler := sm, ag_acc := a\<rparr>)"

definition agent_step :: "string \<Rightarrow> agent_event \<Rightarrow> agent \<Rightarrow> agent \<times> (nat \<times> agent_body) option" where
  "agent_step host ev g =
     (case ev of
        SlowRound t f writable \<Rightarrow> (slow_round host t f writable g, None)
      | FastRound stat \<Rightarrow> (fast_round stat g, None)
      | AgentGet t url \<Rightarrow> (case agent_get t host url (ag_acc g) of (a, resp) \<Rightarrow> (g\<lparr>ag_acc := a\<rparr>, Some resp))
      | AgentPost t url \<Rightarrow> (case agent_post t url (ag_acc g) of (a, resp) \<Rightarrow> (g\<lparr>ag_acc := a\<rparr>, Some resp)))"

definition agent_run :: "string \<Rightarrow> agent_event list \<Rightarrow> agent \<Rightarrow> agent" where
  "agent_run host evs g = fold (\<lambda>ev g. fst (agent_step host ev g)) evs g"

subsection \<open>The commands\<close>

text \<open>An answer is its status and its JSON, \<open>None\<close> if that cannot be read; no answer is an exception.\<close>

definition fetch_node_summary :: "(nat \<times> window_summary option) option \<Rightarrow> window_summary option" where
  "fetch_node_summary resp = (case resp of Some (status, data) \<Rightarrow> if status = 200 then data else None | None \<Rightarrow> None)"

type_synonym node = "string \<times> string \<times> int"

definition cmd_reset :: "(node \<Rightarrow> nat option \<times> nat option) \<Rightarrow> node list \<Rightarrow> (node \<times> bool) list \<times> nat" where
  "cmd_reset answer nodes =
     (let oks = map (\<lambda>n. (n, case answer n of (post, get) \<Rightarrow> reset_node_metrics post get)) nodes
      in (oks, length (filter snd oks)))"

text \<open>A row of the table of loads and one of the table of saturation; an agent that did not answer has \<open>None\<close>.\<close>

record load_row =
  lr_role :: string
  lr_cpu :: "rat \<times> rat \<times> rat"
  lr_mem :: "rat \<times> rat"
  lr_rx :: "rat \<times> rat"
  lr_tx :: "rat \<times> rat"
  lr_traffic :: "rat \<times> rat"

definition load_row_of :: "window_summary \<Rightarrow> load_row" where
  "load_row_of s =
     \<lparr>lr_role = ws_role s, lr_cpu = (st_min (ws_cpu s), st_avg (ws_cpu s), st_max (ws_cpu s)),
      lr_mem = (st_avg (ws_memory s), st_max (ws_memory s)), lr_rx = (st_avg (ws_rx s), st_max (ws_rx s)),
      lr_tx = (st_avg (ws_tx s), st_max (ws_tx s)),
      lr_traffic = (tr_total_gb (ws_rx_total s), tr_total_gb (ws_tx_total s))\<rparr>"

definition row_label :: "string \<Rightarrow> string \<Rightarrow> string" where
  "row_label name host = (if host \<noteq> name then name @ '' ('' @ host @ '')'' else name)"

definition load_table ::
  "(string \<times> string \<times> window_summary option) list \<Rightarrow> (string \<times> load_row option) list \<times> (fleet \<times> rat) option" where
  "load_table res =
     (map (\<lambda>(name, host, data). (row_label name host, map_option load_row_of data)) res, fleet_row (map (snd \<circ> snd) res))"

record saturation_row =
  sr_role :: string
  sr_p50 :: rat
  sr_p95 :: rat
  sr_p99_fast :: rat
  sr_shares :: "rat \<times> rat \<times> rat"
  sr_longest :: rat
  sr_bursts :: nat
  sr_verdict :: verdict

definition saturation_row_of :: "window_summary \<Rightarrow> saturation_row" where
  "saturation_row_of s =
     (let d1 = ws_dist_1s s; df = ws_dist_fast s; entry = map_of (cd_thresholds d1);
          share = (\<lambda>k. case entry k of None \<Rightarrow> 0 | Some e \<Rightarrow> pct_time e)
      in \<lparr>sr_role = ws_role s, sr_p50 = cd_p50 d1, sr_p95 = cd_p95 d1, sr_p99_fast = cd_p99 df,
          sr_shares = (share 70, share 85, share 95),
          sr_longest = (case entry 85 of None \<Rightarrow> 0 | Some e \<Rightarrow> longest_streak_sec e),
          sr_bursts = cd_burst_count df, sr_verdict = cpu_verdict d1\<rparr>)"

definition saturation_table ::
  "(string \<times> string \<times> window_summary option) list \<Rightarrow> (string \<times> saturation_row option) list" where
  "saturation_table res =
     map (\<lambda>(name, host, data). (row_label name host, map_option saturation_row_of data)) res"

text \<open>The payloads are kept by role and host, without the port.\<close>

record cluster_report =
  cr_load :: "(string \<times> load_row option) list \<times> (fleet \<times> rat) option"
  cr_saturation :: "(string \<times> saturation_row option) list"
  cr_payloads :: "(string \<times> window_summary) list"

definition cmd_report :: "(node \<Rightarrow> (nat \<times> window_summary option) option) \<Rightarrow> node list \<Rightarrow> cluster_report" where
  "cmd_report answer nodes =
     (let res = map (\<lambda>n. (fst n, fst (snd n), fetch_node_summary (answer n))) nodes
      in \<lparr>cr_load = load_table res, cr_saturation = saturation_table res,
          cr_payloads = fold (\<lambda>(role, host, data) d. case data of None \<Rightarrow> d | Some s \<Rightarrow> AList.update (role @ '':'' @ host) s d) res []\<rparr>)"

subsection \<open>What an agent publishes\<close>

text \<open>The number of samples of the window after events, the newest first.\<close>

definition resets :: "agent_event \<Rightarrow> bool" where
  "resets ev =
     (case ev of AgentGet t url \<Rightarrow> url_path url \<in> {''/reset'', ''/metrics/reset''}
      | AgentPost t url \<Rightarrow> url_path url \<in> {''/reset'', ''/metrics/reset''} | _ \<Rightarrow> False)"

definition is_slow :: "agent_event \<Rightarrow> bool" where
  "is_slow ev = (case ev of SlowRound _ _ _ \<Rightarrow> True | _ \<Rightarrow> False)"

text \<open>The rounds of the slow thread since the last reset; the very first round of all is no sample.\<close>

definition window_rounds :: "agent_event list \<Rightarrow> nat" where
  "window_rounds evs =
     (let since = takeWhile (\<lambda>ev. \<not> resets ev) (rev evs); older = drop (length since) (rev evs);
          n = length (filter is_slow since)
      in if list_ex is_slow older then n else n - 1)"

definition percent_series :: "nat \<Rightarrow> rat list \<Rightarrow> bool" where
  "percent_series n xs \<longleftrightarrow> length xs \<le> n \<and> list_all (\<lambda>x. 0 \<le> x \<and> x \<le> 100) xs"

definition agent_ok :: "agent \<Rightarrow> bool" where
  "agent_ok g \<longleftrightarrow>
     cap_1s (ag_acc g) = 90000 \<and> cap_fast (ag_acc g) = 90000
     \<and> percent_series 90000 (cpu_series_1s (ag_acc g)) \<and> percent_series 90000 (cpu_series_fast (ag_acc g))
     \<and> length (cpu_series_1s (ag_acc g)) = min 90000 (samples_count (ag_acc g))
     \<and> (fast_interval_sec (ag_acc g) \<le> 0 \<longrightarrow> cpu_series_fast (ag_acc g) = [])"

lemma percent_append:
  assumes "percent_series n xs" "0 \<le> x" "x \<le> 100"
  shows "percent_series n (deque_append n xs x)"
  using assms by (auto simp: percent_series_def deque_append_def list_all_iff dest: in_set_dropD)

lemma reset_facts [simp]:
  "cap_1s (reset_window t a) = cap_1s a" "cap_fast (reset_window t a) = cap_fast a"
  "fast_interval_sec (reset_window t a) = fast_interval_sec a" "samples_count (reset_window t a) = 0"
  "cpu_series_1s (reset_window t a) = []" "cpu_series_fast (reset_window t a) = []"
  by (simp_all add: reset_window_def)

lemma sampler_tick_facts:
  assumes "sampler_tick t f (sm, a) = (sm', a')"
  obtains x where "0 \<le> x" "x \<le> 100" "cpu_series_1s a' = deque_append (cap_1s a) (cpu_series_1s a) x"
    "samples_count a' = samples_count a + 1" "cap_1s a' = cap_1s a" "cap_fast a' = cap_fast a"
    "fast_interval_sec a' = fast_interval_sec a" "cpu_series_fast a' = cpu_series_fast a"
proof (rule that [of "fst (sample_cpu_percent (f_stat f) sm)"])
  show "0 \<le> fst (sample_cpu_percent (f_stat f) sm)" "fst (sample_cpu_percent (f_stat f) sm) \<le> 100"
    using sampler_values_in_range(1) by blast+
qed (use assms in \<open>auto simp: sampler_tick_def Let_def record_sample_def split: prod.splits\<close>)

lemma slow_round_ok:
  assumes "agent_ok g"
  shows "agent_ok (slow_round host t f writable g)"
    "samples_count (ag_acc (slow_round host t f writable g)) = (if ag_primed g then samples_count (ag_acc g) + 1 else samples_count (ag_acc g))"
    "ag_primed (slow_round host t f writable g)"
proof -
  obtain sm a where tick: "sampler_tick t f (ag_sampler g, ag_acc g) = (sm, a)" by fastforce
  obtain x where "0 \<le> x" "x \<le> 100" "cpu_series_1s a = deque_append (cap_1s (ag_acc g)) (cpu_series_1s (ag_acc g)) x"
    and a: "samples_count a = samples_count (ag_acc g) + 1" "cap_1s a = cap_1s (ag_acc g)" "cap_fast a = cap_fast (ag_acc g)"
    "fast_interval_sec a = fast_interval_sec (ag_acc g)" "cpu_series_fast a = cpu_series_fast (ag_acc g)"
    using sampler_tick_facts [OF tick] .
  moreover have "length (deque_append n xs x) = min n (length xs + 1)" for n and xs :: "rat list"
    by (simp add: deque_append_def)
  ultimately show "agent_ok (slow_round host t f writable g)"
    using assms by (auto simp: slow_round_def agent_ok_def tick percent_append)
  show "samples_count (ag_acc (slow_round host t f writable g)) = (if ag_primed g then samples_count (ag_acc g) + 1 else samples_count (ag_acc g))"
    "ag_primed (slow_round host t f writable g)"
    using a(1) by (simp_all add: slow_round_def tick)
qed

lemma fast_round_ok:
  assumes "agent_ok g"
  shows "agent_ok (fast_round stat g)" "samples_count (ag_acc (fast_round stat g)) = samples_count (ag_acc g)"
    "ag_primed (fast_round stat g) = ag_primed g"
  using assms sampler_values_in_range(1) [of stat "ag_fast_sampler g"]
  by (auto simp: fast_round_def fast_tick_def record_fast_cpu_def agent_ok_def percent_append split: prod.splits)

lemma agent_step_simps:
  "fst (agent_step host (SlowRound t f w) g) = slow_round host t f w g"
  "fst (agent_step host (FastRound stat) g) = fast_round stat g"
  "fst (agent_step host (AgentGet t url) g) = (if resets (AgentGet t url) then g\<lparr>ag_acc := reset_window t (ag_acc g)\<rparr> else g)"
  "fst (agent_step host (AgentPost t url) g) = (if resets (AgentPost t url) then g\<lparr>ag_acc := reset_window t (ag_acc g)\<rparr> else g)"
  by (simp_all add: agent_step_def agent_get_def agent_post_def resets_def Let_def)

lemma http_ok:
  assumes "agent_ok g"
  shows "agent_ok (g\<lparr>ag_acc := reset_window t (ag_acc g)\<rparr>)"
  using assms by (simp add: agent_ok_def percent_series_def)

lemma agent_step_ok:
  assumes "agent_ok g"
  shows "agent_ok (fst (agent_step host ev g))"
    "ag_primed (fst (agent_step host ev g)) = (ag_primed g \<or> is_slow ev)"
    "samples_count (ag_acc (fst (agent_step host ev g))) =
       (if resets ev then 0 else samples_count (ag_acc g) + (if is_slow ev \<and> ag_primed g then 1 else 0))"
  using assms by (cases ev; simp add: agent_step_simps slow_round_ok fast_round_ok http_ok is_slow_def resets_def)+

lemma window_rounds_snoc:
  "window_rounds (evs @ [ev]) =
     (if resets ev then 0 else window_rounds evs + (if is_slow ev \<and> list_ex is_slow evs then 1 else 0))"
proof -
  define since where "since = takeWhile (\<lambda>ev. \<not> resets ev) (rev evs)"
  define older where "older = dropWhile (\<lambda>ev. \<not> resets ev) (rev evs)"
  have drop: "drop (length (takeWhile P xs)) xs = dropWhile P xs" for P and xs :: "agent_event list"
    by (simp add: dropWhile_eq_drop)
  have "set evs = set since \<union> set older"
    unfolding since_def older_def by (metis set_append set_rev takeWhile_dropWhile_id)
  then have "list_ex is_slow evs = (filter is_slow since \<noteq> [] \<or> list_ex is_slow older)"
    by (auto simp: list_ex_iff filter_empty_conv)
  moreover have "window_rounds evs = (if list_ex is_slow older then length (filter is_slow since) else length (filter is_slow since) - 1)"
    by (simp add: window_rounds_def Let_def drop since_def older_def)
  moreover have "window_rounds (evs @ [ev]) =
      (if resets ev then 0 else let n = length (filter is_slow (ev # since)) in if list_ex is_slow older then n else n - 1)"
    by (simp add: window_rounds_def Let_def drop since_def older_def)
  ultimately show ?thesis by (cases "filter is_slow since") auto
qed

text \<open>
  Whatever happens to an agent, its series of CPU values hold percentages, as many as there are samples up to
  their capacity, the fast one is empty if the fast thread is disabled, and the window counts the rounds of
  the slow thread since the last reset, without the one that primed the sampler.
\<close>

theorem agent_invariant:
  fixes host role :: string and t fast_interval :: rat and linux :: bool
  defines "g evs \<equiv> agent_run host evs (start_agent linux t role fast_interval)"
  shows "agent_ok (g evs) \<and> samples_count (ag_acc (g evs)) = window_rounds evs"
proof -
  have step: "g (evs @ [ev]) = fst (agent_step host ev (g evs))" for evs ev by (simp add: g_def agent_run_def)
  have start: "agent_ok (g [])" "samples_count (ag_acc (g [])) = 0" "\<not> ag_primed (g [])"
    by (simp_all add: g_def agent_run_def start_agent_def agent_ok_def new_accumulator_def percent_series_def reset_window_def)
  have "agent_ok (g evs) \<and> ag_primed (g evs) = list_ex is_slow evs \<and> samples_count (ag_acc (g evs)) = window_rounds evs"
  proof (induction evs rule: rev_induct)
    case (snoc ev evs)
    then show ?case using agent_step_ok [of "g evs" host ev] window_rounds_snoc [of evs ev]
      by (auto simp: step)
  qed (use start in \<open>simp add: window_rounds_def\<close>)
  then show ?thesis by simp
qed

end
