(* ===== verification/Load_Probe.thy ===== *)
theory Load_Probe
  imports Lobby Py_Numbers
begin

text \<open>
  The common part of the load tests \<open>scripts/perf_test.py\<close> and \<open>scripts/perf_test_sticky.py\<close>: the categories of
  errors, the class \<open>PerfResults\<close>, the check of a response, and the calls of the \<open>websockets\<close> library, on which
  the measurements of the theories \<open>Load_Test\<close> and \<open>Sticky_Test\<close> are built. An action takes the
  state of a test to an exception or a value, and the new state. What the library answers is a list in the
  state: the outcome of each call in the order the calls are made.
\<close>

subsection \<open>Errors\<close>

datatype perf_exception = TimeoutExc | RefusedExc | ClosedExc | ResetExc | AbortedExc | JsonExc | KeyExc | ValueExc
  | TypeExc | AttributeExc | OtherExc

datatype error_category = TIMEOUT | CONNECTION_REFUSED | CONNECTION_CLOSED | PROTOCOL_ERROR | UNKNOWN

definition categorize_error :: "perf_exception \<Rightarrow> error_category" where
  "categorize_error e =
     (if e = TimeoutExc then TIMEOUT
      else if e = RefusedExc then CONNECTION_REFUSED
      else if e \<in> {ClosedExc, ResetExc, AbortedExc} then CONNECTION_CLOSED
      else if e \<in> {JsonExc, KeyExc, ValueExc} then PROTOCOL_ERROR
      else UNKNOWN)"

subsection \<open>Results\<close>

record perf_results =
  test_name :: string
  samples :: "rat list"
  errors :: "(error_category \<times> nat) list"

definition new_results :: "string \<Rightarrow> perf_results" where
  "new_results name = \<lparr>test_name = name, samples = [], errors = []\<rparr>"

definition total_errors :: "perf_results \<Rightarrow> nat" where
  "total_errors r = sum_list (map snd (errors r))"

definition add_sample :: "rat \<Rightarrow> perf_results \<Rightarrow> perf_results" where
  "add_sample x r = r\<lparr>samples := samples r @ [x]\<rparr>"

definition record_error :: "perf_exception \<Rightarrow> perf_results \<Rightarrow> perf_results" where
  "record_error e r = r\<lparr>errors := count_up (categorize_error e) (errors r)\<rparr>"

text \<open>\<open>statistics.mean\<close> adds exactly and rounds once.\<close>

definition avg_ms :: "perf_results \<Rightarrow> rat" where
  "avg_ms r = (if samples r = [] then 0 else fl64 (fl64 (sum_list (samples r) / of_nat (length (samples r))) * 1000))"

definition py_median :: "rat list \<Rightarrow> rat" where
  "py_median xs =
     (let s = sort xs; n = length xs
      in if odd n then s ! (n div 2) else fl64 (fl64 (s ! (n div 2 - 1) + s ! (n div 2)) / 2))"

definition p50_ms :: "perf_results \<Rightarrow> rat" where
  "p50_ms r = (if samples r = [] then 0 else fl64 (py_median (samples r) * 1000))"

definition rank_ms :: "rat \<Rightarrow> perf_results \<Rightarrow> rat" where
  "rank_ms share r =
     (if samples r = [] then 0
      else let sorted_s = sort (samples r); idx = rank_index share (length sorted_s)
           in fl64 (sorted_s ! min idx (length sorted_s - 1) * 1000))"

definition p95_ms :: "perf_results \<Rightarrow> rat" where
  "p95_ms r = rank_ms (95 / 100) r"

definition p99_ms :: "perf_results \<Rightarrow> rat" where
  "p99_ms r = rank_ms (99 / 100) r"

definition max_ms :: "perf_results \<Rightarrow> rat" where
  "max_ms r = (if samples r = [] then 0 else fl64 (Max (set (samples r)) * 1000))"

definition min_ms :: "perf_results \<Rightarrow> rat" where
  "min_ms r = (if samples r = [] then 0 else fl64 (Min (set (samples r)) * 1000))"

subsection \<open>Responses\<close>

definition obj_get :: "string \<Rightarrow> json \<Rightarrow> json option" where
  "obj_get k v = (case v of JObject kvs \<Rightarrow> map_of kvs k | _ \<Rightarrow> None)"

definition is_dict :: "json \<Rightarrow> bool" where
  "is_dict v = (case v of JObject _ \<Rightarrow> True | _ \<Rightarrow> False)"

definition validate_response :: "json \<Rightarrow> string \<Rightarrow> bool" where
  "validate_response data expected_type =
     (is_dict data \<and> obj_get ''type'' data = Some (JStr expected_type)
      \<and> (obj_get ''payload'' data \<noteq> None \<or> expected_type \<in> {''stroke'', ''clear_canvas'', ''pong''}))"

text \<open>\<open>response["payload"]["room_code"]\<close> of an object.\<close>

definition room_code_of :: "json \<Rightarrow> perf_exception + json" where
  "room_code_of data =
     (case obj_get ''payload'' data of
        None \<Rightarrow> Inl KeyExc
      | Some payload \<Rightarrow>
          if is_dict payload then (case obj_get ''room_code'' payload of None \<Rightarrow> Inl KeyExc | Some v \<Rightarrow> Inr v) else Inl TypeExc)"

definition request :: "string \<Rightarrow> (string \<times> json) list \<Rightarrow> json" where
  "request t payload = JObject [(''type'', JStr t), (''payload'', JObject payload)]"

subsection \<open>Actions\<close>

text \<open>A frame is \<open>None\<close> if it is not JSON. Calls that return nothing take any answer but an exception.\<close>

datatype answer = Raises perf_exception | Returns "json option"

datatype call = Connect "string option" | Send nat json | Recv nat | Close nat | HttpGet

text \<open>When the answers are over, connecting and receiving raise \<open>silence\<close>, and sending and closing return.\<close>

record lab =
  answers :: "answer list"
  silence :: perf_exception
  clock_at :: "nat \<Rightarrow> rat"
  reads :: nat
  conns :: nat
  calls :: "call list"
  results :: perf_results

type_synonym 'a act = "lab \<Rightarrow> (perf_exception + 'a) \<times> lab"

definition ret :: "'a \<Rightarrow> 'a act" where
  "ret x s = (Inr x, s)"

definition raise :: "perf_exception \<Rightarrow> 'a act" where
  "raise e s = (Inl e, s)"

definition bind :: "'a act \<Rightarrow> ('a \<Rightarrow> 'b act) \<Rightarrow> 'b act" where
  "bind m f s = (case m s of (Inl e, s') \<Rightarrow> (Inl e, s') | (Inr x, s') \<Rightarrow> f x s')"

definition andThen :: "'a act \<Rightarrow> 'b act \<Rightarrow> 'b act" where
  "andThen m k = bind m (\<lambda>_. k)"

definition of_sum :: "perf_exception + 'a \<Rightarrow> 'a act" where
  "of_sum x s = (x, s)"

definition on_results :: "(perf_results \<Rightarrow> perf_results) \<Rightarrow> unit act" where
  "on_results f s = (Inr (), s\<lparr>results := f (results s)\<rparr>)"

text \<open>\<open>try: ... except Exception as e: results.record_error(e)\<close>; the variants that pass.\<close>

definition try_record :: "unit act \<Rightarrow> unit act" where
  "try_record m s =
     (case m s of (Inl e, s') \<Rightarrow> (Inr (), s'\<lparr>results := record_error e (results s')\<rparr>) | (Inr _, s') \<Rightarrow> (Inr (), s'))"

definition try_pass :: "'a act \<Rightarrow> unit act" where
  "try_pass m s = (case m s of (_, s') \<Rightarrow> (Inr (), s'))"

definition pass_timeout :: "'a act \<Rightarrow> unit act" where
  "pass_timeout m s =
     (case m s of (Inl e, s') \<Rightarrow> (if e = TimeoutExc then Inr () else Inl e, s') | (Inr _, s') \<Rightarrow> (Inr (), s'))"

fun for_each :: "('a \<Rightarrow> unit act) \<Rightarrow> 'a list \<Rightarrow> unit act" where
  "for_each f [] = ret ()"
| "for_each f (x # xs) = andThen (f x) (for_each f xs)"

definition perf_counter :: "rat act" where
  "perf_counter s = (Inr (clock_at s (reads s)), s\<lparr>reads := reads s + 1\<rparr>)"

definition log_call :: "call \<Rightarrow> lab \<Rightarrow> lab" where
  "log_call c s = s\<lparr>calls := calls s @ [c]\<rparr>"

text \<open>A connection is opened with a cookie or without one; its value numbers it.\<close>

definition connect :: "string option \<Rightarrow> nat act" where
  "connect cookie s =
     (let s' = log_call (Connect cookie) s
      in case answers s of
           [] \<Rightarrow> (Inl (silence s), s')
         | Raises e # as \<Rightarrow> (Inl e, s'\<lparr>answers := as\<rparr>)
         | Returns _ # as \<Rightarrow> (Inr (conns s), s'\<lparr>answers := as, conns := conns s + 1\<rparr>))"

definition recv :: "nat \<Rightarrow> json option act" where
  "recv ws s =
     (let s' = log_call (Recv ws) s
      in case answers s of
           [] \<Rightarrow> (Inl (silence s), s')
         | Raises e # as \<Rightarrow> (Inl e, s'\<lparr>answers := as\<rparr>)
         | Returns f # as \<Rightarrow> (Inr f, s'\<lparr>answers := as\<rparr>))"

definition quiet_call :: "call \<Rightarrow> unit act" where
  "quiet_call c s =
     (let s' = log_call c s
      in case answers s of
           [] \<Rightarrow> (Inr (), s')
         | Raises e # as \<Rightarrow> (Inl e, s'\<lparr>answers := as\<rparr>)
         | Returns _ # as \<Rightarrow> (Inr (), s'\<lparr>answers := as\<rparr>))"

definition send :: "nat \<Rightarrow> json \<Rightarrow> unit act" where
  "send ws msg = quiet_call (Send ws msg)"

definition close :: "nat \<Rightarrow> unit act" where
  "close ws = quiet_call (Close ws)"

definition json_loads :: "json option \<Rightarrow> json act" where
  "json_loads f = (case f of None \<Rightarrow> raise JsonExc | Some v \<Rightarrow> ret v)"

text \<open>The value that \<open>data.get("type")\<close> has, and the exception that it is for what is no dictionary.\<close>

definition get_type :: "json \<Rightarrow> json act" where
  "get_type data =
     (if is_dict data then ret (case obj_get ''type'' data of None \<Rightarrow> JNull | Some v \<Rightarrow> v) else raise AttributeExc)"

text \<open>A loop that receives until the wait times out: every answer is received once, so it ends.\<close>

function drain :: "nat \<Rightarrow> unit act" where
  "drain ws s =
     (case recv ws s of
        (Inl e, s') \<Rightarrow> (if e = TimeoutExc then Inr () else Inl e, s')
      | (Inr _, s') \<Rightarrow> drain ws s')"
  by pat_completeness auto
termination
  by (relation "measure (\<lambda>(ws, s). length (answers s))")
    (auto simp: recv_def log_call_def Let_def split: list.splits answer.splits)

declare drain.simps [simp del]

end
