(* ===== verification/Load_Test.thy ===== *)
theory Load_Test
  imports Load_Probe
begin

text \<open>
  The measurements of \<open>scripts/perf_test.py\<close> and their verdict. The tasks of a \<open>gather\<close> run one after the
  other: each of them only adds its own sample or error, so that another order permutes the samples. The
  pauses between the measurements and the printed lines are left out; the numbers printed are those of
  the results that the run returns.
\<close>

subsection \<open>Connecting\<close>

definition warmup :: "nat \<Rightarrow> unit act" where
  "warmup n =
     for_each (\<lambda>_. try_pass
       (bind (connect None) (\<lambda>ws.
        andThen (send ws (request ''create_room'' [(''name'', JStr ''Warmup'')]))
       (andThen (recv ws) (close ws))))) [0..<n]"

definition connect_and_measure :: "unit act" where
  "connect_and_measure =
     bind perf_counter (\<lambda>start. try_record
       (bind (connect None) (\<lambda>ws.
        bind perf_counter (\<lambda>stop.
        andThen (on_results (add_sample (fl64 (stop - start)))) (close ws)))))"

text \<open>The sizes of the batches of the \<open>while\<close> loop.\<close>

function burst_sizes :: "nat \<Rightarrow> nat \<Rightarrow> nat list" where
  "burst_sizes batch_size remaining =
     (if remaining = 0 \<or> batch_size = 0 then []
      else let batch = min batch_size remaining in batch # burst_sizes batch_size (remaining - batch))"
  by pat_completeness auto
termination by (relation "measure snd") auto

declare burst_sizes.simps [simp del]

definition measure_connection_time :: "nat \<Rightarrow> unit act" where
  "measure_connection_time n =
     for_each (\<lambda>batch. for_each (\<lambda>_. connect_and_measure) [0..<batch]) (burst_sizes (min n 10) n)"

text \<open>Connections in batches of 20; the exceptions of a batch are results that are recorded after it.\<close>

fun open_batch :: "nat \<Rightarrow> (perf_exception + nat) list act" where
  "open_batch 0 = ret []"
| "open_batch (Suc k) =
     (\<lambda>s. case connect None s of (r, s') \<Rightarrow> bind (open_batch k) (\<lambda>rs. ret (r # rs)) s')"

definition record_failures :: "(perf_exception + nat) list \<Rightarrow> unit act" where
  "record_failures rs = for_each (\<lambda>r. case r of Inl e \<Rightarrow> on_results (record_error e) | Inr _ \<Rightarrow> ret ()) rs"

definition opened :: "(perf_exception + nat) list \<Rightarrow> nat list" where
  "opened rs = List.map_filter (\<lambda>r. case r of Inl _ \<Rightarrow> None | Inr ws \<Rightarrow> Some ws) rs"

fun open_all :: "nat list \<Rightarrow> nat list act" where
  "open_all [] = ret []"
| "open_all (k # ks) =
     bind (open_batch k) (\<lambda>rs. andThen (record_failures rs) (bind (open_all ks) (\<lambda>more. ret (opened rs @ more))))"

definition measure_concurrent_connections :: "nat \<Rightarrow> unit act" where
  "measure_concurrent_connections n =
     bind perf_counter (\<lambda>start.
     bind (open_all (map (\<lambda>b. min (b + 20) n - b) (filter (\<lambda>b. b mod 20 = 0) [0..<n]))) (\<lambda>connections.
     bind perf_counter (\<lambda>stop.
     andThen (on_results (add_sample (fl64 (stop - start))))
       (for_each (\<lambda>ws. try_pass (close ws)) connections))))"

subsection \<open>Rooms\<close>

text \<open>A request and the time until the next message arrives.\<close>

definition timed_request :: "nat \<Rightarrow> json \<Rightarrow> (json option \<times> rat) act" where
  "timed_request ws msg =
     bind perf_counter (\<lambda>start.
     andThen (send ws msg)
    (bind (recv ws) (\<lambda>response.
     bind perf_counter (\<lambda>stop. ret (response, fl64 (stop - start))))))"

text \<open>A sample if the response has the expected type, otherwise an error that names the type it has.\<close>

definition check_sample :: "string \<Rightarrow> rat \<Rightarrow> json \<Rightarrow> unit act" where
  "check_sample expected elapsed data =
     (if validate_response data expected then on_results (add_sample elapsed)
      else andThen (get_type data) (on_results (record_error ValueExc)))"

definition create_room_measure :: "string \<Rightarrow> unit act" where
  "create_room_measure name = try_record
     (bind (connect None) (\<lambda>ws.
      bind (timed_request ws (request ''create_room'' [(''name'', JStr name)])) (\<lambda>(response, elapsed).
      bind (json_loads response) (\<lambda>data.
      andThen (check_sample ''room_created'' elapsed data) (close ws)))))"

definition measure_room_creation :: "nat \<Rightarrow> unit act" where
  "measure_room_creation n = for_each (\<lambda>i. create_room_measure (''PerfUser'' @ digits i)) [0..<n]"

text \<open>A host that creates a room; \<open>None\<close> if the response is another one.\<close>

definition host_room :: "nat \<Rightarrow> string \<Rightarrow> json option act" where
  "host_room ws name =
     andThen (send ws (request ''create_room'' [(''name'', JStr name)]))
    (bind (recv ws) (\<lambda>f.
     bind (json_loads f) (\<lambda>response.
     if validate_response response ''room_created''
     then bind (of_sum (room_code_of response)) (\<lambda>v. ret (Some v)) else ret None)))"

text \<open>What \<open>try\<close> leaves when it ends in a \<open>return\<close>: \<open>None\<close>, after an error was recorded.\<close>

definition try_or_return :: "'a option act \<Rightarrow> 'a option act" where
  "try_or_return m s =
     (case m s of (Inl e, s') \<Rightarrow> (Inr None, s'\<lparr>results := record_error e (results s')\<rparr>) | r \<Rightarrow> r)"

definition open_host :: "string option \<Rightarrow> string \<Rightarrow> (nat \<times> json) option act" where
  "open_host cookie name = try_or_return
     (bind (connect cookie) (\<lambda>ws.
      bind (host_room ws name) (\<lambda>r.
      case r of None \<Rightarrow> andThen (on_results (record_error ValueExc)) (ret None) | Some v \<Rightarrow> ret (Some (ws, v)))))"

definition join_request :: "string \<Rightarrow> json \<Rightarrow> json" where
  "join_request name room_code = request ''join_room'' [(''name'', JStr name), (''room_code'', room_code)]"

definition measure_join_room :: "nat \<Rightarrow> unit act" where
  "measure_join_room n =
     bind (open_host None ''PerfHost'') (\<lambda>host.
     case host of
       None \<Rightarrow> ret ()
     | Some (ws_host, room_code) \<Rightarrow>
         andThen (for_each (\<lambda>i. try_record
            (bind (connect None) (\<lambda>ws.
             bind (timed_request ws (join_request (''Joiner'' @ digits i) room_code)) (\<lambda>(response, elapsed).
             bind (json_loads response) (\<lambda>data.
             andThen (check_sample ''room_joined'' elapsed data) (close ws)))))) [0..<min n 10])
          (try_pass (close ws_host)))"

subsection \<open>Strokes\<close>

definition stroke_message :: "nat \<Rightarrow> json" where
  "stroke_message i =
     request ''stroke'' [(''points'', JList [JList [JInt i, JInt i], JList [JInt (i + 10), JInt (i + 10)]]),
                       (''color'', JStr ''#000000''), (''size'', JInt 3)]"

text \<open>
  A guesser joins and is kept if its join is answered; the host's copy of the player list is received. An
  exception after the guesser is kept leaves it in the list.
\<close>

definition join_guesser :: "string option \<Rightarrow> string \<Rightarrow> nat \<Rightarrow> json \<Rightarrow> nat list \<Rightarrow> nat list act" where
  "join_guesser cookie name ws_host room_code clients s =
     (case bind (connect cookie) (\<lambda>ws. andThen (send ws (join_request name room_code)) (andThen (recv ws) (ret ws))) s of
        (Inl e, s') \<Rightarrow> (Inr clients, s'\<lparr>results := record_error e (results s')\<rparr>)
      | (Inr ws, s') \<Rightarrow> andThen (try_record (pass_timeout (recv ws_host))) (ret (clients @ [ws])) s')"

fun join_guessers :: "string option \<Rightarrow> string \<Rightarrow> nat \<Rightarrow> json \<Rightarrow> nat list \<Rightarrow> nat list \<Rightarrow> nat list act" where
  "join_guessers cookie name ws_host room_code [] clients = ret clients"
| "join_guessers cookie name ws_host room_code (i # is) clients =
     bind (join_guesser cookie (name @ digits i) ws_host room_code clients)
          (join_guessers cookie name ws_host room_code is)"

text \<open>At most \<open>k\<close> messages are received until a stroke is among them; a \<open>for\<close> loop that ends without it.\<close>

fun await_stroke :: "nat \<Rightarrow> rat \<Rightarrow> nat \<Rightarrow> unit act" where
  "await_stroke guesser start 0 = on_results (record_error TimeoutExc)"
| "await_stroke guesser start (Suc k) =
     bind (recv guesser) (\<lambda>f.
     bind (json_loads f) (\<lambda>data.
     bind (get_type data) (\<lambda>t.
     if t = JStr ''stroke''
     then bind perf_counter (\<lambda>stop. on_results (add_sample (fl64 (stop - start))))
     else await_stroke guesser start k)))"

definition stroke_samples :: "nat \<Rightarrow> nat \<Rightarrow> nat \<Rightarrow> unit act" where
  "stroke_samples ws_host guesser n_samples =
     for_each (\<lambda>i.
       bind perf_counter (\<lambda>start.
       andThen (send ws_host (stroke_message i)) (try_record (await_stroke guesser start 10)))) [0..<n_samples]"

definition measure_stroke_broadcast_latency :: "nat \<Rightarrow> nat \<Rightarrow> unit act" where
  "measure_stroke_broadcast_latency n_clients n_samples =
     bind (open_host None ''DrawerHost'') (\<lambda>host.
     case host of
       None \<Rightarrow> ret ()
     | Some (ws_host, room_code) \<Rightarrow>
         bind (join_guessers None ''Guesser'' ws_host room_code [0..<min (n_clients - 1) 7] [ws_host]) (\<lambda>clients.
         if length clients \<le> 1
         then andThen (on_results (record_error ValueExc)) (for_each close clients)
         else let guesser = last clients
              in andThen (drain guesser)
                (andThen (stroke_samples ws_host guesser n_samples)
                         (for_each (\<lambda>ws. try_pass (close ws)) clients))))"

subsection \<open>Throughput\<close>

definition chat_messages :: "string \<Rightarrow> nat \<Rightarrow> json list" where
  "chat_messages label n = map (\<lambda>i. request ''chat'' [(''text'', JStr (label @ digits i))]) [0..<n]"

text \<open>All sends are started; the first exception is raised when they are done.\<close>

fun gather_sends :: "nat \<Rightarrow> json list \<Rightarrow> unit act" where
  "gather_sends ws [] = ret ()"
| "gather_sends ws (m # ms) =
     (\<lambda>s. case send ws m s of
            (Inr _, s') \<Rightarrow> gather_sends ws ms s'
          | (Inl e, s') \<Rightarrow> (Inl e, snd (gather_sends ws ms s')))"

text \<open>Receives until \<open>k\<close> messages are there or a wait times out; the number received.\<close>

fun receive_up_to :: "nat \<Rightarrow> nat \<Rightarrow> nat act" where
  "receive_up_to ws 0 = ret 0"
| "receive_up_to ws (Suc k) =
     (\<lambda>s. case recv ws s of
            (Inl e, s') \<Rightarrow> (if e = TimeoutExc then Inr 0 else Inl e, s')
          | (Inr _, s') \<Rightarrow> bind (receive_up_to ws k) (\<lambda>n. ret (Suc n)) s')"

definition pipelined :: "nat \<Rightarrow> nat \<Rightarrow> json list \<Rightarrow> unit act" where
  "pipelined ws1 ws2 messages =
     bind perf_counter (\<lambda>start.
     andThen (gather_sends ws1 messages)
    (bind (receive_up_to ws2 (length messages)) (\<lambda>received.
     bind perf_counter (\<lambda>stop.
     let elapsed = fl64 (stop - start); throughput = if 0 < elapsed then fl64 (of_nat received / elapsed) else 0
     in on_results (add_sample throughput)))))"

definition throughput_run :: "nat \<Rightarrow> nat \<Rightarrow> unit act" where
  "throughput_run n_messages run = try_record
     (bind (connect None) (\<lambda>ws1.
      bind (host_room ws1 (''ThroughputHost'' @ digits run)) (\<lambda>r.
      case r of
        None \<Rightarrow> andThen (on_results (record_error ValueExc)) (close ws1)
      | Some room_code \<Rightarrow>
          bind (connect None) (\<lambda>ws2.
          andThen (send ws2 (join_request (''ThroughputGuest'' @ digits run) room_code))
         (andThen (recv ws2)
         (andThen (drain ws1)
         (andThen (pipelined ws1 ws2 (chat_messages ''msg'' n_messages))
         (andThen (close ws1) (close ws2)))))))))"

definition measure_message_throughput :: "nat \<Rightarrow> nat \<Rightarrow> unit act" where
  "measure_message_throughput n_messages n_runs = for_each (throughput_run n_messages) [0..<n_runs]"

subsection \<open>Reconnecting\<close>

definition measure_reconnection_latency :: "nat \<Rightarrow> unit act" where
  "measure_reconnection_latency n =
     for_each (\<lambda>i. try_record
       (bind (connect None) (\<lambda>ws.
        bind (host_room ws (''ReconnUser'' @ digits i)) (\<lambda>r.
        case r of
          None \<Rightarrow> andThen (on_results (record_error ValueExc)) (close ws)
        | Some room_code \<Rightarrow>
            andThen (close ws)
           (bind (connect None) (\<lambda>ws2.
            bind (timed_request ws2
                    (request ''reconnect'' [(''name'', JStr (''ReconnUser'' @ digits i)), (''room_code'', room_code)])) (\<lambda>(resp, elapsed).
            andThen (json_loads resp)
           (andThen (on_results (add_sample elapsed)) (close ws2)))))))))  [0..<n]"

subsection \<open>The ramp\<close>

text \<open>One measurement with results of its own: the new results, and the state with the old ones again.\<close>

definition with_results :: "string \<Rightarrow> unit act \<Rightarrow> perf_results act" where
  "with_results name m s =
     (case m (s\<lparr>results := new_results name\<rparr>) of
        (Inl e, s') \<Rightarrow> (Inl e, s'\<lparr>results := results s\<rparr>)
      | (Inr _, s') \<Rightarrow> (Inr (results s'), s'\<lparr>results := results s\<rparr>))"

definition count_add :: "error_category \<times> nat \<Rightarrow> (error_category \<times> nat) list \<Rightarrow> (error_category \<times> nat) list" where
  "count_add e c = AList.update (fst e) (count_get (fst e) c + snd e) c"

definition merge_results :: "perf_results \<Rightarrow> perf_results \<Rightarrow> perf_results" where
  "merge_results b r = r\<lparr>samples := samples r @ samples b, errors := fold count_add (errors b) (errors r)\<rparr>"

definition measure_ramp_up :: "nat list \<Rightarrow> unit act" where
  "measure_ramp_up steps =
     for_each (\<lambda>n.
       bind (with_results (''step-'' @ digits n)
               (for_each (\<lambda>i. create_room_measure (''Ramp'' @ digits n @ ''_'' @ digits i)) [0..<n]))
            (\<lambda>b. on_results (merge_results b))) steps"

subsection \<open>The run\<close>

fun in_turn :: "(string \<times> unit act) list \<Rightarrow> perf_results list act" where
  "in_turn [] = ret []"
| "in_turn ((name, m) # ms) = bind (with_results name m) (\<lambda>r. bind (in_turn ms) (\<lambda>rs. ret (r # rs)))"

definition perf_tests :: "nat \<Rightarrow> bool \<Rightarrow> (string \<times> unit act) list" where
  "perf_tests n ramp_up =
     [(''Connection Establishment (concurrent)'', measure_connection_time n),
      (''Room Creation RTT'', measure_room_creation n),
      (''Join Room RTT'', measure_join_room n),
      (''Stroke Broadcast Latency ('' @ digits n @ '' clients, 100 samples)'', measure_stroke_broadcast_latency n 100),
      (''Concurrent Connections (target='' @ digits (n * 5) @ '')'', measure_concurrent_connections (n * 5)),
      (''Message Throughput (100 msgs, 3 runs)'', measure_message_throughput 100 3),
      (''Reconnection RTT'', measure_reconnection_latency (min n 10))]
     @ (if ramp_up then [(''Ramp-Up Latency (steps=[1, 5, 10, 20, 50])'', measure_ramp_up [1, 5, 10, 20, 50])] else [])"

text \<open>The check of the threshold, which skips the results without samples and those of the throughput.\<close>

definition breaches :: "rat \<Rightarrow> perf_results \<Rightarrow> bool" where
  "breaches p95_max r \<longleftrightarrow>
     samples r \<noteq> [] \<and> \<not> sublist ''Throughput'' (test_name r) \<and> p95_max < p95_ms r"

definition threshold_passed :: "rat option \<Rightarrow> perf_results list \<Rightarrow> bool" where
  "threshold_passed p95_max rs = (case p95_max of None \<Rightarrow> True | Some m \<Rightarrow> \<not> list_ex (breaches m) rs)"

definition run_all_tests :: "nat \<Rightarrow> bool \<Rightarrow> rat option \<Rightarrow> (bool \<times> perf_results list) act" where
  "run_all_tests n_clients ramp_up p95_max =
     andThen (warmup 5)
    (bind (in_turn (perf_tests n_clients ramp_up)) (\<lambda>rs. ret (threshold_passed p95_max rs, rs)))"

text \<open>The exit status of \<open>main\<close>: 1 after an exception; a threshold of zero counts as none.\<close>

definition exit_status :: "rat option \<Rightarrow> perf_exception + bool \<Rightarrow> nat" where
  "exit_status p95_max outcome =
     (case outcome of
        Inl _ \<Rightarrow> 1
      | Inr passed \<Rightarrow> if p95_max \<noteq> None \<and> p95_max \<noteq> Some 0 \<and> \<not> passed then 1 else 0)"

definition main_status :: "nat \<Rightarrow> bool \<Rightarrow> rat option \<Rightarrow> lab \<Rightarrow> nat" where
  "main_status n_clients ramp_up p95_max s =
     exit_status p95_max (map_sum id fst (fst (run_all_tests n_clients ramp_up p95_max s)))"

subsection \<open>Facts\<close>

text \<open>The threshold bounds 95 of 100 samples of a result that does not breach it.\<close>

lemma no_breach_bounds:
  assumes "\<not> breaches m r" "\<not> sublist ''Throughput'' (test_name r)" "length (samples r) \<le> 10 ^ 12"
  shows "19 * length (samples r) \<le> 20 * length (filter (\<lambda>x. fl64 (x * 1000) \<le> m) (samples r))"
proof (cases "samples r = []")
  case False
  let ?n = "length (samples r)"
  define i where "i = rank_index (95 / 100) ?n"
  have n: "0 < ?n" using False by simp
  have i: "i < ?n" "19 * ?n \<le> 20 * (i + 1)"
    using rank_95_in_range [OF n assms(3)] rank_95(1) [OF n assms(3)] by (simp_all add: i_def)
  then have m: "fl64 (sort (samples r) ! i * 1000) \<le> m"
    using assms(1,2) False by (simp add: breaches_def p95_ms_def rank_ms_def Let_def min_absorb1 i_def)
  have "fl64 (x * 1000) \<le> m" if "x \<le> sort (samples r) ! i" for x
    using fl64_mono [OF mult_right_mono [OF that, of 1000]] m by linarith
  note length_filter_imp [of "\<lambda>x. x \<le> sort (samples r) ! i" "\<lambda>x. fl64 (x * 1000) \<le> m" "samples r", OF this]
  with share_below [OF i] show ?thesis by linarith
qed simp

text \<open>
  A test of a server that cannot be reached: with nothing to answer, every connection fails. Such a test
  reads the clock \<open>k\<close> times, and keeps its samples.
\<close>

definition idle :: "nat \<Rightarrow> lab \<Rightarrow> lab \<Rightarrow> bool" where
  "idle k s s' \<longleftrightarrow>
     answers s' = [] \<and> silence s' = silence s \<and> clock_at s' = clock_at s \<and> reads s' = reads s + k
     \<and> samples (results s') = samples (results s) \<and> test_name (results s') = test_name (results s)"

definition unheard :: "nat \<Rightarrow> unit act \<Rightarrow> bool" where
  "unheard k m \<longleftrightarrow> (\<forall>s. answers s = [] \<longrightarrow> fst (m s) = Inr () \<and> idle k s (snd (m s)))"

named_theorems actions

lemmas [actions] = bind_def andThen_def ret_def raise_def try_record_def try_pass_def pass_timeout_def on_results_def
  record_error_def add_sample_def perf_counter_def log_call_def connect_def

lemma unheard_ret: "unheard 0 (ret ())"
  by (auto simp: unheard_def idle_def actions)

lemma unheard_andThen: "unheard j m \<Longrightarrow> unheard k m' \<Longrightarrow> unheard (j + k) (andThen m m')"
proof -
  assume m: "unheard j m" "unheard k m'"
  show "unheard (j + k) (andThen m m')"
    unfolding unheard_def
  proof (intro allI impI)
    fix s :: lab
    assume "answers s = []"
    with m(1) have s: "fst (m s) = Inr ()" "idle j s (snd (m s))" by (simp_all add: unheard_def)
    then have "answers (snd (m s)) = []" by (simp add: idle_def)
    with m(2) have "fst (m' (snd (m s))) = Inr ()" "idle k (snd (m s)) (snd (m' (snd (m s))))" by (simp_all add: unheard_def)
    with s show "fst (andThen m m' s) = Inr () \<and> idle (j + k) s (snd (andThen m m' s))"
      by (cases "m s") (simp add: andThen_def bind_def idle_def)
  qed
qed

lemma unheard_for_each:
  assumes "\<And>x. x \<in> set xs \<Longrightarrow> unheard (k x) (f x)"
  shows "unheard (sum_list (map k xs)) (for_each f xs)"
  using assms by (induction xs) (simp_all add: unheard_ret unheard_andThen)

lemma unheard_try: "unheard 0 (try_record (bind (connect c) f))" "unheard 0 (try_pass (bind (connect c) f))"
  by (auto simp: unheard_def idle_def actions)

lemma unheard_open_host: "answers s = [] \<Longrightarrow> fst (open_host c name s) = Inr None \<and> idle 0 s (snd (open_host c name s))"
  by (simp add: open_host_def try_or_return_def idle_def actions)

lemma sum_burst_sizes: "0 < b \<Longrightarrow> sum_list (burst_sizes b n) = n"
proof (induction b n rule: burst_sizes.induct)
  case (1 b n)
  then show ?case by (subst burst_sizes.simps) (auto simp: Let_def)
qed

lemma unheard_tests:
  "unheard 0 (warmup k)" "unheard n (measure_connection_time n)" "unheard 0 (measure_room_creation n)"
  "unheard 0 (measure_join_room n)" "unheard 0 (measure_stroke_broadcast_latency n k)"
  "unheard 0 (measure_message_throughput k n)" "unheard 0 (measure_reconnection_latency n)"
proof -
  note each = unheard_for_each [where k = "\<lambda>_. 0", simplified]
  show "unheard 0 (warmup k)" unfolding warmup_def by (intro each unheard_try)
  show "unheard 0 (measure_room_creation n)"
    unfolding measure_room_creation_def create_room_measure_def by (intro each unheard_try)
  show "unheard 0 (measure_message_throughput k n)"
    unfolding measure_message_throughput_def throughput_run_def by (intro each unheard_try)
  show "unheard 0 (measure_reconnection_latency n)" unfolding measure_reconnection_latency_def by (intro each unheard_try)
  have host: "unheard 0 (bind (open_host c name) (\<lambda>h. case h of None \<Rightarrow> ret () | Some (ws, v) \<Rightarrow> f ws v))" for c name f
    unfolding unheard_def
  proof (intro allI impI)
    fix s :: lab
    assume "answers s = []"
    from unheard_open_host [OF this, of c name]
    show "fst (bind (open_host c name) (\<lambda>h. case h of None \<Rightarrow> ret () | Some (ws, v) \<Rightarrow> f ws v) s) = Inr () \<and>
        idle 0 s (snd (bind (open_host c name) (\<lambda>h. case h of None \<Rightarrow> ret () | Some (ws, v) \<Rightarrow> f ws v) s))"
      by (cases "open_host c name s") (simp add: bind_def ret_def)
  qed
  show "unheard 0 (measure_join_room n)" unfolding measure_join_room_def by (rule host)
  show "unheard 0 (measure_stroke_broadcast_latency n k)" unfolding measure_stroke_broadcast_latency_def by (rule host)
  have one: "unheard 1 connect_and_measure" by (auto simp: unheard_def idle_def connect_and_measure_def actions)
  have "unheard (sum_list (map (\<lambda>b. b) (burst_sizes (min n 10) n))) (measure_connection_time n)"
    unfolding measure_connection_time_def
    using unheard_for_each [of "[0..<b]" "\<lambda>_. 1" "\<lambda>_. connect_and_measure" for b] one
    by (intro unheard_for_each) (simp add: sum_list_triv)
  moreover have "sum_list (burst_sizes (min n 10) n) = n"
    by (cases "n = 0") (simp_all add: sum_burst_sizes burst_sizes.simps [of _ 0])
  ultimately show "unheard n (measure_connection_time n)" by simp
qed

lemma unheard_batch:
  assumes "answers s = []"
  shows "fst (open_batch k s) = Inr (replicate k (Inl (silence s))) \<and> idle 0 s (snd (open_batch k s))"
  using assms
proof (induction k arbitrary: s)
  case (Suc k)
  define s1 where "s1 = log_call (Connect None) s"
  have c: "connect None s = (Inl (silence s), s1)" using Suc.prems by (simp add: connect_def s1_def)
  have "answers s1 = []" "silence s1 = silence s" "idle 0 s s1" using Suc.prems by (simp_all add: s1_def log_call_def idle_def)
  with Suc.IH [of s1] show ?case
    by (cases "open_batch k s1") (simp add: c bind_def ret_def idle_def)
qed (simp add: ret_def idle_def)

lemma unheard_failures: "unheard 0 (record_failures (replicate k (Inl e)))"
proof -
  have "unheard 0 (on_results (record_error e))" by (simp add: unheard_def idle_def actions)
  then show ?thesis
    unfolding record_failures_def by (intro unheard_for_each [where k = "\<lambda>_. 0", simplified]) auto
qed

lemma unheard_open_all:
  assumes "answers s = []"
  shows "fst (open_all ks s) = Inr [] \<and> idle 0 s (snd (open_all ks s))"
  using assms
proof (induction ks arbitrary: s)
  case (Cons k ks)
  obtain s1 where b: "open_batch k s = (Inr (replicate k (Inl (silence s))), s1)" "idle 0 s s1"
    using unheard_batch [OF Cons.prems, of k] by (cases "open_batch k s") auto
  then have "answers s1 = []" by (simp add: idle_def)
  with unheard_failures [of k "silence s"]
  obtain s2 where f: "record_failures (replicate k (Inl (silence s))) s1 = (Inr (), s2)" "idle 0 s1 s2"
    by (cases "record_failures (replicate k (Inl (silence s))) s1") (auto simp: unheard_def)
  then have "answers s2 = []" by (simp add: idle_def)
  from Cons.IH [OF this] obtain s3 where o: "open_all ks s2 = (Inr [], s3)" "idle 0 s2 s3"
    by (cases "open_all ks s2") auto
  have "opened (replicate k (Inl (silence s))) = []" by (induction k) (simp_all add: opened_def List.map_filter_simps)
  with b f o show ?case by (simp add: bind_def andThen_def ret_def idle_def)
qed (simp add: ret_def idle_def)

text \<open>The one test that keeps a sample then is the one of the concurrent connections, the time the attempts took.\<close>

lemma unheard_concurrent:
  fixes s :: lab
  assumes "answers s = []"
  defines "x \<equiv> fl64 (clock_at s (reads s + 1) - clock_at s (reads s))"
  shows "fst (measure_concurrent_connections n s) = Inr ()
    \<and> idle 2 (s\<lparr>results := add_sample x (results s)\<rparr>) (snd (measure_concurrent_connections n s))"
proof -
  define ks where "ks = map (\<lambda>b. min (b + 20) n - b) (filter (\<lambda>b. b mod 20 = 0) [0..<n])"
  define s1 where "s1 = s\<lparr>reads := reads s + 1\<rparr>"
  have "answers s1 = []" using assms(1) by (simp add: s1_def)
  from unheard_open_all [OF this, of ks] obtain s2 where s2: "open_all ks s1 = (Inr [], s2)" "idle 0 s1 s2"
    by (cases "open_all ks s1") auto
  then show ?thesis
    using assms(1) by (simp add: measure_concurrent_connections_def ks_def [symmetric] bind_def andThen_def perf_counter_def
        s1_def [symmetric, simplified] on_results_def idle_def add_sample_def ret_def x_def) (simp add: s1_def)
qed

text \<open>A test with results of its own.\<close>

lemma unheard_with_results:
  assumes "unheard k m" "answers s = []"
  obtains r s' where "with_results name m s = (Inr r, s')" "idle k s s'" "results s' = results s" "samples r = []" "test_name r = name"
proof -
  define s1 where "s1 = s\<lparr>results := new_results name\<rparr>"
  have "answers s1 = []" using assms(2) by (simp add: s1_def)
  with assms(1) obtain s2 where s2: "m s1 = (Inr (), s2)" "idle k s1 s2" by (cases "m s1") (auto simp: unheard_def)
  show thesis
    by (rule that [of "results s2" "s2\<lparr>results := results s\<rparr>"])
      (use s2 in \<open>simp_all add: with_results_def s1_def [symmetric] idle_def\<close>, simp_all add: s1_def new_results_def)
qed

lemma unheard_ramp: "unheard 0 (measure_ramp_up steps)"
proof -
  have step: "unheard 0 (bind (with_results name m) (\<lambda>b. on_results (merge_results b)))" if m: "unheard 0 m" for name m
    unfolding unheard_def
  proof (intro allI impI)
    fix s :: lab
    assume "answers s = []"
    from unheard_with_results [OF m this, of name] obtain r s' where
      "with_results name m s = (Inr r, s')" "idle 0 s s'" "results s' = results s" "samples r = []" by blast
    then show "fst (bind (with_results name m) (\<lambda>b. on_results (merge_results b)) s) = Inr ()
        \<and> idle 0 s (snd (bind (with_results name m) (\<lambda>b. on_results (merge_results b)) s))"
      by (simp add: bind_def on_results_def merge_results_def idle_def)
  qed
  have rooms: "unheard 0 (for_each (\<lambda>i. create_room_measure (f i)) is)" for f "is"
    unfolding create_room_measure_def by (intro unheard_for_each [where k = "\<lambda>_. 0", simplified] unheard_try)
  show ?thesis
    unfolding measure_ramp_up_def by (intro unheard_for_each [where k = "\<lambda>_. 0", simplified] step rooms)
qed

lemma in_turn_unheard:
  assumes "list_all2 (\<lambda>k t. unheard k (snd t)) ks ms" "answers s = []"
  obtains rs s' where "in_turn ms s = (Inr rs, s')" "idle (sum_list ks) s s'" "list_all (\<lambda>r. samples r = []) rs"
proof -
  have "\<exists>rs s'. in_turn ms s = (Inr rs, s') \<and> idle (sum_list ks) s s' \<and> list_all (\<lambda>r. samples r = []) rs"
    using assms
  proof (induction arbitrary: s rule: list_all2_induct)
    case (Cons k ks t ms)
    obtain name m where t: "t = (name, m)" by (cases t)
    with Cons(1) have "unheard k m" by simp
    from unheard_with_results [OF this Cons.prems, of name]
    obtain r s1 where r: "with_results name m s = (Inr r, s1)" "idle k s s1" "samples r = []" by blast
    then have "answers s1 = []" by (simp add: idle_def)
    from Cons.IH [OF this] r show ?case by (auto simp: t bind_def ret_def idle_def)
  qed (simp add: ret_def idle_def)
  with that show thesis by blast
qed

lemma in_turn_append: "in_turn (xs @ ys) = bind (in_turn xs) (\<lambda>rs. bind (in_turn ys) (\<lambda>rs'. ret (rs @ rs')))"
proof (induction xs)
  case (Cons x xs)
  then show ?case by (cases x) (auto simp: bind_def ret_def fun_eq_iff split: prod.split sum.split)
qed (auto simp: bind_def ret_def fun_eq_iff split: prod.split sum.split)

text \<open>
  C39 (safety). The verdict of the load test. If it exits with 0 under a threshold other than 0, the tests ran
  to their end, and in each of them that is no test of throughput (and has at most a trillion samples) 95 of 100
  samples are within the threshold.
\<close>

theorem load_test_verdict:
  assumes "main_status n ramp_up (Some m) s = 0" "m \<noteq> 0"
  shows "\<exists>rs. fst (run_all_tests n ramp_up (Some m) s) = Inr (True, rs)
    \<and> (\<forall>r \<in> set rs. \<not> sublist ''Throughput'' (test_name r) \<longrightarrow> length (samples r) \<le> 10 ^ 12 \<longrightarrow>
         19 * length (samples r) \<le> 20 * length (filter (\<lambda>x. fl64 (x * 1000) \<le> m) (samples r)))"
proof -
  obtain b rs where run: "fst (run_all_tests n ramp_up (Some m) s) = Inr (b, rs)" and "b"
    using assms by (cases "fst (run_all_tests n ramp_up (Some m) s)") (auto simp: main_status_def exit_status_def split: if_splits)
  moreover from run have "b = threshold_passed (Some m) rs"
    by (auto simp: run_all_tests_def andThen_def bind_def ret_def split: prod.splits sum.splits)
  ultimately have "\<not> breaches m r" if "r \<in> set rs" for r using that by (auto simp: threshold_passed_def list_ex_iff)
  with run \<open>b\<close> no_breach_bounds show ?thesis by (intro exI [of _ rs]) simp
qed

text \<open>
  The verdict when no connection can be opened. The test of the concurrent connections keeps one
  sample, the time its attempts took to fail, and no other test has any. If that time is within the threshold,
  the run reports that it passed and exits with 0.
\<close>

lemma unreachable_run:
  assumes "answers s = []"
    and "fl64 (fl64 (clock_at s (reads s + n + 1) - clock_at s (reads s + n)) * 1000) \<le> m"
  shows "main_status n ramp_up (Some m) s = 0
    \<and> (\<exists>rs. fst (run_all_tests n ramp_up (Some m) s) = Inr (True, rs)
         \<and> concat (map samples rs) = [fl64 (clock_at s (reads s + n + 1) - clock_at s (reads s + n))])"
proof -
  define x where "x = fl64 (clock_at s (reads s + n + 1) - clock_at s (reads s + n))"
  define as where "as = take 4 (perf_tests n ramp_up)"
  define bs where "bs = drop 5 (perf_tests n ramp_up)"
  define cname where "cname = ''Concurrent Connections (target='' @ digits (n * 5) @ '')''"
  have tests: "perf_tests n ramp_up = as @ (cname, measure_concurrent_connections (n * 5)) # bs"
    by (simp add: as_def bs_def perf_tests_def cname_def)
  obtain s0 where w: "warmup 5 s = (Inr (), s0)" "idle 0 s s0"
    using unheard_tests(1) [of 5] assms(1) by (cases "warmup 5 s") (auto simp: unheard_def)
  have before: "list_all2 (\<lambda>k t. unheard k (snd t)) [n, 0, 0, 0] as"
    by (simp add: as_def perf_tests_def unheard_tests)
  have after: "list_all2 (\<lambda>k t. unheard k (snd t)) (replicate (length bs) 0) bs"
    by (simp add: bs_def perf_tests_def unheard_tests unheard_ramp)
  have "answers s0 = []" using w by (simp add: idle_def)
  from in_turn_unheard [OF before this] obtain rs1 s1 where
    a: "in_turn as s0 = (Inr rs1, s1)" "idle (sum_list [n, 0, 0, 0]) s0 s1" "list_all (\<lambda>r. samples r = []) rs1" by blast
  obtain r s2 where c: "with_results cname (measure_concurrent_connections (n * 5)) s1 = (Inr r, s2)"
    "answers s2 = []" "samples r = [x]"
  proof -
    define t where "t = s1\<lparr>results := new_results cname\<rparr>"
    have s1: "answers s1 = []" "clock_at s1 = clock_at s" "reads s1 = reads s + n"
      using a(2) w(2) by (simp_all add: idle_def)
    then have "answers t = []" by (simp add: t_def)
    from unheard_concurrent [OF this, of "n * 5"] obtain t' where
      "measure_concurrent_connections (n * 5) t = (Inr (), t')" "answers t' = []" "samples (results t') = [x]"
      by (cases "measure_concurrent_connections (n * 5) t")
        (auto simp: idle_def add_sample_def x_def s1 t_def new_results_def)
    then show thesis by (intro that [of "results t'" "t'\<lparr>results := results s1\<rparr>"]) (simp_all add: with_results_def t_def)
  qed
  from in_turn_unheard [OF after c(2)] obtain rs2 s3 where
    b: "in_turn bs s2 = (Inr rs2, s3)" "list_all (\<lambda>r. samples r = []) rs2" by blast
  define rs where "rs = rs1 @ r # rs2"
  have run: "in_turn (perf_tests n ramp_up) s0 = (Inr rs, s3)"
    by (simp add: tests in_turn_append bind_def a b c ret_def rs_def)
  have none: "concat (map samples rs') = [] \<and> \<not> list_ex (breaches m) rs'" if "list_all (\<lambda>r. samples r = []) rs'" for rs'
    using that by (simp add: list_all_iff list_ex_iff breaches_def)
  have "p95_ms r = fl64 (x * 1000)"
    using c(3) by (simp add: p95_ms_def rank_ms_def)
  moreover have "fl64 (x * 1000) \<le> m" using assms(2) by (simp add: x_def)
  ultimately have "\<not> breaches m r" by (simp add: breaches_def)
  then have "\<not> list_ex (breaches m) rs" using none [OF a(3)] none [OF b(2)] by (simp add: rs_def)
  then have outcome: "fst (run_all_tests n ramp_up (Some m) s) = Inr (True, rs)"
    by (simp add: run_all_tests_def andThen_def bind_def ret_def w run threshold_passed_def)
  moreover have "concat (map samples rs) = [x]"
    by (simp add: rs_def c(3) none [OF a(3), THEN conjunct1] none [OF b(2), THEN conjunct1])
  ultimately show ?thesis by (simp add: main_status_def exit_status_def x_def)
qed

text \<open>A test lab with a clock that stands still.\<close>

definition still_lab :: "answer list \<Rightarrow> lab" where
  "still_lab as = \<lparr>answers = as, silence = RefusedExc, clock_at = (\<lambda>_. 0), reads = 0, conns = 0, calls = [], results = new_results []\<rparr>"

theorem load_test_verdict_witness:
  "\<exists>rs. fst (run_all_tests 10 True (Some 50) (still_lab [])) = Inr (True, rs)"
proof -
  have "main_status 10 True (Some 50) (still_lab []) = 0"
    using unreachable_run [of "still_lab []" 10 50 True] by (simp add: still_lab_def)
  from load_test_verdict [OF this] show ?thesis by auto
qed

end
