(* ===== verification/Sticky_Test.thy ===== *)
theory Sticky_Test
  imports Load_Test
begin

text \<open>
  The measurements of \<open>scripts/perf_test_sticky.py\<close>: the load test with the cookie of one worker, and the one
  that lets two players land on different workers. The classes and helpers it has in common with
  \<open>perf_test.py\<close>, letter by letter, are those of the theories \<open>Load_Probe\<close> and \<open>Load_Test\<close>.
\<close>

subsection \<open>Cookies\<close>

text \<open>The answer to an HTTP request is the value of the cookie \<open>worker_id\<close>, if it is set; exceptions pass.\<close>

definition get_worker_id_from_cookie :: "string option act" where
  "get_worker_id_from_cookie s =
     (let s' = log_call HttpGet s
      in case answers s of
           Returns (Some (JStr v)) # as \<Rightarrow> (Inr (Some v), s'\<lparr>answers := as\<rparr>)
         | _ # as \<Rightarrow> (Inr None, s'\<lparr>answers := as\<rparr>)
         | [] \<Rightarrow> (Inr None, s'))"

definition get_sticky_cookie :: "string option act" where
  "get_sticky_cookie = bind get_worker_id_from_cookie (\<lambda>v. ret (map_option (\<lambda>w. ''worker_id='' @ w) v))"

definition sticky_warmup :: "nat \<Rightarrow> unit act" where
  "sticky_warmup n =
     for_each (\<lambda>_. try_pass
       (bind get_sticky_cookie (\<lambda>cookie.
        bind (connect cookie) (\<lambda>ws.
        andThen (send ws (request ''create_room'' [(''name'', JStr ''Warmup'')]))
       (andThen (recv ws) (close ws)))))) [0..<n]"

subsection \<open>Connecting\<close>

definition sticky_connect_measure :: "string option \<Rightarrow> unit act" where
  "sticky_connect_measure cookie =
     bind perf_counter (\<lambda>start. try_record
       (bind (connect cookie) (\<lambda>ws.
        bind perf_counter (\<lambda>stop.
        andThen (on_results (add_sample (fl64 (stop - start)))) (close ws)))))"

definition measure_sticky_connection :: "nat \<Rightarrow> unit act" where
  "measure_sticky_connection n =
     bind get_sticky_cookie (\<lambda>cookie.
     andThen get_worker_id_from_cookie
       (for_each (\<lambda>batch. for_each (\<lambda>_. sticky_connect_measure cookie) [0..<batch]) (burst_sizes (min n 10) n)))"

subsection \<open>Strokes\<close>

text \<open>The host's room; another answer than a room is recorded and the connection closed.\<close>

definition open_sticky_host :: "string option \<Rightarrow> string \<Rightarrow> (nat \<times> json) option act" where
  "open_sticky_host cookie name = try_or_return
     (bind (connect cookie) (\<lambda>ws.
      bind (host_room ws name) (\<lambda>r.
      case r of
        None \<Rightarrow> andThen (on_results (record_error ValueExc)) (andThen (close ws) (ret None))
      | Some v \<Rightarrow> ret (Some (ws, v)))))"

definition measure_sticky_room_flow :: "nat \<Rightarrow> nat \<Rightarrow> unit act" where
  "measure_sticky_room_flow n_players n_samples =
     bind get_sticky_cookie (\<lambda>cookie.
     bind (open_sticky_host cookie ''StickyHost'') (\<lambda>host.
     case host of
       None \<Rightarrow> ret ()
     | Some (ws_host, room_code) \<Rightarrow>
         bind (join_guessers cookie ''StickyPlayer'' ws_host room_code [0..<min (n_players - 1) 7] [ws_host]) (\<lambda>players.
         andThen (for_each drain players)
        (if length players \<le> 1
         then andThen (on_results (record_error ValueExc)) (for_each close players)
         else andThen (stroke_samples ws_host (last players) n_samples)
                      (for_each (\<lambda>ws. try_pass (close ws)) players)))))"

subsection \<open>Throughput\<close>

definition sticky_throughput_run :: "string option \<Rightarrow> nat \<Rightarrow> nat \<Rightarrow> unit act" where
  "sticky_throughput_run cookie n_messages run = try_record
     (bind (connect cookie) (\<lambda>ws1.
      bind (host_room ws1 (''ThroughputHost'' @ digits run)) (\<lambda>r.
      case r of
        None \<Rightarrow> andThen (on_results (record_error ValueExc)) (close ws1)
      | Some room_code \<Rightarrow>
          bind (connect cookie) (\<lambda>ws2.
          andThen (send ws2 (join_request (''ThroughputGuest'' @ digits run) room_code))
         (andThen (recv ws2)
         (andThen (for_each drain [ws1, ws2])
         (andThen (pipelined ws1 ws2 (chat_messages ''msg'' n_messages))
         (andThen (close ws1) (close ws2)))))))))"

definition measure_sticky_throughput :: "nat \<Rightarrow> nat \<Rightarrow> unit act" where
  "measure_sticky_throughput n_messages n_runs =
     bind get_sticky_cookie (\<lambda>cookie. for_each (sticky_throughput_run cookie n_messages) [0..<n_runs])"

text \<open>\<open>resp['payload'].get('message', ...)\<close>, of which only the exceptions matter.\<close>

definition error_message_of :: "json \<Rightarrow> unit act" where
  "error_message_of resp =
     (case obj_get ''payload'' resp of
        None \<Rightarrow> raise KeyExc
      | Some p \<Rightarrow> if is_dict p then ret () else raise AttributeExc)"

definition measure_cross_worker_throughput :: "nat \<Rightarrow> unit act" where
  "measure_cross_worker_throughput n_messages =
     andThen get_worker_id_from_cookie
    (bind get_sticky_cookie (\<lambda>cookie1. try_record
       (bind (connect cookie1) (\<lambda>ws1.
        bind (host_room ws1 ''CrossHost'') (\<lambda>r.
        case r of
          None \<Rightarrow> andThen (on_results (record_error ValueExc)) (close ws1)
        | Some room_code \<Rightarrow>
            bind (connect None) (\<lambda>ws2.
            andThen (send ws2 (join_request ''CrossGuest'' room_code))
           (bind (recv ws2) (\<lambda>f.
            bind (json_loads f) (\<lambda>resp.
            andThen get_worker_id_from_cookie
           (bind (get_type resp) (\<lambda>t.
            if t = JStr ''error''
            then andThen (error_message_of resp)
                (andThen (on_results (record_error ValueExc)) (andThen (close ws1) (close ws2)))
            else andThen (for_each drain [ws1, ws2])
                (andThen (pipelined ws1 ws2 (chat_messages ''xmsg'' n_messages))
                         (andThen (close ws1) (close ws2))))))))))))))"

subsection \<open>The run\<close>

definition sticky_tests :: "nat \<Rightarrow> (string \<times> unit act) list" where
  "sticky_tests n =
     [(''Sticky Connection (same worker)'', measure_sticky_connection n),
      (''Sticky Room Flow ('' @ digits n @ '' players, 100 samples)'', measure_sticky_room_flow n 100),
      (''Sticky Throughput (200 msgs, 3 runs)'', measure_sticky_throughput 200 3),
      (''Cross-Worker Throughput (100 msgs, via Redis)'', measure_cross_worker_throughput 100)]"

definition sticky_run_all_tests :: "nat \<Rightarrow> rat option \<Rightarrow> (bool \<times> perf_results list) act" where
  "sticky_run_all_tests n_clients p95_max =
     andThen (sticky_warmup 5) (bind (in_turn (sticky_tests n_clients)) (\<lambda>rs. ret (threshold_passed p95_max rs, rs)))"

definition sticky_main_status :: "nat \<Rightarrow> rat option \<Rightarrow> lab \<Rightarrow> nat" where
  "sticky_main_status n_clients p95_max s =
     exit_status p95_max (map_sum id fst (fst (sticky_run_all_tests n_clients p95_max s)))"

subsection \<open>A server that cannot be reached\<close>

lemma unheard_cookie:
  assumes "answers s = []"
  shows "fst (get_sticky_cookie s) = Inr None \<and> idle 0 s (snd (get_sticky_cookie s))"
    "fst (get_worker_id_from_cookie s) = Inr None \<and> idle 0 s (snd (get_worker_id_from_cookie s))"
  using assms by (simp_all add: get_sticky_cookie_def get_worker_id_from_cookie_def bind_def ret_def log_call_def idle_def)

lemma unheard_after:
  assumes "\<And>s. answers s = [] \<Longrightarrow> fst (g s) = Inr a \<and> idle 0 s (snd (g s))" "unheard k (f a)"
  shows "unheard k (bind g f)"
  unfolding unheard_def
proof (intro allI impI)
  fix s :: lab
  assume "answers s = []"
  from assms(1) [OF this] obtain s1 where g: "g s = (Inr a, s1)" "idle 0 s s1" by (cases "g s") auto
  then have "answers s1 = []" by (simp add: idle_def)
  with assms(2) g show "fst (bind g f s) = Inr () \<and> idle k s (snd (bind g f s))"
    by (simp add: unheard_def bind_def idle_def)
qed

lemma unheard_sticky_tests:
  "unheard 0 (sticky_warmup k)" "unheard n (measure_sticky_connection n)" "unheard 0 (measure_sticky_room_flow n k)"
  "unheard 0 (measure_sticky_throughput k n)" "unheard 0 (measure_cross_worker_throughput k)"
proof -
  note each = unheard_for_each [where k = "\<lambda>_. 0", simplified]
  note cookie = unheard_after [OF unheard_cookie(1)] and worker = unheard_after [OF unheard_cookie(2)]
  have "unheard 0 (try_pass (bind get_sticky_cookie f))" if "\<And>c. unheard 0 (try_pass (f c))" for f :: "string option \<Rightarrow> unit act"
    unfolding unheard_def
  proof (intro allI impI)
    fix s :: lab
    assume "answers s = []"
    from unheard_cookie(1) [OF this] obtain s1 where g: "get_sticky_cookie s = (Inr None, s1)" "idle 0 s s1"
      by (cases "get_sticky_cookie s") auto
    then have "answers s1 = []" by (simp add: idle_def)
    with that [of None] g show "fst (try_pass (bind get_sticky_cookie f) s) = Inr ()
        \<and> idle 0 s (snd (try_pass (bind get_sticky_cookie f) s))"
      by (simp add: unheard_def try_pass_def bind_def idle_def split: prod.splits)
  qed
  then show "unheard 0 (sticky_warmup k)" unfolding sticky_warmup_def by (intro each) (simp add: unheard_try)
  show "unheard 0 (measure_sticky_throughput k n)"
    unfolding measure_sticky_throughput_def sticky_throughput_run_def by (intro cookie each unheard_try)
  show "unheard 0 (measure_cross_worker_throughput k)"
    unfolding measure_cross_worker_throughput_def andThen_def by (intro worker cookie unheard_try)
  have one: "unheard 1 (sticky_connect_measure c)" for c
    by (auto simp: unheard_def idle_def sticky_connect_measure_def actions)
  have burst: "unheard (sum_list (map (\<lambda>b. b) (burst_sizes (min n 10) n)))
      (for_each (\<lambda>batch. for_each (\<lambda>_. sticky_connect_measure c) [0..<batch]) (burst_sizes (min n 10) n))" for c
    using unheard_for_each [of "[0..<b]" "\<lambda>_. 1" "\<lambda>_. sticky_connect_measure c" for b] one
    by (intro unheard_for_each) (simp add: sum_list_triv)
  have n: "sum_list (burst_sizes (min n 10) n) = n"
    by (cases "n = 0") (simp_all add: sum_burst_sizes burst_sizes.simps [of _ 0])
  show "unheard n (measure_sticky_connection n)"
    unfolding measure_sticky_connection_def andThen_def [of get_worker_id_from_cookie]
    by (intro cookie worker burst [unfolded list.map_ident n]) assumption+
  have host: "fst (open_sticky_host c name s) = Inr None \<and> idle 0 s (snd (open_sticky_host c name s))"
    if "answers s = []" for c name s
    using that by (simp add: open_sticky_host_def try_or_return_def idle_def actions)
  show "unheard 0 (measure_sticky_room_flow n k)"
    unfolding measure_sticky_room_flow_def by (intro cookie unheard_after [OF host]; simp add: unheard_ret)
qed

text \<open>
  The verdict of the two load tests when no connection can be opened. The test with the cookie has
  no sample at all, and passes under every threshold. The other one has a single sample, the time the attempts
  of the concurrent connections took to fail, and passes if that is within the threshold. Both exit with 0.
\<close>

theorem unreachable_server_passes:
  assumes "answers s = []"
  shows "sticky_main_status n (Some m) s = 0
    \<and> (\<exists>rs. fst (sticky_run_all_tests n (Some m) s) = Inr (True, rs) \<and> concat (map samples rs) = [])
    \<and> (let x = fl64 (clock_at s (reads s + n + 1) - clock_at s (reads s + n))
       in fl64 (x * 1000) \<le> m \<longrightarrow>
            main_status n ramp_up (Some m) s = 0
            \<and> (\<exists>rs. fst (run_all_tests n ramp_up (Some m) s) = Inr (True, rs) \<and> concat (map samples rs) = [x]))"
proof -
  obtain s0 where w: "sticky_warmup 5 s = (Inr (), s0)" "answers s0 = []"
    using unheard_sticky_tests(1) [of 5] assms(1) by (cases "sticky_warmup 5 s") (auto simp: unheard_def idle_def)
  have "list_all2 (\<lambda>k t. unheard k (snd t)) [n, 0, 0, 0] (sticky_tests n)"
    by (simp add: sticky_tests_def unheard_sticky_tests)
  from in_turn_unheard [OF this w(2)] obtain rs s1 where
    rs: "in_turn (sticky_tests n) s0 = (Inr rs, s1)" "list_all (\<lambda>r. samples r = []) rs" by blast
  then have "\<not> list_ex (breaches m) rs" "concat (map samples rs) = []"
    by (simp_all add: list_all_iff list_ex_iff breaches_def)
  with w rs(1) have "fst (sticky_run_all_tests n (Some m) s) = Inr (True, rs) \<and> concat (map samples rs) = []"
    by (simp add: sticky_run_all_tests_def andThen_def bind_def ret_def threshold_passed_def)
  moreover from this have "sticky_main_status n (Some m) s = 0" by (simp add: sticky_main_status_def exit_status_def)
  ultimately show ?thesis using unreachable_run [OF assms, of n m ramp_up] by (auto simp: Let_def)
qed

theorem unreachable_server_passes_witness:
  "sticky_main_status 10 (Some 50) (still_lab []) = 0 \<and> main_status 10 True (Some 50) (still_lab []) = 0"
  using unreachable_server_passes [of "still_lab []" 10 50 True] by (simp add: still_lab_def)

end
