(* ===== verification/Coord_Server.thy ===== *)
theory Coord_Server
  imports Messages Py_Numbers
begin

text \<open>
  The coordination server of the load tests, \<open>k6/coord_server.py\<close>: the hosts publish the codes of their rooms
  under an index, the joiners read them. The state is the dictionary \<open>_rooms\<close> in its insertion order; a request
  is a value, the text of an index is read as Python's \<open>int\<close> does on ASCII digits (with underscores; the limit
  on the number of digits is left out).
\<close>

subsection \<open>Values\<close>

text \<open>\<open>int\<close> of a string; \<open>None\<close> is a \<open>ValueError\<close>.\<close>

definition py_int :: "string \<Rightarrow> int option" where
  "py_int s =
     (let unsigned = (\<lambda>ds. if list_all (\<lambda>w. w \<noteq> [] \<and> list_all is_digit w) (split_on CHR ''_'' ds)
                          then Some (int (nat_of_digits (concat (split_on CHR ''_'' ds)))) else None)
      in case py_strip s of
           [] \<Rightarrow> None
         | c # cs \<Rightarrow> if c = CHR ''-'' then map_option uminus (unsigned cs)
                     else if c = CHR ''+'' then unsigned cs else unsigned (c # cs))"

fun json_true :: "json \<Rightarrow> bool" where
  "json_true JNull = False"
| "json_true (JBool b) = b"
| "json_true (JInt n) = (n \<noteq> 0)"
| "json_true (JFloat x) = (x \<noteq> 0)"
| "json_true (JStr s) = (s \<noteq> [])"
| "json_true (JList xs) = (xs \<noteq> [])"
| "json_true (JObject kvs) = (kvs \<noteq> [])"

subsection \<open>Requests and responses\<close>

text \<open>The body of a POST is \<open>None\<close> if it is not JSON.\<close>

datatype coord_request =
    GetRoom string | ListRooms | PostRoom string "json option" | DeleteRoom string | DeleteAllRooms | Health | Reset

datatype coord_body =
    InvalidIndex | InvalidBody | MissingCode
  | RoomCode int json | NotYetCreated int | Rooms "(int \<times> json) list" nat | Published int json
  | Removed int | RoomNotFound | AllCleared | HealthOk nat | WasReset

type_synonym rooms_dict = "(int \<times> json) list"

definition handle_get_room :: "string \<Rightarrow> rooms_dict \<Rightarrow> nat \<times> coord_body" where
  "handle_get_room index d =
     (case py_int index of
        None \<Rightarrow> (400, InvalidIndex)
      | Some i \<Rightarrow>
          (case map_of d i of
             None \<Rightarrow> (404, NotYetCreated i)
           | Some v \<Rightarrow> if json_true v then (200, RoomCode i v) else (404, NotYetCreated i)))"

definition handle_list_rooms :: "rooms_dict \<Rightarrow> nat \<times> coord_body" where
  "handle_list_rooms d = (200, Rooms d (length d))"

definition handle_post_room :: "string \<Rightarrow> json option \<Rightarrow> rooms_dict \<Rightarrow> rooms_dict \<times> nat \<times> coord_body" where
  "handle_post_room index data d =
     (case py_int index of
        None \<Rightarrow> (d, 400, InvalidIndex)
      | Some i \<Rightarrow>
          (case data of
             Some (JObject kvs) \<Rightarrow>
               let room_code = (case map_of kvs ''room_code'' of None \<Rightarrow> JNull | Some v \<Rightarrow> v)
               in if \<not> json_true room_code then (d, 400, MissingCode)
                  else (AList.update i room_code d, 200, Published i room_code)
           | _ \<Rightarrow> (d, 400, InvalidBody)))"

definition handle_delete_room :: "string \<Rightarrow> rooms_dict \<Rightarrow> rooms_dict \<times> nat \<times> coord_body" where
  "handle_delete_room index d =
     (case py_int index of
        None \<Rightarrow> (d, 400, InvalidIndex)
      | Some i \<Rightarrow>
          (AList.delete i d,
           case map_of d i of
             None \<Rightarrow> (404, RoomNotFound)
           | Some removed \<Rightarrow> if json_true removed then (200, Removed i) else (404, RoomNotFound)))"

definition handle_delete_all_rooms :: "rooms_dict \<Rightarrow> rooms_dict \<times> nat \<times> coord_body" where
  "handle_delete_all_rooms d = ([], 200, AllCleared)"

definition handle_health :: "rooms_dict \<Rightarrow> nat \<times> coord_body" where
  "handle_health d = (200, HealthOk (length d))"

definition handle_reset :: "rooms_dict \<Rightarrow> rooms_dict \<times> nat \<times> coord_body" where
  "handle_reset d = ([], 200, WasReset)"

text \<open>The routes of \<open>create_app\<close>.\<close>

definition coord_app :: "coord_request \<Rightarrow> rooms_dict \<Rightarrow> rooms_dict \<times> nat \<times> coord_body" where
  "coord_app req d =
     (case req of
        GetRoom i \<Rightarrow> (d, handle_get_room i d)
      | ListRooms \<Rightarrow> (d, handle_list_rooms d)
      | PostRoom i data \<Rightarrow> handle_post_room i data d
      | DeleteRoom i \<Rightarrow> handle_delete_room i d
      | DeleteAllRooms \<Rightarrow> handle_delete_all_rooms d
      | Health \<Rightarrow> (d, handle_health d)
      | Reset \<Rightarrow> handle_reset d)"

definition coord_state :: "coord_request list \<Rightarrow> rooms_dict" where
  "coord_state reqs = fold (\<lambda>req d. fst (coord_app req d)) reqs []"

subsection \<open>What a joiner reads\<close>

text \<open>The code of an index after a history of requests, the newest one first, without any table of rooms.\<close>

fun published :: "int \<Rightarrow> coord_request list \<Rightarrow> json option" where
  "published i [] = None"
| "published i (PostRoom index data # older) =
     (case handle_post_room index data [] of
        (_, _, Published j v) \<Rightarrow> if j = i then Some v else published i older
      | _ \<Rightarrow> published i older)"
| "published i (DeleteRoom index # older) = (if py_int index = Some i then None else published i older)"
| "published i (DeleteAllRooms # older) = None"
| "published i (Reset # older) = None"
| "published i (req # older) = published i older"

lemma coord_state_snoc: "coord_state (reqs @ [req]) = fst (coord_app req (coord_state reqs))"
  by (simp add: coord_state_def)

lemma coord_state_facts:
  "map_of (coord_state reqs) i = published i (rev reqs)"
  "distinct (map fst (coord_state reqs))" "list_all json_true (map snd (coord_state reqs))"
proof (induction reqs arbitrary: i rule: rev_induct)
  case (snoc req reqs)
  {
    case 1
    show ?case
      by (cases req)
        (auto simp: coord_state_snoc coord_app_def snoc(1) handle_post_room_def handle_delete_room_def handle_reset_def
          handle_delete_all_rooms_def update_conv' delete_conv' Let_def split: option.split json.split)
  next
    case 2
    show ?case using snoc(2)
      by (cases req)
        (auto simp: coord_state_snoc coord_app_def handle_post_room_def handle_delete_room_def handle_reset_def
          handle_delete_all_rooms_def distinct_update distinct_delete Let_def split: option.split json.split)
  next
    case 3
    have upd: "list_all json_true (map snd (AList.update k v d))" if "json_true v" "list_all json_true (map snd d)" for k v d
      using that by (induction d) auto
    have del: "list_all json_true (map snd (AList.delete k d))" if "list_all json_true (map snd d)" for k d
      using that by (induction d) auto
    show ?case using snoc(3)
      by (cases req)
        (auto simp: coord_state_snoc coord_app_def handle_post_room_def handle_delete_room_def handle_reset_def upd del
          handle_delete_all_rooms_def Let_def simp del: list.pred_map split: option.split json.split)
  }
qed (simp_all add: coord_state_def)

text \<open>
  After any requests, a joiner that asks for an index gets the code that was last published
  there, unless it was deleted or everything was cleared since, and is told to wait if there is none; the table
  lists each index once.
\<close>

theorem joiner_reads_last_published:
  "coord_app (GetRoom index) (coord_state reqs) =
     (coord_state reqs,
      case py_int index of
        None \<Rightarrow> (400, InvalidIndex)
      | Some i \<Rightarrow> (case published i (rev reqs) of None \<Rightarrow> (404, NotYetCreated i) | Some v \<Rightarrow> (200, RoomCode i v)))
   \<and> distinct (map fst (coord_state reqs))"
proof -
  have "json_true v" if "map_of (coord_state reqs) i = Some v" for i v
    using map_of_SomeD [OF that] coord_state_facts(3) [of reqs] by (auto simp: list_all_iff)
  then show ?thesis
    using coord_state_facts(1) [of reqs] coord_state_facts(2) [of reqs]
    by (auto simp: coord_app_def handle_get_room_def split: option.split)
qed

end
