(* ===== verification/Gateway_Logs.thy ===== *)
theory Gateway_Logs
  imports Py_Numbers
begin

text \<open>
  The parsers of the gateway's log: \<open>gateway/parse_logs.py\<close> counts the tags of the lines and the causes of
  failed dials, \<open>gateway/parse_logs_v2.py\<close> keeps samples of the errors and the times as well. A log is the
  list of its lines, each with its newline but perhaps the last. A regular expression is the function that
  finds its leftmost match; the text is ASCII, as in the theory \<open>Py_Text\<close>.
\<close>

subsection \<open>The patterns\<close>

definition TAGS :: "string list" where
  "TAGS = [''UPGRADE_FAILED'', ''CONNECTED'', ''FIRST_MSG_FAILED'', ''NO_BACKEND'', ''DIAL_RETRY'', ''DIAL_FAILED'',
           ''DIAL_OK'', ''FORWARD_FAILED'', ''SESSION_END'']"

abbreviation newline :: char where
  "newline \<equiv> char_of (10 :: nat)"

definition is_word_char :: "char \<Rightarrow> bool" where
  "is_word_char c \<longleftrightarrow> is_alnum c \<or> c = CHR ''_''"

text \<open>The leftmost position from which a match starts.\<close>

fun re_search :: "(string \<Rightarrow> 'a option) \<Rightarrow> string \<Rightarrow> 'a option" where
  "re_search m [] = m []"
| "re_search m (c # cs) = (case m (c # cs) of Some x \<Rightarrow> Some x | None \<Rightarrow> re_search m cs)"

text \<open>\<open>\[gateway\]\s+(UPGRADE_FAILED|...)\b\<close>.\<close>

definition match_tag :: "string \<Rightarrow> string option" where
  "match_tag s =
     (let rest = drop 9 s; r = dropWhile is_space rest
      in if prefix ''[gateway]'' s \<and> rest \<noteq> [] \<and> is_space (hd rest)
         then List.find (\<lambda>t. prefix t r \<and> (case drop (length t) r of [] \<Rightarrow> True | c # _ \<Rightarrow> \<not> is_word_char c)) TAGS
         else None)"

text \<open>The text after a label: \<open>(\d+)\<close>, \<open>(.+?)(?:\s|$)\<close> and \<open>(.+?)$\<close>.\<close>

definition after :: "string \<Rightarrow> (string \<Rightarrow> 'a option) \<Rightarrow> string \<Rightarrow> 'a option" where
  "after label m s = (if prefix label s then m (drop (length label) s) else None)"

definition match_digits :: "string \<Rightarrow> string option" where
  "match_digits s = (let ds = takeWhile is_digit s in if ds = [] then None else Some ds)"

definition match_word :: "string \<Rightarrow> string option" where
  "match_word s =
     (case s of [] \<Rightarrow> None | c # cs \<Rightarrow> if c = newline then None else Some (c # takeWhile (\<lambda>x. \<not> is_space x) cs))"

definition match_rest :: "string \<Rightarrow> string option" where
  "match_rest s =
     (let g = takeWhile (\<lambda>c. c \<noteq> newline) s in if g \<noteq> [] \<and> length s \<le> length g + 1 then Some g else None)"

subsection \<open>The counts of \<open>parse_logs.py\<close>\<close>

definition dial_error_key :: "string \<Rightarrow> string" where
  "dial_error_key err_text =
     (if sublist ''connection refused'' err_text then ''connection_refused''
      else if sublist ''i/o timeout'' err_text then ''io_timeout''
      else if sublist ''connection reset'' err_text then ''connection_reset''
      else if sublist ''context deadline'' err_text then ''context_deadline''
      else if sublist ''EOF'' err_text then ''eof''
      else take 80 err_text)"

record log_counts =
  lc_counts :: "(string \<times> nat) list"
  lc_dial_errors :: "(string \<times> nat) list"

definition count_line :: "string \<Rightarrow> log_counts \<Rightarrow> log_counts" where
  "count_line line l =
     (case re_search match_tag line of
        None \<Rightarrow> l
      | Some tag \<Rightarrow>
          let l1 = l\<lparr>lc_counts := count_up tag (lc_counts l)\<rparr>
          in if tag \<in> {''DIAL_RETRY'', ''DIAL_FAILED''}
             then (case re_search (after ''err='' match_word) line of
                     None \<Rightarrow> l1
                   | Some e \<Rightarrow> l1\<lparr>lc_dial_errors := count_up (dial_error_key (py_strip e)) (lc_dial_errors l1)\<rparr>)
             else l1)"

record log_report =
  lr_counts :: "(string \<times> nat) list"
  lr_breakdown :: "(string \<times> nat) list option"

definition parse_log :: "bool \<Rightarrow> string list \<Rightarrow> log_report" where
  "parse_log errors_only lines =
     (let l = fold count_line lines \<lparr>lc_counts = [], lc_dial_errors = []\<rparr>;
          result = map (\<lambda>tag. (tag, count_get tag (lc_counts l))) TAGS
      in \<lparr>lr_counts = (if errors_only
                       then filter (\<lambda>(k, v). 0 < v \<and> k \<notin> {''CONNECTED'', ''DIAL_OK'', ''SESSION_END''}) result
                       else result),
          lr_breakdown = (if lc_dial_errors l \<noteq> [] then Some (most_common (lc_dial_errors l)) else None)\<rparr>)"

subsection \<open>The times and samples of \<open>parse_logs_v2.py\<close>\<close>

text \<open>\<open>re.sub\<close> of \<open>start\d+->\<close>: the digits of a port are replaced by a star.\<close>

function mask_port :: "string \<Rightarrow> string \<Rightarrow> string" where
  "mask_port start s =
     (case s of
        [] \<Rightarrow> []
      | c # cs \<Rightarrow>
          let r = drop (length start) s; r' = dropWhile is_digit r
          in if prefix start s \<and> r \<noteq> [] \<and> is_digit (hd r) \<and> prefix ''->'' r'
             then start @ ''*->'' @ mask_port start (drop 2 r')
             else c # mask_port start cs)"
  by pat_completeness auto
termination
proof (relation "measure (length \<circ> snd)", simp, goal_cases)
  case (1 start s c cs r r')
  then have "length (drop 2 r') < length r'" by (auto simp: prefix_def)
  moreover have "length r' \<le> length r" using 1 length_dropWhile_le [of is_digit r] by simp
  moreover have "length r \<le> length s" using 1 by simp
  ultimately show ?case by simp
qed simp

declare mask_port.simps [simp del]

definition normalize_error :: "string \<Rightarrow> string" where
  "normalize_error err_text = mask_port ''127.0.0.1:'' (mask_port ''[::1]:'' err_text)"

text \<open>A \<open>defaultdict(list)\<close>; reading a key that is missing adds it.\<close>

definition touch :: "string \<Rightarrow> (string \<times> 'a list) list \<Rightarrow> (string \<times> 'a list) list" where
  "touch k d = (if map_of d k = None then d @ [(k, [])] else d)"

definition push :: "string \<Rightarrow> 'a \<Rightarrow> (string \<times> 'a list) list \<Rightarrow> (string \<times> 'a list) list" where
  "push k x d = AList.update k ((case map_of d k of None \<Rightarrow> [] | Some xs \<Rightarrow> xs) @ [x]) d"

record log_stats =
  ls_counts :: "(string \<times> nat) list"
  ls_dial_errors :: "(string \<times> nat) list"
  full_error_messages :: "(string \<times> string list) list"
  timing_data :: "(string \<times> nat list) list"

definition ERROR_TAGS :: "string set" where
  "ERROR_TAGS = {''DIAL_RETRY'', ''DIAL_FAILED'', ''UPGRADE_FAILED'', ''FIRST_MSG_FAILED'', ''FORWARD_FAILED'', ''NO_BACKEND''}"

definition collect_error :: "int \<Rightarrow> string \<Rightarrow> string \<Rightarrow> log_stats \<Rightarrow> log_stats" where
  "collect_error max_samples tag line l =
     (if tag \<in> ERROR_TAGS
      then (case re_search (after ''err='' match_rest) line of
              None \<Rightarrow> l
            | Some g \<Rightarrow>
                let err_text = py_strip g; kept = touch tag (full_error_messages l)
                in l\<lparr>ls_dial_errors := count_up (normalize_error err_text) (ls_dial_errors l),
                     full_error_messages :=
                       (if int (length (the (map_of kept tag))) < max_samples then push tag err_text kept else kept)\<rparr>)
      else l)"

text \<open>The number after a label, appended to a series.\<close>

definition collect_time :: "string \<Rightarrow> string \<Rightarrow> string \<Rightarrow> log_stats \<Rightarrow> log_stats" where
  "collect_time label series line l =
     (case re_search (after label match_digits) line of
        None \<Rightarrow> l
      | Some ds \<Rightarrow> l\<lparr>timing_data := push series (nat_of_digits ds) (timing_data l)\<rparr>)"

text \<open>\<open>attempts?=(\d+)\<close>.\<close>

definition match_attempts :: "string \<Rightarrow> string option" where
  "match_attempts s =
     (case after ''attempts='' match_digits s of Some ds \<Rightarrow> Some ds | None \<Rightarrow> after ''attempt='' match_digits s)"

definition collect_line :: "int \<Rightarrow> string \<Rightarrow> log_stats \<Rightarrow> log_stats" where
  "collect_line max_samples line l =
     (case re_search match_tag line of
        None \<Rightarrow> l
      | Some tag \<Rightarrow>
          let l1 = collect_error max_samples tag line (l\<lparr>ls_counts := count_up tag (ls_counts l)\<rparr>);
              l2 = (if tag = ''DIAL_OK''
                    then collect_time ''active_backends='' ''active_backends_at_ok'' line (collect_time ''dial_ms='' ''dial_ms'' line l1)
                    else l1);
              l3 = (if tag = ''DIAL_FAILED''
                    then collect_time ''active_backends='' ''active_backends_at_fail'' line
                           (collect_time ''total_ms='' ''failed_total_ms'' line l2)
                    else l2)
          in if tag = ''DIAL_RETRY'' \<and> re_search match_attempts line = Some ''1''
             then collect_time ''active_backends='' ''active_backends_at_first_retry'' line l3
             else l3)"

record timing =
  tm_count :: nat
  tm_min :: nat
  tm_max :: nat
  tm_median :: nat
  tm_p90 :: nat
  tm_p95 :: nat
  tm_avg :: rat

text \<open>The statistics of a series that is not empty.\<close>

definition timing_of :: "nat list \<Rightarrow> timing" where
  "timing_of vals =
     (let values = sort vals; n = length values
      in \<lparr>tm_count = n, tm_min = values ! 0, tm_max = last values, tm_median = values ! (n div 2),
          tm_p90 = (if 10 < n then values ! rank_index (9 / 10) n else last values),
          tm_p95 = (if 20 < n then values ! rank_index (95 / 100) n else last values),
          tm_avg = py_round_to 1 (fl64 (of_nat (sum_list values) / of_nat n))\<rparr>)"

record stats_report =
  sr_counts :: "(string \<times> nat) list"
  sr_breakdown :: "(string \<times> nat) list"
  sr_samples :: "(string \<times> string list) list"
  sr_timing :: "(string \<times> timing) list"
  sr_breaking_point :: "(nat \<times> (nat \<times> nat) list) option"

text \<open>The series are sorted in place before the breaking point is computed from one of them.\<close>

definition breaking_point :: "nat list \<Rightarrow> (nat \<times> (nat \<times> nat) list) option" where
  "breaking_point retries =
     (if retries = [] then None
      else Some (Min (set retries), take 5 (most_common (counter (map (\<lambda>v. v div 100 * 100) (sort retries))))))"

definition parse_log_stats :: "int \<Rightarrow> string list \<Rightarrow> stats_report" where
  "parse_log_stats max_samples lines =
     (let l = fold (collect_line max_samples) lines
                \<lparr>ls_counts = [], ls_dial_errors = [], full_error_messages = [], timing_data = []\<rparr>
      in \<lparr>sr_counts = map (\<lambda>tag. (tag, count_get tag (ls_counts l))) TAGS,
          sr_breakdown = take 10 (most_common (ls_dial_errors l)),
          sr_samples = full_error_messages l,
          sr_timing = map (\<lambda>(key, vals). (key, timing_of vals)) (filter (\<lambda>(key, vals). vals \<noteq> []) (timing_data l)),
          sr_breaking_point =
            breaking_point (case map_of (timing_data l) ''active_backends_at_first_retry'' of None \<Rightarrow> [] | Some vs \<Rightarrow> vs)\<rparr>)"

subsection \<open>Facts\<close>

lemma re_search_Some: "re_search m s = Some x \<Longrightarrow> \<exists>t. suffix t s \<and> m t = Some x"
  by (induction m s rule: re_search.induct) (auto split: option.splits intro: suffix_ConsI)

text \<open>A word that \<open>match_word\<close> finds has no space but perhaps in front, so a phrase of two words is not in it.\<close>

lemma word_has_no_phrase:
  assumes "re_search (after label match_word) line = Some e" "p \<noteq> []" "is_space c"
  shows "\<not> sublist (p @ c # q) (py_strip e)"
proof
  obtain x xs where e: "e = x # xs" "list_all (\<lambda>y. \<not> is_space y) xs"
    using re_search_Some [OF assms(1)]
    by (auto simp: after_def match_word_def list_all_iff split: if_splits list.splits dest: set_takeWhileD)
  assume "sublist (p @ c # q) (py_strip e)"
  moreover have "sublist (py_strip e) e"
  proof -
    have "suffix (dropWhile is_space e) e" by (rule suffix_dropWhile)
    moreover have "prefix (py_strip e) (dropWhile is_space e)"
      using suffix_dropWhile [of is_space "rev (dropWhile is_space e)"] by (simp add: py_strip_def suffix_to_prefix)
    ultimately show ?thesis by (meson prefix_imp_sublist sublist_order.order_trans suffix_imp_sublist)
  qed
  ultimately have "sublist (p @ c # q) (x # xs)" unfolding e(1) by (meson sublist_order.order_trans)
  then obtain a b where "x # xs = a @ p @ c # q @ b" by (auto simp: sublist_def)
  with assms(2) have "c \<in> set xs" by (cases a; cases p) auto
  with assms(3) e(2) show False by (auto simp: list_all_iff)
qed

text \<open>The tag of a line, and the word after \<open>err=\<close> of a line about a failed dial.\<close>

definition line_tag :: "string \<Rightarrow> string option" where
  "line_tag line = re_search match_tag line"

definition dial_word :: "string \<Rightarrow> string option" where
  "dial_word line =
     (if line_tag line \<in> {Some ''DIAL_RETRY'', Some ''DIAL_FAILED''}
      then map_option py_strip (re_search (after ''err='' match_word) line) else None)"

lemma count_lines:
  "fold count_line lines \<lparr>lc_counts = [], lc_dial_errors = []\<rparr> =
     \<lparr>lc_counts = counter (List.map_filter line_tag lines),
      lc_dial_errors = counter (map dial_error_key (List.map_filter dial_word lines))\<rparr>"
proof (induction lines rule: rev_induct)
  case (snoc line lines)
  then show ?case
    by (auto simp: count_line_def Let_def List.map_filter_def counter_snoc dial_word_def line_tag_def split: option.split)
qed (simp add: counter_def List.map_filter_def)

lemma collect_error_counts [simp]: "ls_counts (collect_error n tag line l) = ls_counts l"
  by (simp add: collect_error_def Let_def split: option.split)

lemma collect_time_counts [simp]: "ls_counts (collect_time label series line l) = ls_counts l"
  by (simp add: collect_time_def split: option.split)

lemma collect_lines_counts:
  "ls_counts (fold (collect_line n) lines l) = fold count_up (List.map_filter line_tag lines) (ls_counts l)"
  by (induction lines arbitrary: l)
    (auto simp: collect_line_def Let_def List.map_filter_def line_tag_def split: option.split)

lemma count_map_filter: "count_list (List.map_filter f xs) y = length (filter (\<lambda>x. f x = Some y) xs)"
  by (induction xs) (auto simp: List.map_filter_def)

lemma set_map_filter_eq: "set (List.map_filter f xs) = {y. \<exists>x \<in> set xs. f x = Some y}"
  by (induction xs) (auto simp: List.map_filter_simps split: option.split)

lemma counter_Nil_iff [simp]: "counter xs = [] \<longleftrightarrow> xs = []"
  using counter_facts(3) [of xs] by (cases xs) (auto simp: counter_def)


text \<open>
  The statistics of a series of up to a trillion times: the least, the middle, the ninetieth and
  ninety-fifth percentile and the greatest time are times of the series in this order, and the percentiles bound
  their share of the times.
\<close>

theorem timing_percentiles:
  assumes "vals \<noteq> []" "length vals \<le> 10 ^ 12"
  shows "tm_min (timing_of vals) = Min (set vals) \<and> tm_max (timing_of vals) = Max (set vals)
    \<and> {tm_median (timing_of vals), tm_p90 (timing_of vals), tm_p95 (timing_of vals)} \<subseteq> set vals
    \<and> tm_median (timing_of vals) \<le> tm_p90 (timing_of vals) \<and> tm_p90 (timing_of vals) \<le> tm_p95 (timing_of vals)
    \<and> length vals \<le> 2 * length (filter (\<lambda>x. x \<le> tm_median (timing_of vals)) vals)
    \<and> 9 * length vals \<le> 10 * length (filter (\<lambda>x. x \<le> tm_p90 (timing_of vals)) vals)
    \<and> 19 * length vals \<le> 20 * length (filter (\<lambda>x. x \<le> tm_p95 (timing_of vals)) vals)"
proof -
  define s where "s = sort vals"
  have n: "length s = length vals" "0 < length vals" using assms(1) by (simp_all add: s_def)
  have set: "set s = set vals" "sorted s" by (simp_all add: s_def)
  have "s \<noteq> []" using n by auto
  note set = set this
  have last: "last s = s ! (length vals - 1)" using set(3) n by (simp add: last_conv_nth)
  have mem: "s ! j \<in> set vals" if "j < length vals" for j using that n set(1) by (metis nth_mem)
  have le: "s ! j \<le> s ! k" if "j \<le> k" "k < length vals" for j k using that n set(2) by (simp add: sorted_nth_mono)
  have between: "s ! 0 \<le> y \<and> y \<le> last s" if y: "y \<in> set vals" for y
  proof -
    obtain k where "k < length vals" "y = s ! k" using y n set(1) by (metis in_set_conv_nth)
    then show ?thesis unfolding last by (simp add: le)
  qed
  have ends: "s ! 0 = Min (set vals)" "last s = Max (set vals)"
    using between mem [of 0] mem [of "length vals - 1"] n last
    by (auto intro!: Min_eqI [symmetric] Max_eqI [symmetric])
  define i90 where "i90 = (if 10 < length vals then rank_index (9 / 10) (length vals) else length vals - 1)"
  define i95 where "i95 = (if 20 < length vals then rank_index (95 / 100) (length vals) else length vals - 1)"
  have i: "length vals div 2 < length vals" "i90 < length vals" "i95 < length vals" "length vals div 2 \<le> i90" "i90 \<le> i95"
    "9 * length vals \<le> 10 * (i90 + 1)" "19 * length vals \<le> 20 * (i95 + 1)"
    using n assms(2) rank_90 [of "length vals"] rank_95 [of "length vals"] by (auto simp: i90_def i95_def)
  have t: "tm_median (timing_of vals) = s ! (length vals div 2)" "tm_p90 (timing_of vals) = s ! i90"
    "tm_p95 (timing_of vals) = s ! i95" "tm_min (timing_of vals) = s ! 0" "tm_max (timing_of vals) = last s"
    using n last by (simp_all add: timing_of_def Let_def i90_def i95_def s_def)
  have "length vals \<le> 2 * length (filter (\<lambda>x. x \<le> s ! (length vals div 2)) vals)"
    using share_below [OF i(1), of 1 2, folded s_def] half_share [of "length vals"] by simp
  then show ?thesis unfolding t ends(1,2)
    using mem [OF i(1)] mem [OF i(2)] mem [OF i(3)] le [OF i(4,2)] le [OF i(5,3)]
      share_below [OF i(2,6), folded s_def] share_below [OF i(3,7), folded s_def] by simp
qed

theorem timing_percentiles_witness:
  "tm_p95 (timing_of [0..<41]) = 38 \<and> 19 * 41 \<le> 20 * length (filter (\<lambda>x. x \<le> 38) [0..<41 :: nat])"
proof -
  have "rank_index (95 / 100) 41 = 38" by code_simp
  then have "tm_p95 (timing_of [0..<41]) = [0..<41] ! 38" by (simp add: timing_of_def Let_def sorted_sort_id)
  then have "tm_p95 (timing_of [0..<41]) = 38" by simp
  then show ?thesis using timing_percentiles [of "[0..<41]"] by simp
qed

end
