(* ===== verification/Endpoints.thy ===== *)
theory Endpoints
  imports Application Py_Numbers
begin

text \<open>
  What the process shows over HTTP besides its health: the metrics of \<open>backend/metrics_exporter.py\<close>, with the
  counters and gauges of the Prometheus client as numbers, and the files of the frontend that the catch-all
  route of \<open>backend/main.py\<close> serves. Which files exist is an argument.
\<close>

subsection \<open>Metrics\<close>

record exporter =
  active_rooms_gauge :: int
  active_players_gauge :: int
  grpc_streams_gauge :: int
  messages_total :: "((string \<times> string) \<times> nat) list"
  guesses_total :: "(string \<times> nat) list"

definition new_exporter :: exporter where
  "new_exporter = \<lparr>active_rooms_gauge = 0, active_players_gauge = 0, grpc_streams_gauge = 0, messages_total = [], guesses_total = []\<rparr>"

definition record_message :: "string \<Rightarrow> string \<Rightarrow> exporter \<Rightarrow> exporter" where
  "record_message msg_type direction x = x\<lparr>messages_total := count_up (msg_type, direction) (messages_total x)\<rparr>"

definition record_guess :: "string \<Rightarrow> exporter \<Rightarrow> exporter" where
  "record_guess outcome x = x\<lparr>guesses_total := count_up outcome (guesses_total x)\<rparr>"

definition set_active_rooms :: "int \<Rightarrow> exporter \<Rightarrow> exporter" where
  "set_active_rooms n x = x\<lparr>active_rooms_gauge := max 0 n\<rparr>"

definition set_active_players :: "int \<Rightarrow> exporter \<Rightarrow> exporter" where
  "set_active_players n x = x\<lparr>active_players_gauge := max 0 n\<rparr>"

definition set_grpc_streams :: "int \<Rightarrow> exporter \<Rightarrow> exporter" where
  "set_grpc_streams n x = x\<lparr>grpc_streams_gauge := max 0 n\<rparr>"

text \<open>Opening and closing a stream with the gauge that is set; a scrape of \<open>/metrics\<close>.\<close>

definition stream_metric :: "bool \<Rightarrow> process \<times> exporter \<Rightarrow> process \<times> exporter" where
  "stream_metric opens px =
     (case px of (p, x) \<Rightarrow>
        let p' = (if opens then increment_streams p else decrement_streams p)
        in (p', set_grpc_streams (int (grpc_streams_serving p')) x))"

definition scrape_metrics :: "manager \<Rightarrow> exporter \<Rightarrow> exporter" where
  "scrape_metrics m x =
     (case metrics_endpoint m of (n_rooms, n_players) \<Rightarrow> set_active_players (int n_players) (set_active_rooms (int n_rooms) x))"

text \<open>Whatever streams open and close, also twice, the exported gauge is the one of \<open>/health\<close>.\<close>

lemma stream_gauge_agrees:
  assumes "grpc_streams_gauge x = int (grpc_streams_serving p)" "fold stream_metric evs (p, x) = (p', x')"
  shows "grpc_streams_gauge x' = int (grpc_streams_serving p')"
  using assms
proof (induction evs arbitrary: p x)
  case (Cons ev evs)
  obtain p1 x1 where step: "stream_metric ev (p, x) = (p1, x1)" by fastforce
  then have "grpc_streams_gauge x1 = int (grpc_streams_serving p1)"
    by (auto simp: stream_metric_def set_grpc_streams_def Let_def)
  from Cons.IH [OF this] Cons.prems(2) step show ?case by simp
qed simp

subsection \<open>The files of the frontend\<close>

text \<open>\<open>os.path.join\<close> of two paths: an absolute second one replaces the first.\<close>

definition path_join :: "string \<Rightarrow> string \<Rightarrow> string" where
  "path_join a b = (if prefix ''/'' b then b else if a = [] \<or> last a = CHR ''/'' then a @ b else a @ ''/'' @ b)"

text \<open>The catch-all route, given what follows the first slash of the path of the URL.\<close>

definition serve_spa :: "(string \<Rightarrow> bool) \<Rightarrow> string \<Rightarrow> string \<Rightarrow> string" where
  "serve_spa is_file static_dir full_path =
     (let file_path = path_join static_dir full_path
      in if is_file file_path then file_path else path_join static_dir ''index.html'')"

text \<open>What a path of components leads to from a directory.\<close>

fun walk :: "string list \<Rightarrow> string list \<Rightarrow> string list" where
  "walk dir [] = dir"
| "walk dir (c # cs) =
     (if c \<in> {[], ''.''} then walk dir cs else if c = ''..'' then walk (butlast dir) cs else walk (dir @ [c]) cs)"

lemma walk_stays: "''..'' \<notin> set cs \<Longrightarrow> prefix dir (walk dir cs)"
  by (induction dir cs rule: walk.induct) (auto intro: prefix_order.trans [rotated])

lemma split_path_join:
  assumes "\<not> prefix ''/'' b" "a \<noteq> []" "last a \<noteq> CHR ''/''"
  shows "split_on CHR ''/'' (path_join a b) = split_on CHR ''/'' a @ split_on CHR ''/'' b"
proof -
  have "split_on c (xs @ c # ys) = split_on c xs @ split_on c ys" for c :: char and xs ys
  proof (induction xs)
    case (Cons x xs)
    have "split_on c xs \<noteq> []" by (cases xs) (auto split: list.split)
    with Cons show ?case by (auto split: list.split)
  qed simp
  then show ?thesis using assms by (simp add: path_join_def)
qed

text \<open>
  A request for a relative path without dot-dot components is answered with a file of the directory. But
  a second slash makes the rest of the path absolute, and then any file of the machine is served.
\<close>

theorem serve_spa_files:
  assumes "static_dir \<noteq> []" "last static_dir \<noteq> CHR ''/''"
  shows "\<not> prefix ''/'' p \<Longrightarrow> ''..'' \<notin> set (split_on CHR ''/'' p) \<Longrightarrow>
      prefix (walk [] (split_on CHR ''/'' static_dir)) (walk [] (split_on CHR ''/'' (serve_spa is_file static_dir p)))"
    and "is_file (CHR ''/'' # f) \<Longrightarrow> serve_spa is_file static_dir (CHR ''/'' # f) = CHR ''/'' # f"
proof -
  have app: "walk dir (xs @ ys) = walk (walk dir xs) ys" for dir xs ys
    by (induction dir xs rule: walk.induct) auto
  have inside: "prefix (walk [] (split_on CHR ''/'' static_dir)) (walk [] (split_on CHR ''/'' (path_join static_dir q)))"
    if "\<not> prefix ''/'' q" "''..'' \<notin> set (split_on CHR ''/'' q)" for q
    using that assms by (simp add: split_path_join app walk_stays)
  have "\<not> prefix ''/'' ''index.html''" "''..'' \<notin> set (split_on CHR ''/'' ''index.html'')" by simp_all
  note index = inside [OF this]
  show "\<not> prefix ''/'' p \<Longrightarrow> ''..'' \<notin> set (split_on CHR ''/'' p) \<Longrightarrow>
      prefix (walk [] (split_on CHR ''/'' static_dir)) (walk [] (split_on CHR ''/'' (serve_spa is_file static_dir p)))"
    using inside [of p] index by (simp add: serve_spa_def Let_def)
  show "is_file (CHR ''/'' # f) \<Longrightarrow> serve_spa is_file static_dir (CHR ''/'' # f) = CHR ''/'' # f"
    by (simp add: serve_spa_def path_join_def)
qed

end
