(* ===== verification/Spec2Isabelle.thy ===== *)
theory Spec2Isabelle
  imports Player_Index Dispatch_Facts Game_Progress Subscriber Application Settings_Facts Monitor Sticky_Test
    Coord_Server Gateway_Logs Endpoints
begin

text \<open>
  A verification development for the backend of a multiplayer drawing and guessing game: the Python
  code under \<open>src/backend\<close>, and the Python tools around it: the monitor of a cluster and the load tests
  (\<open>src/scripts\<close>), their coordination server (\<open>src/k6\<close>) and the parsers of the gateway's logs (\<open>src/gateway\<close>).

  \<^bold>\<open>The program.\<close> A worker is one \<open>asyncio\<close> process. Browsers reach it over a WebSocket
  (\<open>ws_handler.py\<close>) or through a gateway that multiplexes many players over one gRPC stream
  (\<open>grpc_server.py\<close>, \<open>virtual_transport.py\<close>). Both turn a client's message into a call of the room
  manager (\<open>room_manager.py\<close>), which holds the rooms, the player index and the pending requests, and which
  calls the turn engine (\<open>game_engine.py\<close>) for everything that happens inside a game. Workers share rooms
  through Redis (\<open>redis_pubsub.py\<close>): the owner of a room is registered there, other workers call it and
  relay its broadcasts, and a draining worker leaves snapshots of its rooms. \<open>main.py\<close>, \<open>grpc_registry.py\<close>
  and \<open>heartbeat.py\<close> start, announce, watch and stop all this.

  \<^bold>\<open>How the model is made.\<close> A dataclass is a record with the fields of the source, an enum a
  datatype, a dictionary a map or an association list (where its order matters). A handler takes the
  environment of the call (\<open>env\<close>: the clock, the numbers the random generator draws, fresh identifiers,
  whether Redis is enabled and the worker draining), the state and its arguments; it returns the new state and its
  outputs in the order the code makes them (\<open>out\<close>: messages sent, sockets closed, calls of Redis), or \<open>Inl\<close> of the exception it raises. An \<open>asyncio\<close> task is a value in the
  room that scheduled it and runs as a step of its own. Players are changed by identifier in the room's list;
  that this agrees with the shared objects and the index \<open>players_by_id\<close> of the code is the subject of
  the theory \<open>Player_Index\<close>.

  \<^bold>\<open>Theories and sources.\<close>

    \<^item> \<open>Prelude\<close>, \<open>Py_Float\<close>, \<open>Py_Text\<close>, \<open>Py_Random\<close>: what the code uses of Python. Exceptions, indexing and
      search in lists, double arithmetic with \<open>round\<close> to even, string methods on ASCII, \<open>random.choice\<close>,
      \<open>sample\<close> and \<open>shuffle\<close> for every outcome of the generator.
    \<^item> \<open>Words_Data\<close>: \<open>words.py\<close>.
    \<^item> \<open>Models\<close>, \<open>Player_Index\<close>: \<open>models.py\<close>. \<open>Messages\<close>: the messages, \<open>env\<close> and \<open>out\<close>.
    \<^item> \<open>Word_Choice\<close>, \<open>Hints\<close>, \<open>Scoring\<close>, \<open>Edit_Distance\<close>, \<open>Chat_Filter\<close>, \<open>Game_Over\<close>, \<open>Turn_Engine\<close>:
      \<open>game_engine.py\<close>; the last one has the turns, guesses, timers and rounds.
    \<^item> \<open>Broadcast\<close>, \<open>Room_Registry\<close>, \<open>Vote_Kick\<close>, \<open>Joining\<close>, \<open>Spectators\<close>, \<open>Presence\<close>, \<open>Lobby\<close>, \<open>Workers\<close>:
      \<open>room_manager.py\<close>, one theory per group of methods.
    \<^item> \<open>Dispatch\<close>, \<open>Connections\<close>: \<open>ws_handler.py\<close>, \<open>grpc_server.py\<close> and \<open>_handle_forwarded_message\<close> of
      \<open>room_manager.py\<close>: which operation a message leads to, and the life of a connection or stream.
    \<^item> \<open>Transport\<close>: \<open>virtual_transport.py\<close>. \<open>Redis_Adapter\<close>: \<open>redis_pubsub.py\<close>.
    \<^item> \<open>Application\<close>: \<open>main.py\<close>, \<open>grpc_registry.py\<close>, the stream gauge of \<open>grpc_metrics.py\<close>, the stream
      life-cycle of \<open>grpc_server.py\<close> and \<open>heartbeat.py\<close>. \<open>Endpoints\<close>: \<open>metrics_exporter.py\<close>, and the files that
      \<open>main.py\<close> serves.
    \<^item> \<open>Py_Numbers\<close>: numbers read from text, counters and ranks, for the tools. \<open>Load_Statistics\<close>, \<open>Load_Agent\<close>,
      \<open>Monitor\<close>: the monitor \<open>scripts/cluster_monitor.py\<close>: its statistics; the sampler, the HTTP handler and the
      node list; the process with its two threads, and the commands that reset and report a cluster.
    \<^item> \<open>Load_Probe\<close>, \<open>Load_Test\<close>, \<open>Sticky_Test\<close>: \<open>scripts/perf_test.py\<close> and \<open>perf_test_sticky.py\<close>. An action takes the
      answers of the \<open>websockets\<close> library, given as a list, to an exception or a value. \<open>Coord_Server\<close>:
      \<open>k6/coord_server.py\<close>. \<open>Gateway_Logs\<close>: \<open>gateway/parse_logs.py\<close> and \<open>parse_logs_v2.py\<close>.
    \<^item> \<open>Server\<close>: a worker as a transition system. A step is a connection that opens, sends or closes, a
      stream event, a task that is due, or a message from Redis; the handlers of the theories above are its
      bodies.

  \<^bold>\<open>What is shown.\<close>

    \<^item> One operation against its purpose: \<open>Word_Choice\<close>, \<open>Hints\<close>, \<open>Scoring\<close>, \<open>Edit_Distance\<close>, \<open>Chat_Filter\<close>,
      \<open>Game_Over\<close>, \<open>Broadcast\<close> and \<open>Transport\<close> hold their own lemmas. The edit distance is the least number
      of edits; a score lies between its bounds in double arithmetic; a hint never shows the whole word; the
      queue of a stream stays bounded and ordered.
    \<^item> Turns: \<open>Turn_Order\<close> (the rotation of the drawers refines a specification without index arithmetic, and
      everybody draws once in every round), \<open>Turn_Scoring\<close> (the points announced are the points awarded),
      \<open>Turn_Secrecy\<close> (before a turn ends the word reaches only those who may know it, and a guess is counted
      once), \<open>Game_Progress\<close> (whatever the players do, a running game ends after boundedly many timeouts).
    \<^item> The state of a worker: \<open>Room_Invariant\<close> (a room under the turn engine), \<open>Registry_Invariant\<close>,
      \<open>Manager_Invariant\<close>, \<open>Presence_Invariant\<close>, \<open>Lobby_Invariant\<close>, \<open>Dispatch_Invariant\<close> (every operation
      of the manager keeps the registry invariant and only the choice of a word can raise). \<open>Server\<close> draws
      the conclusions for every reachable state.
    \<^item> \<open>Registry_Facts\<close>: room codes, votes, the powers of the host, players who return, the replacement of
      the host. \<open>Dispatch_Facts\<close>: the three dispatchers agree, and forwarding to the owner of a room is
      transparent. \<open>Settings_Facts\<close>: which JSON is accepted as settings. \<open>Snapshots\<close>: what survives a snapshot.
    \<^item> Several workers: \<open>Redis_Facts\<close> (ownership of rooms, the least loaded worker, the handover of a draining
      worker's rooms), \<open>Cluster\<close> (joining a room of another worker, broadcasts that cross workers),
      \<open>Registrations\<close> and \<open>Subscriber\<close> (a worker listens to, and is registered for, exactly its rooms, also
      after lost connections), \<open>Application\<close> (a worker is announced exactly while it is up). \<open>Endpoints\<close>: which
      files the catch-all route serves.
    \<^item> The monitor: \<open>Load_Statistics\<close> (running statistics are those of all samples; time above a threshold),
      \<open>Load_Agent\<close> (samples in range, the list of nodes is read as printed), \<open>Monitor\<close> (the window of an agent
      counts the rounds since its last reset, whatever happens).
    \<^item> The other tools: \<open>Load_Test\<close> (what exit status 0 says of the latencies), \<open>Sticky_Test\<close> (an unreachable server
      passes), \<open>Coord_Server\<close> (a joiner reads the code that was last published), \<open>Gateway_Logs\<close> (the parsers agree,
      and percentiles bound their share of the times).

  \<^bold>\<open>Interfaces.\<close> \<open>player_table\<close> is the contract of the player list, interpreted on the objects and on the
  value model; \<open>float_rounding\<close> what the scores need of a rounding, interpreted on IEEE doubles; \<open>room_operation\<close>
  and \<open>total_room_operation\<close> the contract between the turn engine and the manager, interpreted on every
  operation of the engine that the manager calls; \<open>inductive_invariant\<close> the rule of the transition system,
  interpreted on the worker. The Redis server is the record \<open>redis_server\<close> and its documented behaviour the
  predicate \<open>redis_laws\<close>; \<open>reference_redis\<close> satisfies it, so the theorems about workers that share Redis apply.

  \<^bold>\<open>Bounds and termination.\<close> The loop that skips disconnected drawers runs over a fuel of the number of
  players: after that many steps the index has passed every player, and \<open>advance_refines_rotation\<close> shows that the
  result is that of the unbounded search. The loop that looks for a free room code may run for ever in the
  source: it is a \<open>partial_function\<close>, and \<open>room_code_generation\<close> says exactly when it returns. The wait for the
  answer to a remote call reads Redis at the listed polling times.

  \<^bold>\<open>Assumptions.\<close> A new \<open>uuid4\<close> differs from the identifiers in use (\<open>fresh_id\<close>). The invariants cover a
  worker that owns its rooms (\<open>home_only\<close>): proxies of rooms of other workers are covered by \<open>Dispatch_Facts\<close>,
  \<open>Cluster\<close> and \<open>Redis_Facts\<close> instead. A handler runs without interleaving: the awaits of a send are points
  where others could run, and the code is modelled as if they did not.

  \<^bold>\<open>Not modelled.\<close> The parsing of JSON and the English wording of errors and announcements (a message is
  its type and fields); the error of a single Redis command; the FastAPI set-up; where the
  engine counts guesses for the metrics; the choice of a JSON library (\<open>fast_json.py\<close>) and the
  code generated from the protocol definition (\<open>proto\<close>), which only pass calls on to third-party code; the gateway
  (Go) and the browser client, which are other programs. Of the tools: command lines, threads and sockets, the
  layout of printed tables and reports, the standard deviation, pauses, and the interleaving of the tasks of a
  \<open>gather\<close>, which run one after the other; the copier of dashboards (\<open>capture_grafana.py\<close>) and the smoke test of the
  gateway (\<open>test_proxy.py\<close>), which are input and output only.
\<close>

end
